(* ===== verification/Prelude.thy ===== *)
theory Prelude
  imports Complex_Main "HOL-Library.Code_Target_Nat" "HOL-Library.Word" "HOL-Library.Char_ord" "HOL-Library.List_Lexorder"
begin

text \<open>
  What the components share: the result type of an operation that can end the process, the parts
  of the C library the sources call (character classes, \<open>strcmp\<close> and its kin, \<open>atoi\<close>,
  \<open>strtok\<close>, \<open>sscanf\<close>, the integer conversions of \<open>printf\<close>), the search loop
  \<open>for (i=0; i<n; i++) if (...) return i\<close>, and the facts about lists that every component
  uses. A C string is the list of its bytes before the terminating NUL. A pointer into one of
  the shared arrays is an index, and the null pointer is \<open>None\<close>.
\<close>

unbundle bit_operations_syntax

named_theorems tabs "facts about the search loop and the tables built on it"
named_theorems cstrs "facts about the C string functions"

section \<open>Outcomes\<close>

text \<open>
  \<open>Ok v\<close>: the call returns. \<open>Die msg\<close>: the call reaches \<open>die\<close>, which logs the
  message and exits the process. \<open>Undef\<close>: the call reads or writes outside an object or
  through a null or freed pointer, after which C promises nothing.
\<close>

datatype 'a outcome = Ok 'a | Die string | Undef

fun obind :: "'a outcome \<Rightarrow> ('a \<Rightarrow> 'b outcome) \<Rightarrow> 'b outcome" where
  "obind (Ok v) f = f v"
| "obind (Die e) f = Die e"
| "obind Undef f = Undef"

lemma obind_Ok_iff [simp]: "obind x f = Ok b \<longleftrightarrow> (\<exists>a. x = Ok a \<and> f a = Ok b)"
  by (cases x) auto

lemma obind_Undef_iff [simp]: "obind x f = Undef \<longleftrightarrow> x = Undef \<or> (\<exists>a. x = Ok a \<and> f a = Undef)"
  by (cases x) auto

lemma obind_Ok_right [simp]: "obind x Ok = x"
  by (cases x) auto

section \<open>Characters\<close>

abbreviation NUL :: char where "NUL \<equiv> CHR 0x00"
abbreviation TAB :: char where "TAB \<equiv> CHR 0x09"
abbreviation LF :: char where "LF \<equiv> CHR 0x0A"
abbreviation CR :: char where "CR \<equiv> CHR 0x0D"
abbreviation SP :: char where "SP \<equiv> CHR 0x20"
abbreviation BSL :: char where "BSL \<equiv> CHR 0x5C"
abbreviation QUOTE :: char where "QUOTE \<equiv> CHR 0x27"

abbreviation CRLF :: string where "CRLF \<equiv> [CR, LF]"

definition code :: "char \<Rightarrow> nat" where
  "code c = of_char c"

definition isspace_c :: "char \<Rightarrow> bool" where
  "isspace_c c \<longleftrightarrow> c = SP \<or> (9 \<le> code c \<and> code c \<le> 13)"

definition isdigit_c :: "char \<Rightarrow> bool" where
  "isdigit_c c \<longleftrightarrow> 48 \<le> code c \<and> code c \<le> 57"

definition tolower_c :: "char \<Rightarrow> char" where
  "tolower_c c = (if 65 \<le> code c \<and> code c \<le> 90 then char_of (code c + 32) else c)"

lemma code_inject [simp]: "code a = code b \<longleftrightarrow> a = b"
  by (simp add: code_def)

lemma code_less: "code c < 256"
  by (simp add: code_def)

text \<open>The byte at index \<open>i\<close> of a C string; the terminating NUL after its last byte.\<close>

definition chr_at :: "string \<Rightarrow> nat \<Rightarrow> char" where
  "chr_at s i = (if i < length s then s ! i else NUL)"

section \<open>The search loop and lists\<close>

text \<open>
  \<open>find_index P xs\<close> is the loop \<open>for (i=0; i<n; i++) if (P(a[i])) return a+i; return NULL\<close>
  over an array of which \<open>xs\<close> are the first \<open>n\<close> elements.
\<close>

fun find_index :: "('a \<Rightarrow> bool) \<Rightarrow> 'a list \<Rightarrow> nat option" where
  "find_index P [] = None"
| "find_index P (x # xs) = (if P x then Some 0 else map_option Suc (find_index P xs))"

lemma find_index_Some [tabs]:
  "find_index P xs = Some i \<longleftrightarrow> i < length xs \<and> P (xs ! i) \<and> (\<forall>j < i. \<not> P (xs ! j))"
proof (induction xs arbitrary: i)
  case Nil
  then show ?case by simp
next
  case (Cons x xs)
  show ?case
    by (cases i) (auto simp: Cons.IH nth_Cons less_Suc_eq_0_disj split: nat.splits)
qed

lemma find_index_None [tabs]: "find_index P xs = None \<longleftrightarrow> (\<forall>x \<in> set xs. \<not> P x)"
  by (induction xs) auto

lemma find_index_bound [dest]: "find_index P xs = Some i \<Longrightarrow> i < length xs"
  by (simp add: find_index_Some)

lemma find_index_holds: "find_index P xs = Some i \<Longrightarrow> P (xs ! i)"
  by (simp add: find_index_Some)

lemma find_index_append:
  "find_index P (xs @ ys) =
     (case find_index P xs of Some i \<Rightarrow> Some i
      | None \<Rightarrow> map_option (\<lambda>i. length xs + i) (find_index P ys))"
proof (induction xs)
  case Nil
  then show ?case by (cases "find_index P ys") auto
next
  case (Cons x xs)
  then show ?case by (cases "find_index P ys") (auto split: option.splits)
qed

lemma find_index_cong:
  "(\<And>x. x \<in> set xs \<Longrightarrow> P x = Q x) \<Longrightarrow> find_index P xs = find_index Q xs"
  by (induction xs) auto

lemma find_index_map: "find_index P (map f xs) = find_index (P \<circ> f) xs"
  by (induction xs) auto

text \<open>Overwriting a row by one with the same answer changes no search.\<close>

lemma find_index_update_same:
  "i < length xs \<Longrightarrow> P y = P (xs ! i) \<Longrightarrow> find_index P (xs[i := y]) = find_index P xs"
  by (induction xs arbitrary: i) (auto split: nat.splits)

lemma filter_length_update:
  "i < length xs \<Longrightarrow>
     length (filter P (xs[i := y])) + of_bool (P (xs ! i)) = length (filter P xs) + of_bool (P y)"
proof (induction xs arbitrary: i)
  case Nil
  then show ?case by simp
next
  case (Cons x xs)
  show ?case
  proof (cases i)
    case 0
    then show ?thesis by simp
  next
    case (Suc k)
    with Cons.prems have "k < length xs" by simp
    from Cons.IH [OF this] Suc show ?thesis by simp
  qed
qed

lemma filter_index_pos: "i < length xs \<Longrightarrow> P (xs ! i) \<Longrightarrow> 0 < length (filter P xs)"
  by (metis filter_empty_conv length_greater_0_conv nth_mem)


section \<open>Strings\<close>

definition nullstr :: "string option \<Rightarrow> bool" where
  "nullstr s = (case s of None \<Rightarrow> True | Some t \<Rightarrow> t = [])"

lemma nullstr_Some [simp]: "nullstr (Some t) \<longleftrightarrow> t = []"
  by (simp add: nullstr_def)

lemma nullstr_None [simp]: "nullstr None"
  by (simp add: nullstr_def)

text \<open>\<open>strcmp\<close>: the sign of the first difference between unsigned bytes.\<close>

fun strcmp :: "string \<Rightarrow> string \<Rightarrow> int" where
  "strcmp [] [] = 0"
| "strcmp [] (b # bs) = -1"
| "strcmp (a # as) [] = 1"
| "strcmp (a # as) (b # bs) =
     (if a = b then strcmp as bs else if code a < code b then -1 else 1)"

definition strcaseeq :: "string \<Rightarrow> string \<Rightarrow> bool" where
  \<comment> \<open>\<open>strcasecmp(a, b) == 0\<close>\<close>
  "strcaseeq a b \<longleftrightarrow> map tolower_c a = map tolower_c b"

definition strncaseeq :: "string \<Rightarrow> string \<Rightarrow> nat \<Rightarrow> bool" where
  \<comment> \<open>\<open>strncasecmp(a, b, n) == 0\<close>\<close>
  "strncaseeq a b n \<longleftrightarrow> map tolower_c (take n a) = map tolower_c (take n b)"

lemma strcmp_eq_0 [cstrs, simp]: "strcmp a b = 0 \<longleftrightarrow> a = b"
  by (induction a b rule: strcmp.induct) auto

lemma strcmp_less [cstrs]: "strcmp a b < 0 \<longleftrightarrow> a < b"
  by (induction a b rule: strcmp.induct) (auto simp: code_def less_char_def)

lemma strcmp_antisym: "strcmp a b = - strcmp b a"
  by (induction a b rule: strcmp.induct) auto

lemma strcmp_greater [cstrs]: "0 < strcmp a b \<longleftrightarrow> b < a"
  using strcmp_antisym [of a b] strcmp_less [of b a] by linarith

lemma strcaseeq_refl [simp]: "strcaseeq a a"
  by (simp add: strcaseeq_def)

lemma strcaseeq_sym: "strcaseeq a b = strcaseeq b a"
  by (auto simp: strcaseeq_def)

lemma strcaseeq_trans: "strcaseeq a b \<Longrightarrow> strcaseeq b c \<Longrightarrow> strcaseeq a c"
  by (simp add: strcaseeq_def)

section \<open>Numbers in strings\<close>

text \<open>
  \<open>strtol (s, NULL, 10)\<close> on a 64-bit long: white space, a sign, digits, the value held at
  the ends of the range. \<open>atol\<close> and \<open>atoll\<close> are this function, \<open>atoi\<close> its value
  cut to 32 bits, as in glibc.
\<close>

fun digits_acc :: "nat \<Rightarrow> string \<Rightarrow> nat" where
  "digits_acc a [] = a"
| "digits_acc a (c # cs) =
     (if isdigit_c c then digits_acc (10 * a + (code c - 48)) cs else a)"

definition clamp_long :: "int \<Rightarrow> int" where
  "clamp_long i = max (- (2 ^ 63)) (min (2 ^ 63 - 1) i)"

definition atol :: "string \<Rightarrow> int" where
  "atol s = (let t = dropWhile isspace_c s in
     clamp_long (case t of [] \<Rightarrow> 0
       | c # cs \<Rightarrow> if c = CHR ''-'' then - int (digits_acc 0 cs)
                  else if c = CHR ''+'' then int (digits_acc 0 cs)
                  else int (digits_acc 0 t)))"

definition atoi :: "string \<Rightarrow> int" where
  "atoi s = signed_take_bit 31 (atol s)"

text \<open>\<open>%u\<close>, \<open>%d\<close> and \<open>%.<n>ld\<close> of \<open>printf\<close>.\<close>

fun nat_str :: "nat \<Rightarrow> string" where
  "nat_str n = (if n < 10 then [char_of (48 + n)] else nat_str (n div 10) @ [char_of (48 + n mod 10)])"

declare nat_str.simps [simp del]

definition int_str :: "int \<Rightarrow> string" where
  "int_str i = (if i < 0 then CHR ''-'' # nat_str (nat (- i)) else nat_str (nat i))"

definition pad0 :: "nat \<Rightarrow> string \<Rightarrow> string" where
  "pad0 w s = replicate (w - length s) CHR ''0'' @ s"

definition prec_str :: "nat \<Rightarrow> int \<Rightarrow> string" where
  "prec_str w i = (if i < 0 then CHR ''-'' # pad0 w (nat_str (nat (- i))) else pad0 w (nat_str (nat i)))"

lemma isdigit_digit: "n < 10 \<Longrightarrow> isdigit_c (char_of (48 + n)) \<and> code (char_of (48 + n)) = 48 + n"
  by (simp add: isdigit_c_def code_def)

lemma digits_acc_append:
  "\<forall>c \<in> set ds. isdigit_c c \<Longrightarrow> digits_acc a (ds @ s) = digits_acc (digits_acc a ds) s"
  by (induction ds arbitrary: a) auto

lemma nat_str_digits: "\<forall>c \<in> set (nat_str n). isdigit_c c"
proof (induction n rule: nat_str.induct)
  case (1 n)
  then show ?case
    by (subst nat_str.simps) (auto simp: isdigit_digit)
qed

lemma nat_str_nonempty [simp]: "nat_str n \<noteq> []"
  by (subst nat_str.simps) simp

lemma digits_acc_nat_str: "digits_acc 0 (nat_str n) = n"
proof (induction n rule: nat_str.induct)
  case (1 n)
  show ?case
  proof (cases "n < 10")
    case True
    then show ?thesis
      by (subst nat_str.simps) (simp add: isdigit_digit)
  next
    case False
    with "1.IH" have "digits_acc 0 (nat_str (n div 10)) = n div 10" by simp
    with False show ?thesis
      by (subst nat_str.simps) (simp add: digits_acc_append nat_str_digits isdigit_digit)
  qed
qed

lemma digits_acc_zeros: "digits_acc 0 (replicate k CHR ''0'' @ s) = digits_acc 0 s"
  by (induction k) (auto simp: isdigit_c_def code_def)

lemma isdigit_not_space: "isdigit_c c \<Longrightarrow> \<not> isspace_c c \<and> c \<noteq> CHR ''-'' \<and> c \<noteq> CHR ''+''"
  by (auto simp: isdigit_c_def isspace_c_def code_def)

lemma pad0_digits: "\<forall>c \<in> set (pad0 w (nat_str n)). isdigit_c c"
  using nat_str_digits [of n] by (auto simp: pad0_def isdigit_c_def code_def)

lemma pad0_nonempty [simp]: "pad0 w (nat_str n) \<noteq> []"
  by (simp add: pad0_def)

lemma atol_digits:
  assumes "s \<noteq> []" and "\<forall>c \<in> set s. isdigit_c c"
  shows "atol s = clamp_long (int (digits_acc 0 s))"
proof -
  obtain c cs where s: "s = c # cs" using assms(1) by (cases s) auto
  with assms(2) have "isdigit_c c" by simp
  then have "dropWhile isspace_c s = s" and "c \<noteq> CHR ''-''" and "c \<noteq> CHR ''+''"
    using s isdigit_not_space by auto
  with s show ?thesis by (simp add: atol_def)
qed

lemma atol_pad0: "int n < 2 ^ 63 \<Longrightarrow> atol (pad0 w (nat_str n)) = int n"
  using pad0_digits [of w n]
  by (simp add: atol_digits pad0_def digits_acc_zeros digits_acc_nat_str clamp_long_def)

lemma atol_nat_str: "int n < 2 ^ 63 \<Longrightarrow> atol (nat_str n) = int n"
  using nat_str_digits [of n]
  by (simp add: atol_digits digits_acc_nat_str clamp_long_def)

lemma nat_str_length: "0 < k \<Longrightarrow> n < 10 ^ k \<Longrightarrow> length (nat_str n) \<le> k"
proof (induction n arbitrary: k rule: nat_str.induct)
  case (1 n)
  show ?case
  proof (cases "n < 10")
    case True
    with "1.prems" show ?thesis by (subst nat_str.simps) simp
  next
    case False
    obtain j where k: "k = Suc j" using "1.prems" by (cases k) auto
    have j: "0 < j" using "1.prems" False k by (cases j) auto
    with "1.prems" k have "n div 10 < 10 ^ j" by (simp add: less_mult_imp_div_less mult.commute)
    with "1.IH" False j have "length (nat_str (n div 10)) \<le> j" by simp
    with False k show ?thesis by (subst nat_str.simps) simp
  qed
qed

section \<open>strtok and sscanf\<close>

text \<open>The tokens successive calls of \<open>strtok (s, delims)\<close> return.\<close>

function strtok :: "string \<Rightarrow> string \<Rightarrow> string list" where
  "strtok delims s =
     (let t = dropWhile (\<lambda>c. c \<in> set delims) s in
      if t = [] then []
      else takeWhile (\<lambda>c. c \<notin> set delims) t
           # strtok delims (dropWhile (\<lambda>c. c \<notin> set delims) t))"
  by pat_completeness auto
termination
proof (relation "measure (\<lambda>(d, s). length s)", goal_cases)
  case 1
  show ?case by simp
next
  case (2 delims s t)
  then obtain c u where t: "t = c # u" and c: "c \<notin> set delims"
    by (metis hd_dropWhile list.exhaust list.sel(1))
  have "length (dropWhile (\<lambda>c. c \<notin> set delims) t) \<le> length u"
    using t c by (simp add: length_dropWhile_le)
  also have "length u < length t" using t by simp
  also have "length t \<le> length s" using 2 by (simp add: length_dropWhile_le)
  finally show ?case by simp
qed

declare strtok.simps [simp del]

text \<open>
  \<open>sscanf\<close> as an interpreter of its directives: white space, literal text, \<open>%<n>s\<close>,
  \<open>%<n>[set]\<close>, \<open>%*[set]\<close>, \<open>%<n>d\<close> and \<open>%lld\<close> (a width \<open>None\<close> is no limit). The result is
  the list of the values assigned, and whether the scan stopped because the input ended: then
  a call that assigned nothing returns \<open>EOF\<close>.
\<close>

datatype conv = FWs | FLit string | FStr "nat option" | FCls "char \<Rightarrow> bool" "nat option"
  | FSkip "char \<Rightarrow> bool" | FInt "nat option" | FLong

datatype sval = SV string | IV int

definition at_most :: "nat option \<Rightarrow> 'a list \<Rightarrow> 'a list" where
  "at_most n xs = (case n of None \<Rightarrow> xs | Some k \<Rightarrow> take k xs)"

definition int_token :: "string \<Rightarrow> string" where
  "int_token s = (case s of [] \<Rightarrow> []
     | c # cs \<Rightarrow> if c = CHR ''-'' \<or> c = CHR ''+'' then c # takeWhile isdigit_c cs
                else takeWhile isdigit_c s)"

fun scan :: "conv list \<Rightarrow> string \<Rightarrow> sval list \<times> bool" where
  "scan [] s = ([], False)"
| "scan (FWs # fs) s = scan fs (dropWhile isspace_c s)"
| "scan (FLit l # fs) s =
     (if take (length l) s = l then scan fs (drop (length l) s)
      else ([], take (length s) l = s))"
| "scan (FStr n # fs) s =
     (let t = dropWhile isspace_c s; w = at_most n (takeWhile (\<lambda>c. \<not> isspace_c c) t) in
      if t = [] then ([], True)
      else let (vs, e) = scan fs (drop (length w) t) in (SV w # vs, e))"
| "scan (FCls P n # fs) s =
     (let w = at_most n (takeWhile P s) in
      if s = [] then ([], True) else if w = [] then ([], False)
      else let (vs, e) = scan fs (drop (length w) s) in (SV w # vs, e))"
| "scan (FSkip P # fs) s =
     (let w = takeWhile P s in
      if s = [] then ([], True) else if w = [] then ([], False)
      else scan fs (drop (length w) s))"
| "scan (FInt n # fs) s =
     (let t = dropWhile isspace_c s; w = int_token (at_most n t) in
      if t = [] then ([], True)
      else if \<not> (\<exists>c \<in> set w. isdigit_c c) then ([], False)
      else let (vs, e) = scan fs (drop (length w) t) in (IV (atoi w) # vs, e))"
| "scan (FLong # fs) s =
     (let t = dropWhile isspace_c s; w = int_token t in
      if t = [] then ([], True)
      else if \<not> (\<exists>c \<in> set w. isdigit_c c) then ([], False)
      else let (vs, e) = scan fs (drop (length w) t) in (IV (atol w) # vs, e))"

definition sscanf :: "conv list \<Rightarrow> string \<Rightarrow> sval list" where
  "sscanf fs s = fst (scan fs s)"

definition sscanf_ret :: "conv list \<Rightarrow> string \<Rightarrow> int" where
  "sscanf_ret fs s =
     (let (vs, e) = scan fs s in if vs = [] \<and> e then -1 else int (length vs))"

text \<open>The k-th assigned string or integer; the variable's old value where none was assigned.\<close>

definition sv :: "sval list \<Rightarrow> nat \<Rightarrow> string \<Rightarrow> string" where
  "sv vs k old = (if k < length vs then (case vs ! k of SV s \<Rightarrow> s | IV _ \<Rightarrow> old) else old)"

definition iv :: "sval list \<Rightarrow> nat \<Rightarrow> int \<Rightarrow> int" where
  "iv vs k old = (if k < length vs then (case vs ! k of IV i \<Rightarrow> i | SV _ \<Rightarrow> old) else old)"

abbreviation blank :: "char \<Rightarrow> bool" where
  "blank c \<equiv> c = SP \<or> c = TAB"

abbreviation eol :: "char \<Rightarrow> bool" where
  "eol c \<equiv> c = CR \<or> c = LF"

lemma sscanf_ret_bounds: "-1 \<le> sscanf_ret fs s \<and> sscanf_ret fs s \<le> int (length (sscanf fs s))"
  by (auto simp: sscanf_ret_def sscanf_def split: prod.splits)

text \<open>
  A word of non-space characters that fits the width, followed by a space or the end, is read
  back by \<open>%<n>s\<close> as it is.
\<close>

lemma takeWhile_word:
  "\<forall>c \<in> set w. P c \<Longrightarrow> (s = [] \<or> \<not> P (hd s)) \<Longrightarrow> takeWhile P (w @ s) = w"
  by (cases s) (simp_all add: takeWhile_append2)

lemma scan_word:
  assumes "w \<noteq> []" and "\<forall>c \<in> set w. \<not> isspace_c c" and "length w \<le> n"
    and "s = [] \<or> isspace_c (hd s)"
  shows "scan (FStr (Some n) # fs) (w @ s) = (SV w # fst (scan fs s), snd (scan fs s))"
proof -
  have d: "dropWhile isspace_c (w @ s) = w @ s"
    using assms(1,2) by (cases w) auto
  have t: "takeWhile (\<lambda>c. \<not> isspace_c c) (w @ s) = w"
    using assms(2,4) by (intro takeWhile_word) auto
  show ?thesis
    using assms(1,3) by (simp add: d t at_most_def split: prod.splits)
qed

section \<open>Buffers and addresses\<close>

text \<open>\<open>strcpy\<close> into a buffer of \<open>n\<close> bytes.\<close>

definition strcpy_to :: "nat \<Rightarrow> string \<Rightarrow> string outcome" where
  "strcpy_to n s = (if length s < n then Ok s else Undef)"

lemma strcpy_to_Ok [simp]: "strcpy_to n s = Ok t \<longleftrightarrow> length s < n \<and> t = s"
  by (auto simp: strcpy_to_def)

text \<open>
  \<open>inet_aton\<close> on the strings of digits and dots the sources pass: one to four parts, each
  decimal or, with a leading zero, octal; the last part fills the bytes that are left. The result
  is the address in host order, what \<open>ntohl\<close> makes of \<open>s_addr\<close>.
\<close>

definition addr_part :: "string \<Rightarrow> nat option" where
  "addr_part s =
     (if s = [] \<or> \<not> (\<forall>c \<in> set s. isdigit_c c) then None
      else if hd s = CHR ''0'' then
        (if \<forall>c \<in> set s. code c < 56 then Some (foldl (\<lambda>a c. 8 * a + (code c - 48)) 0 s) else None)
      else Some (digits_acc 0 s))"

fun split_on :: "char \<Rightarrow> string \<Rightarrow> string list" where
  "split_on d [] = [[]]"
| "split_on d (c # cs) =
     (if c = d then [] # split_on d cs
      else (case split_on d cs of [] \<Rightarrow> [[c]] | w # ws \<Rightarrow> (c # w) # ws))"

fun addr_of :: "nat \<Rightarrow> nat option list \<Rightarrow> nat option" where
  "addr_of k [] = None"
| "addr_of k [p] = (case p of None \<Rightarrow> None | Some a \<Rightarrow> if a < 256 ^ k then Some a else None)"
| "addr_of k (p # ps) =
     (case (p, addr_of (k - 1) ps) of
        (Some a, Some b) \<Rightarrow> if a < 256 then Some (a * 256 ^ (k - 1) + b) else None
      | _ \<Rightarrow> None)"

definition inet_aton :: "string \<Rightarrow> nat option" where
  "inet_aton s = (let ps = split_on CHR ''.'' s in
     if 4 < length ps then None else addr_of 4 (map addr_part ps))"

definition inet_ntoa :: "nat \<Rightarrow> string" where
  "inet_ntoa a =
     nat_str (a div 2 ^ 24 mod 256) @ ''.'' @ nat_str (a div 2 ^ 16 mod 256) @ ''.''
       @ nat_str (a div 2 ^ 8 mod 256) @ ''.'' @ nat_str (a mod 256)"

lemma addr_of_less: "addr_of k ps = Some a \<Longrightarrow> length ps \<le> k \<Longrightarrow> a < 256 ^ k"
proof (induction k ps arbitrary: a rule: addr_of.induct)
  case (3 k p q ps)
  then obtain x b where xb: "addr_of (k - 1) (q # ps) = Some b" "x < 256" "a = x * 256 ^ (k - 1) + b"
    by (auto split: option.splits if_splits)
  with "3.IH" "3.prems" obtain j where k: "k = Suc j" and "b < 256 ^ j"
    by (cases k) (auto split: option.splits if_splits)
  then have "x * 256 ^ j + b < (x + 1) * 256 ^ j" by simp
  also have "\<dots> \<le> 256 * 256 ^ j" using xb(2) by (intro mult_right_mono) auto
  finally show ?case using xb(3) k by simp
qed (auto split: option.splits if_splits)

lemma inet_aton_less: "inet_aton s = Some a \<Longrightarrow> a < 2 ^ 32"
  using addr_of_less [of 4 _ a] by (auto simp: inet_aton_def Let_def split: if_splits)

lemma split_on_word: "d \<notin> set w \<Longrightarrow> split_on d (w @ d # s) = w # split_on d s"
  by (induction w) auto

lemma split_on_last: "d \<notin> set w \<Longrightarrow> split_on d w = [w]"
  by (induction w) auto

lemma nat_str_no_dot: "CHR ''.'' \<notin> set (nat_str n)"
  using nat_str_digits [of n] by (auto simp: isdigit_c_def code_def)

lemma nat_str_leading: "hd (nat_str n) = CHR ''0'' \<longleftrightarrow> n = 0"
proof (induction n rule: nat_str.induct)
  case (1 n)
  show ?case
  proof (cases "n < 10")
    case True
    then have "n \<in> {0, 1, 2, 3, 4, 5, 6, 7, 8, 9}" by auto
    then show ?thesis by (subst nat_str.simps) (auto simp: char_of_def bit_0)
  next
    case False
    with 1 show ?thesis by (subst nat_str.simps) auto
  qed
qed

lemma addr_part_nat_str: "addr_part (nat_str n) = Some n"
proof (cases "n = 0")
  case True
  then show ?thesis by (simp add: nat_str.simps addr_part_def isdigit_c_def code_def)
next
  case False
  then show ?thesis
    using nat_str_digits [of n]
    by (auto simp: addr_part_def nat_str_leading digits_acc_nat_str)
qed

lemma inet_aton_ntoa: "a < 2 ^ 32 \<Longrightarrow> inet_aton (inet_ntoa a) = Some a"
proof -
  assume a: "a < 2 ^ 32"
  then have top: "a div 2 ^ 24 mod 256 = a div 2 ^ 24" by (simp add: less_mult_imp_div_less)
  have "split_on CHR ''.'' (inet_ntoa a) =
      [nat_str (a div 2 ^ 24 mod 256), nat_str (a div 2 ^ 16 mod 256), nat_str (a div 2 ^ 8 mod 256),
       nat_str (a mod 256)]"
    by (simp add: inet_ntoa_def split_on_word split_on_last nat_str_no_dot)
  moreover have "(a div 2 ^ 24 mod 256) * 256 ^ 3 + ((a div 2 ^ 16 mod 256) * 256 ^ 2
      + ((a div 2 ^ 8 mod 256) * 256 + a mod 256)) = a"
  proof -
    let ?b = "a div 256" and ?c = "a div 256 div 256" and ?d = "a div 256 div 256 div 256"
    have "a div 2 ^ 24 = ?d" and "a div 2 ^ 16 = ?c" and "a div 2 ^ 8 = ?b"
      by (simp_all flip: div_mult2_eq)
    moreover have "w * 256 ^ 3 + (x * 256 ^ 2 + (y * 256 + z)) = ((w * 256 + x) * 256 + y) * 256 + z"
      for w x y z :: nat by simp
    ultimately show ?thesis unfolding top by (simp only: div_mult_mod_eq)
  qed
  moreover have "a div 2 ^ 24 < 256" using a by (simp add: less_mult_imp_div_less)
  ultimately show ?thesis
    by (simp add: inet_aton_def addr_part_nat_str)
qed

text \<open>
  \<open>atof\<close> on decimal notation without an exponent: a sign, digits and a fraction.
\<close>

definition atof :: "string \<Rightarrow> real" where
  "atof s =
     (let t = dropWhile isspace_c s;
          neg = (t \<noteq> [] \<and> hd t = CHR ''-'');
          u = (if t \<noteq> [] \<and> (hd t = CHR ''-'' \<or> hd t = CHR ''+'') then tl t else t);
          ip = takeWhile isdigit_c u;
          r = drop (length ip) u;
          fp = (if r \<noteq> [] \<and> hd r = CHR ''.'' then takeWhile isdigit_c (tl r) else []);
          v = of_nat (digits_acc 0 ip) + of_nat (digits_acc 0 fp) / 10 ^ length fp
      in if neg then - v else v)"

lemma scan_class:
  assumes "w \<noteq> []" and "\<forall>c \<in> set w. P c" and "length w \<le> n" and "s = [] \<or> \<not> P (hd s)"
  shows "scan (FCls P (Some n) # fs) (w @ s) = (SV w # fst (scan fs s), snd (scan fs s))"
proof -
  have "takeWhile P (w @ s) = w" using assms(2,4) by (rule takeWhile_word)
  then show ?thesis using assms(1,3) by (simp add: at_most_def split: prod.splits)
qed

lemma scan_skip:
  assumes "P c" and "s = [] \<or> \<not> P (hd s)"
  shows "scan (FSkip P # fs) (c # s) = scan fs s"
  using assms by (cases s) auto

lemma scan_ws: "isspace_c c \<Longrightarrow> s = [] \<or> \<not> isspace_c (hd s) \<Longrightarrow> scan (FWs # fs) (c # s) = scan fs s"
  by (cases s) auto

lemma int_token_digits: "(\<forall>c \<in> set ds. isdigit_c c) \<Longrightarrow> ds \<noteq> [] \<Longrightarrow> s = [] \<or> \<not> isdigit_c (hd s) \<Longrightarrow> int_token (ds @ s) = ds"
proof (cases ds)
  case (Cons d ds')
  assume ds: "\<forall>c \<in> set ds. isdigit_c c" and s: "s = [] \<or> \<not> isdigit_c (hd s)"
  with Cons have "d \<noteq> CHR ''-''" "d \<noteq> CHR ''+''" "takeWhile isdigit_c (ds @ s) = ds"
    using isdigit_not_space [of d] takeWhile_word [OF ds s] by simp_all
  with Cons show ?thesis by (simp add: int_token_def)
qed simp

lemma inet_ntoa_chars:
  shows "\<forall>c \<in> set (inet_ntoa a). isdigit_c c \<or> c = CHR ''.''" and "inet_ntoa a \<noteq> []" and "length (inet_ntoa a) \<le> 15"
proof -
  show "\<forall>c \<in> set (inet_ntoa a). isdigit_c c \<or> c = CHR ''.''"
    using nat_str_digits by (auto simp: inet_ntoa_def)
  show "inet_ntoa a \<noteq> []" by (simp add: inet_ntoa_def)
  have "length (nat_str (x mod 256)) \<le> 3" for x :: nat
    by (rule nat_str_length) (simp_all add: less_trans [of _ 256])
  from this [of "a div 2 ^ 24"] this [of "a div 2 ^ 16"] this [of "a div 2 ^ 8"] this [of a]
  show "length (inet_ntoa a) \<le> 15" by (simp add: inet_ntoa_def)
qed

end
