(* ===== verification/Wildmat.thy ===== *)
theory Wildmat
  imports Prelude
begin

text \<open>
  \<open>uwildmat.c\<close>: wildcard patterns over newsgroup names and auth lines. The text is the list
  of the bytes from the text pointer to the NUL; the pattern is the whole expression with the
  index \<open>p\<close> of the pattern pointer and \<open>stop\<close>, one past the last octet \<open>end\<close> of
  the piece. The declarative meaning of a piece is the list of its tokens and the relation
  \<open>matches\<close>; a piece that matches has it, and on texts without UTF-8 lead bytes every piece
  that has it matches. An expression is decided by its last matching piece.
\<close>

datatype mres = MFalse | MTrue | MAbort
datatype wildres = UFail | UMatch | UPoison

section \<open>UTF-8\<close>

definition lead_ones :: "char \<Rightarrow> nat" where
  "lead_ones c = length (takeWhile (bit (code c)) [7, 6, 5, 4, 3, 2, 1, 0])"

definition is_cont :: "char \<Rightarrow> bool" where
  "is_cont c \<longleftrightarrow> code c AND 0xc0 = 0x80"

definition isutf8 :: "char \<Rightarrow> bool" where
  "isutf8 c \<longleftrightarrow> code c AND 0xc0 = 0xc0"

text \<open>\<open>bnd\<close> is \<open>end - start + 1\<close>, or \<open>None\<close> for a null \<open>end\<close>.\<close>

definition utf8_length :: "string \<Rightarrow> nat option \<Rightarrow> nat" where
  "utf8_length s bnd =
     (let len = lead_ones (chr_at s 0) in
      if len < 2 \<or> len > 6 then 1
      else if (case bnd of None \<Rightarrow> False | Some k \<Rightarrow> k < len) then 1
      else let left = (len - 1) - length (takeWhile is_cont (take (len - 1) (tl s))) in
           if left = 0 then len else 1)"

definition utf8_decode :: "string \<Rightarrow> nat option \<Rightarrow> nat \<times> 32 word" where
  "utf8_decode s bnd =
     (let len = utf8_length s bnd in
      if len < 2 then (1, word_of_nat (code (chr_at s 0)))
      else let mask = (2 ^ (7 - len) - 1 :: nat);
               value = word_of_nat (code (chr_at s 0) AND mask)
           in (len, foldl (\<lambda>v c. push_bit 6 v OR word_of_nat (code c AND 0x3f))
                          value (take (len - 1) (tl s))))"

section \<open>Character classes\<close>

lemma utf8_length_pos: "0 < utf8_length s bnd"
  by (auto simp: utf8_length_def Let_def split: option.splits)

lemma utf8_decode_pos: "0 < fst (utf8_decode s bnd)"
  using utf8_length_pos [of s bnd] by (auto simp: utf8_decode_def Let_def)

text \<open>
  The loop of \<open>match_class\<close>: \<open>allow\<close> is \<open>allowrange\<close>, \<open>first\<close> the variable of
  that name (read only after it was set), the list the octets from \<open>p\<close> to \<open>end\<close>.
\<close>

function class_loop :: "32 word \<Rightarrow> bool \<Rightarrow> bool \<Rightarrow> 32 word \<Rightarrow> string \<Rightarrow> bool" where
  "class_loop c rv allow first s =
     (if s = [] then rv
      else if allow \<and> hd s = CHR ''-'' \<and> tl s \<noteq> [] then
        (let (n, last) = utf8_decode (tl s) (Some (length (tl s))) in
         if first \<le> c \<and> c \<le> last then \<not> rv
         else class_loop c rv False first (drop n (tl s)))
      else
        (let (n, f) = utf8_decode s (Some (length s)) in
         if c = f then \<not> rv else class_loop c rv True f (drop n s)))"
  by pat_completeness auto
termination
proof (relation "measure (\<lambda>(c, rv, allow, first, s). length s)", goal_cases)
  case 1
  show ?case by simp
next
  case (2 c rv allow first s nl n last)
  then show ?case by (cases s) auto
next
  case (3 c rv allow first s nf n f)
  then have "0 < n" using utf8_decode_pos [of s "Some (length s)"] by (metis fst_conv)
  with 3 show ?case by (cases s) auto
qed

declare class_loop.simps [simp del]

definition match_class :: "32 word \<Rightarrow> string \<Rightarrow> bool" where
  "match_class c s =
     (let rv = (chr_at s 0 = CHR ''^'') in class_loop c rv False 0 (if rv then tl s else s))"

section \<open>One pattern\<close>

definition skip_stars :: "string \<Rightarrow> nat \<Rightarrow> nat" where
  "skip_stars pat p = p + length (takeWhile (\<lambda>c. c = CHR ''*'') (drop p pat))"

text \<open>\<open>memchr (q, ']', end - q + 1)\<close>, as an index.\<close>

definition class_end :: "string \<Rightarrow> nat \<Rightarrow> nat \<Rightarrow> nat option" where
  "class_end pat q stop =
     map_option (\<lambda>i. q + i) (find_index (\<lambda>c. c = CHR '']'') (take (stop - q) (drop q pat)))"

definition class_start :: "string \<Rightarrow> nat \<Rightarrow> nat" where
  "class_start pat p1 = p1 + (if chr_at pat p1 = CHR ''^'' then 1 else 0) + 1"

definition is_meta :: "char \<Rightarrow> bool" where
  "is_meta c \<longleftrightarrow> c = CHR ''['' \<or> c = CHR ''?'' \<or> c = BSL"

lemma class_end_bounds: "class_end pat q stop = Some e \<Longrightarrow> q \<le> e \<and> e < stop"
  by (auto simp: class_end_def dest!: find_index_bound)

lemma skip_stars_ge: "p \<le> skip_stars pat p"
  by (simp add: skip_stars_def)

lemma star_decreases: "\<not> stop \<le> p \<Longrightarrow> stop - skip_stars pat (Suc p) < stop - p"
  using skip_stars_ge [of "Suc p" pat] by linarith

lemma class_decreases:
  assumes "class_end pat (Suc (Suc (p + k))) stop = Some e"
  shows "stop - Suc e < stop - p"
  using class_end_bounds [OF assms] by linarith

lemma dropWhile_decreases: "s \<noteq> [] \<Longrightarrow> length (dropWhile P s) - Suc 0 < length s"
  using length_dropWhile_le [of P s] by (cases s) (auto simp: le_imp_less_Suc)

lemmas wildmat_decreases = star_decreases class_decreases dropWhile_decreases

function (sequential) match_pattern :: "string \<Rightarrow> string \<Rightarrow> nat \<Rightarrow> nat \<Rightarrow> mres"
  and star_loop :: "string \<Rightarrow> string \<Rightarrow> nat \<Rightarrow> nat \<Rightarrow> mres" where
  "match_pattern text pat p stop =
     (if stop \<le> p then (if text = [] then MTrue else MFalse)
      else let c = chr_at pat p in
      if text = [] \<and> c \<noteq> CHR ''*'' then MAbort
      else if c = BSL then
        (if chr_at pat (p + 1) = NUL then MAbort
         else if hd text \<noteq> chr_at pat (p + 1) then MFalse
         else match_pattern (tl text) pat (p + 2) stop)
      else if c = CHR ''?'' then
        match_pattern (drop (if isutf8 (hd text) then utf8_length text None else 1) text)
          pat (p + 1) stop
      else if c = CHR ''*'' then
        (let p' = skip_stars pat (p + 1) in
         if stop \<le> p' then MTrue else star_loop text pat p' stop)
      else if c = CHR ''['' then
        (let q = class_start pat (p + 1) in
         if stop \<le> q then MAbort
         else (case class_end pat q stop of
                 None \<Rightarrow> MAbort
               | Some e \<Rightarrow>
                   (let (n, u) = utf8_decode text None in
                    if \<not> match_class u (take (e - (p + 1)) (drop (p + 1) pat)) then MFalse
                    else match_pattern (drop n text) pat (e + 1) stop)))
      else if hd text \<noteq> c then MFalse
      else match_pattern (tl text) pat (p + 1) stop)"
| "star_loop text pat p stop =
     (if text = [] then MAbort
      else if is_meta (chr_at pat p) then
        (let m = match_pattern text pat p stop in
         if m \<noteq> MFalse then m else star_loop (tl text) pat p stop)
      else
        (let t = dropWhile (\<lambda>c. c \<noteq> chr_at pat p) text in
         if t = [] then MAbort
         else let m = match_pattern (tl t) pat (p + 1) stop in
              if m \<noteq> MFalse then m else star_loop (tl t) pat p stop))"
  by pat_completeness auto
termination
  by (relation "inv_image (less_than <*lex*> less_than <*lex*> less_than) (case_sum
        (\<lambda>(t, pat, p, stop). (stop - p, length t, 0)) (\<lambda>(t, pat, p, stop). (stop - p, length t, 1)))")
    (auto simp: class_start_def wildmat_decreases)
declare match_pattern.simps [simp del] star_loop.simps [simp del]

section \<open>Expressions\<close>

text \<open>
  The loop that looks for the comma: from \<open>split\<close> with the flag \<open>escaped\<close>. A bracket
  runs to its closing bracket, or past the end of the string.
\<close>

definition bracket_skip :: "string \<Rightarrow> nat \<Rightarrow> nat" where
  "bracket_skip pat split =
     (let s1 = split + 1; s2 = (if chr_at pat s1 = CHR '']'' then s1 + 1 else s1) in
      s2 + length (takeWhile (\<lambda>c. c \<noteq> CHR '']'') (drop s2 pat)))"

lemma bracket_skip_gt: "split < bracket_skip pat split"
  by (simp add: bracket_skip_def Let_def)

function find_split :: "string \<Rightarrow> bool \<Rightarrow> nat \<Rightarrow> nat" where
  "find_split pat escaped split =
     (if length pat \<le> split then split
      else let s = (if chr_at pat split = CHR ''['' then bracket_skip pat split else split) in
        if chr_at pat s = CHR '','' \<and> \<not> escaped then s
        else find_split pat (if chr_at pat s = BSL then \<not> escaped else False) (s + 1))"
  by pat_completeness auto
termination
  by (relation "measure (\<lambda>(pat, e, split). length pat - split)")
    (auto intro!: diff_less_mono2 less_SucI bracket_skip_gt)

declare find_split.simps [simp del]

lemma find_split_ge: "split \<le> find_split pat escaped split"
proof (induction pat escaped split rule: find_split.induct)
  case (1 pat escaped split)
  then show ?case
    using bracket_skip_gt [of split pat]
    by (subst find_split.simps) (auto simp: Let_def)
qed

lemma bracket_skip_le:
  assumes "split < length pat"
  shows "bracket_skip pat split \<le> length pat"
proof -
  have l: "length (takeWhile P (drop k pat)) \<le> length pat - k" for P k
    by (metis length_drop length_takeWhile_le)
  have b: "split + 2 \<le> length pat" if "chr_at pat (split + 1) = CHR '']''"
    using that by (auto simp: chr_at_def split: if_splits)
  show ?thesis
    using assms b l [of "\<lambda>c. c \<noteq> CHR '']''" "Suc split"] l [of "\<lambda>c. c \<noteq> CHR '']''" "Suc (Suc split)"]
    by (auto simp: bracket_skip_def Let_def)
qed

definition negates :: "bool \<Rightarrow> string \<Rightarrow> nat \<Rightarrow> bool \<times> bool" where
  \<comment> \<open>\<open>poison\<close> and \<open>reverse\<close> of the piece at \<open>p\<close>\<close>
  "negates allowpoison pat p =
     (let poison = allowpoison \<and> chr_at pat p = CHR ''@'' in
      (poison, chr_at pat p = CHR ''!'' \<or> poison))"

function expr_loop :: "string \<Rightarrow> string \<Rightarrow> bool \<Rightarrow> nat \<Rightarrow> bool \<Rightarrow> bool \<Rightarrow> wildres" where
  "expr_loop text pat ap p mat poisoned =
     (if p \<le> length pat then
        (let (poison, rv) = negates ap pat p;
             p' = (if rv then p + 1 else p);
             split = find_split pat False p' in
         if mat = (\<not> rv) \<and> poison = poisoned then expr_loop text pat ap (split + 1) mat poisoned
         else if match_pattern text pat p' split = MTrue
         then expr_loop text pat ap (split + 1) (\<not> rv) poison
         else expr_loop text pat ap (split + 1) mat poisoned)
      else if poisoned then UPoison
      else if mat then UMatch else UFail)"
  by pat_completeness auto
termination
  by (relation "measure (\<lambda>(text, pat, ap, p, m, po). Suc (length pat) - p)")
    (auto simp: Suc_diff_le less_Suc_eq_le
      intro!: diff_le_mono2 order.trans [OF _ find_split_ge])

declare expr_loop.simps [simp del]

definition match_expression :: "string \<Rightarrow> string \<Rightarrow> bool \<Rightarrow> wildres" where
  "match_expression text start allowpoison =
     (if start = [] then (if text = [] then UMatch else UFail)
      else expr_loop text start allowpoison 0 False False)"

definition uwildmat :: "string \<Rightarrow> string \<Rightarrow> bool" where
  "uwildmat text pat =
     (if pat = ''*'' then True else match_expression text pat False = UMatch)"

definition uwildmat_poison :: "string \<Rightarrow> string \<Rightarrow> wildres" where
  "uwildmat_poison text pat =
     (if pat = ''*'' then UMatch else match_expression text pat True)"

definition uwildmat_simple :: "string \<Rightarrow> string \<Rightarrow> bool" where
  "uwildmat_simple text pat =
     (if pat = ''*'' then True else match_pattern text pat 0 (length pat) = MTrue)"

section \<open>What a piece means\<close>

text \<open>
  The tokens of a piece, one per metacharacter or literal: \<open>TAny\<close> takes one UTF-8 character
  (one byte where the text is not well-formed UTF-8), \<open>TCls\<close> one character that the class
  holds, \<open>TStar\<close> any number of bytes. A piece that ends in a backslash or inside a class has
  no tokens.
\<close>

datatype tok = TLit char | TAny | TStar | TCls string

function tokens_of :: "string \<Rightarrow> nat \<Rightarrow> nat \<Rightarrow> tok list option" where
  "tokens_of pat p stop =
     (if stop \<le> p then Some []
      else let c = chr_at pat p in
      if c = BSL then
        (if chr_at pat (p + 1) = NUL then None
         else map_option ((#) (TLit (chr_at pat (p + 1)))) (tokens_of pat (p + 2) stop))
      else if c = CHR ''?'' then map_option ((#) TAny) (tokens_of pat (p + 1) stop)
      else if c = CHR ''*'' then map_option ((#) TStar) (tokens_of pat (p + 1) stop)
      else if c = CHR ''['' then
        (case class_end pat (class_start pat (p + 1)) stop of
           None \<Rightarrow> None
         | Some e \<Rightarrow> map_option ((#) (TCls (take (e - (p + 1)) (drop (p + 1) pat))))
                       (tokens_of pat (e + 1) stop))
      else map_option ((#) (TLit c)) (tokens_of pat (p + 1) stop))"
  by pat_completeness auto
termination
  by (relation "measure (\<lambda>(pat, p, stop). stop - p)")
    (auto simp: class_start_def class_decreases)

declare tokens_of.simps [simp del]

definition any_length :: "string \<Rightarrow> nat" where
  "any_length s = (if isutf8 (hd s) then utf8_length s None else 1)"

fun matches :: "tok list \<Rightarrow> string \<Rightarrow> bool" where
  "matches [] s \<longleftrightarrow> s = []"
| "matches (TLit c # ts) s \<longleftrightarrow> s \<noteq> [] \<and> hd s = c \<and> matches ts (tl s)"
| "matches (TAny # ts) s \<longleftrightarrow> s \<noteq> [] \<and> matches ts (drop (any_length s) s)"
| "matches (TStar # ts) s \<longleftrightarrow> (\<exists>k \<in> {0..length s}. matches ts (drop k s))"
| "matches (TCls cls # ts) s \<longleftrightarrow>
     s \<noteq> [] \<and> match_class (snd (utf8_decode s None)) cls
       \<and> matches ts (drop (fst (utf8_decode s None)) s)"

definition piece_matches :: "string \<Rightarrow> nat \<Rightarrow> nat \<Rightarrow> string \<Rightarrow> bool" where
  "piece_matches pat p stop s = (case tokens_of pat p stop of None \<Rightarrow> False | Some ts \<Rightarrow> matches ts s)"

lemma piece_end: "stop \<le> p \<Longrightarrow> piece_matches pat p stop s \<longleftrightarrow> s = []"
  by (simp add: piece_matches_def tokens_of.simps)

lemma piece_esc:
  "p < stop \<Longrightarrow> chr_at pat p = BSL \<Longrightarrow>
   piece_matches pat p stop s \<longleftrightarrow> chr_at pat (p + 1) \<noteq> NUL \<and> s \<noteq> [] \<and> hd s = chr_at pat (p + 1)
     \<and> piece_matches pat (p + 2) stop (tl s)"
  by (subst piece_matches_def, subst tokens_of.simps) (auto simp: piece_matches_def split: option.splits)

lemma piece_any:
  "p < stop \<Longrightarrow> chr_at pat p = CHR ''?'' \<Longrightarrow>
   piece_matches pat p stop s \<longleftrightarrow> s \<noteq> [] \<and> piece_matches pat (p + 1) stop (drop (any_length s) s)"
  by (subst piece_matches_def, subst tokens_of.simps) (auto simp: piece_matches_def split: option.splits)

lemma piece_star:
  "p < stop \<Longrightarrow> chr_at pat p = CHR ''*'' \<Longrightarrow>
   piece_matches pat p stop s \<longleftrightarrow> (\<exists>k \<le> length s. piece_matches pat (p + 1) stop (drop k s))"
  by (subst piece_matches_def, subst tokens_of.simps) (auto simp: piece_matches_def split: option.splits)

lemma piece_class:
  "p < stop \<Longrightarrow> chr_at pat p = CHR ''['' \<Longrightarrow>
   piece_matches pat p stop s \<longleftrightarrow>
     (\<exists>e. class_end pat (class_start pat (p + 1)) stop = Some e \<and> s \<noteq> []
        \<and> match_class (snd (utf8_decode s None)) (take (e - (p + 1)) (drop (p + 1) pat))
        \<and> piece_matches pat (e + 1) stop (drop (fst (utf8_decode s None)) s))"
  by (subst piece_matches_def, subst tokens_of.simps) (auto simp: piece_matches_def split: option.splits)

lemma piece_lit:
  "p < stop \<Longrightarrow> chr_at pat p \<notin> {BSL, CHR ''?'', CHR ''*'', CHR ''[''} \<Longrightarrow>
   piece_matches pat p stop s \<longleftrightarrow> s \<noteq> [] \<and> hd s = chr_at pat p \<and> piece_matches pat (p + 1) stop (tl s)"
  by (subst piece_matches_def, subst tokens_of.simps) (auto simp: piece_matches_def Let_def split: option.splits)

lemmas piece_cases = piece_end piece_esc piece_any piece_star piece_class piece_lit

text \<open>A run of stars means what one star means.\<close>

lemma ex_suffix_twice:
  "(\<exists>k \<le> length s. \<exists>j \<le> length s - k. P (drop (j + k) s)) \<longleftrightarrow> (\<exists>k \<le> length s. P (drop k s))"
proof
  assume "\<exists>k \<le> length s. \<exists>j \<le> length s - k. P (drop (j + k) s)"
  then obtain j k where "k \<le> length s" and "j \<le> length s - k" and "P (drop (j + k) s)" by blast
  then show "\<exists>k \<le> length s. P (drop k s)" by (intro exI [of _ "j + k"]) auto
next
  assume "\<exists>k \<le> length s. P (drop k s)"
  then show "\<exists>k \<le> length s. \<exists>j \<le> length s - k. P (drop (j + k) s)" by (metis add_0 zero_le)
qed

lemma star_run:
  assumes "q \<le> q'" and "q' \<le> stop" and "\<forall>i. q \<le> i \<and> i < q' \<longrightarrow> chr_at pat i = CHR ''*''"
  shows "(\<exists>k \<le> length s. piece_matches pat q stop (drop k s)) \<longleftrightarrow>
         (\<exists>k \<le> length s. piece_matches pat q' stop (drop k s))"
  using assms
proof (induction "q' - q" arbitrary: q)
  case 0
  then show ?case by simp
next
  case (Suc n)
  then have "q < stop" and "chr_at pat q = CHR ''*''" by auto
  then have "(\<exists>k \<le> length s. piece_matches pat q stop (drop k s)) \<longleftrightarrow>
      (\<exists>k \<le> length s. \<exists>j \<le> length s - k. piece_matches pat (q + 1) stop (drop (j + k) s))"
    by (simp add: piece_star)
  also have "\<dots> \<longleftrightarrow> (\<exists>k \<le> length s. piece_matches pat (q + 1) stop (drop k s))"
    by (rule ex_suffix_twice)
  also have "\<dots> \<longleftrightarrow> (\<exists>k \<le> length s. piece_matches pat q' stop (drop k s))"
    using Suc.hyps(2) Suc.prems by (intro Suc.hyps(1)) auto
  finally show ?case .
qed

lemma skip_stars_are: "p \<le> i \<Longrightarrow> i < skip_stars pat p \<Longrightarrow> chr_at pat i = CHR ''*''"
proof -
  assume "p \<le> i" and "i < skip_stars pat p"
  then have i: "i - p < length (takeWhile (\<lambda>c. c = CHR ''*'') (drop p pat))"
    by (simp add: skip_stars_def less_diff_conv2 add.commute)
  have "takeWhile (\<lambda>c. c = CHR ''*'') (drop p pat) ! (i - p) = CHR ''*''"
    using set_takeWhileD [OF nth_mem [OF i]] by simp
  with i have "drop p pat ! (i - p) = CHR ''*''" by (simp add: takeWhile_nth)
  moreover have "i - p < length (drop p pat)"
    using i order.strict_trans2 [OF _ length_takeWhile_le] by blast
  ultimately show ?thesis using \<open>p \<le> i\<close> by (auto simp: chr_at_def)
qed

lemma skip_stars_end: "chr_at pat (skip_stars pat p) \<noteq> CHR ''*''"
proof (cases "skip_stars pat p < length pat")
  case True
  let ?n = "length (takeWhile (\<lambda>c. c = CHR ''*'') (drop p pat))"
  from True have "?n < length (drop p pat)" by (simp add: skip_stars_def less_diff_conv add.commute)
  then have "drop p pat ! ?n \<noteq> CHR ''*''"
    using nth_length_takeWhile by blast
  with True show ?thesis by (simp add: skip_stars_def chr_at_def add.commute)
next
  case False
  then show ?thesis by (simp add: chr_at_def)
qed

lemma piece_stars:
  assumes "p < stop" and "chr_at pat p = CHR ''*''"
  shows "piece_matches pat p stop s \<longleftrightarrow>
     (stop \<le> skip_stars pat (p + 1)
      \<or> (\<exists>k \<le> length s. piece_matches pat (skip_stars pat (p + 1)) stop (drop k s)))"
proof (cases "stop \<le> skip_stars pat (p + 1)")
  case True
  then have "(\<exists>k \<le> length s. piece_matches pat (p + 1) stop (drop k s)) \<longleftrightarrow>
      (\<exists>k \<le> length s. piece_matches pat stop stop (drop k s))"
    using assms skip_stars_are by (intro star_run) auto
  then show ?thesis
    using assms True by (auto simp: piece_star piece_end)
next
  case False
  then have "(\<exists>k \<le> length s. piece_matches pat (p + 1) stop (drop k s)) \<longleftrightarrow>
      (\<exists>k \<le> length s. piece_matches pat (skip_stars pat (p + 1)) stop (drop k s))"
    using assms skip_stars_are skip_stars_ge by (intro star_run) auto
  then show ?thesis
    using assms False by (auto simp: piece_star)
qed

section \<open>The matcher against the meaning\<close>

lemma drop_tl: "drop k (tl s) = drop (Suc k) s"
  by (simp add: drop_Suc)

lemma ex_suffix_tl:
  "s \<noteq> [] \<Longrightarrow> \<exists>k \<le> length (tl s). P (drop k (tl s)) \<Longrightarrow> \<exists>k \<le> length s. P (drop k s)"
proof (elim exE conjE)
  fix k
  assume "s \<noteq> []" and "k \<le> length (tl s)" and "P (drop k (tl s))"
  then show ?thesis by (intro exI [of _ "Suc k"]) (cases s; simp add: drop_tl)
qed

lemma ex_suffix_drop:
  "n \<le> length s \<Longrightarrow> \<exists>k \<le> length (drop n s). P (drop k (drop n s)) \<Longrightarrow> \<exists>k \<le> length s. P (drop k s)"
proof (elim exE conjE)
  fix k
  assume "n \<le> length s" and "k \<le> length (drop n s)" and "P (drop k (drop n s))"
  then show ?thesis by (intro exI [of _ "k + n"]) auto
qed

lemma match_sound_both:
  "match_pattern s pat p stop = MTrue \<Longrightarrow> piece_matches pat p stop s"
  "star_loop s pat p stop = MTrue \<Longrightarrow> chr_at pat p \<noteq> CHR ''*'' \<Longrightarrow> p < stop \<Longrightarrow>
     \<exists>k \<le> length s. piece_matches pat p stop (drop k s)"
proof (induction s pat p stop and s pat p stop rule: match_pattern_star_loop.induct)
  case (1 s pat p stop)
  show ?case
  proof (cases "stop \<le> p")
    case True
    with "1.prems" show ?thesis by (simp add: piece_end match_pattern.simps split: if_splits)
  next
    case False
    have "chr_at pat p \<notin> {BSL, CHR ''?'', CHR ''*'', CHR ''[''} \<or> chr_at pat p \<in> {BSL, CHR ''?'', CHR ''*'', CHR ''[''}"
      by blast
    with False "1.prems" "1.IH" skip_stars_end [of pat "p + 1"] show ?thesis
      by (subst (asm) match_pattern.simps)
        (auto simp: Let_def piece_esc piece_any piece_stars piece_class piece_lit any_length_def
          split: if_splits option.splits prod.splits)
  qed
next
  case (2 s pat p stop)
  let ?t = "dropWhile (\<lambda>c. c \<noteq> chr_at pat p) s"
  show ?case
  proof (cases "s = []")
    case True
    with "2.prems" show ?thesis by (simp add: star_loop.simps)
  next
    case ne: False
    show ?thesis
    proof (cases "is_meta (chr_at pat p)")
      case True
      with "2.prems" ne
      have "match_pattern s pat p stop = MTrue \<or>
          match_pattern s pat p stop = MFalse \<and> star_loop (tl s) pat p stop = MTrue"
        by (subst (asm) star_loop.simps) (auto simp: Let_def split: if_splits)
      then show ?thesis
      proof (elim disjE conjE)
        assume "match_pattern s pat p stop = MTrue"
        with "2.IH"(1) ne True have "piece_matches pat p stop (drop 0 s)" by simp
        then show ?thesis by blast
      next
        assume "match_pattern s pat p stop = MFalse" and "star_loop (tl s) pat p stop = MTrue"
        with "2.IH"(2) ne True "2.prems" have "\<exists>k \<le> length (tl s). piece_matches pat p stop (drop k (tl s))"
          by simp
        with ne show ?thesis by (rule ex_suffix_tl)
      qed
    next
      case False
      obtain n where n: "?t = drop n s" "n \<le> length s"
        by (metis dropWhile_eq_drop length_takeWhile_le)
      have lit: "piece_matches pat p stop ?t \<longleftrightarrow> piece_matches pat (p + 1) stop (tl ?t)" if "?t \<noteq> []"
        using that False "2.prems" hd_dropWhile [OF that] by (subst piece_lit) (auto simp: is_meta_def)
      from False "2.prems" ne
      have "?t \<noteq> []" and "match_pattern (tl ?t) pat (p + 1) stop = MTrue \<or>
          match_pattern (tl ?t) pat (p + 1) stop = MFalse \<and> star_loop (tl ?t) pat p stop = MTrue"
        by (subst (asm) star_loop.simps; simp add: Let_def split: if_splits)+
      then show ?thesis
      proof (elim disjE conjE)
        assume "match_pattern (tl ?t) pat (p + 1) stop = MTrue"
        with "2.IH"(3) ne False \<open>?t \<noteq> []\<close> lit have "piece_matches pat p stop ?t" by simp
        with n show ?thesis by auto
      next
        assume m: "match_pattern (tl ?t) pat (p + 1) stop = MFalse"
          and "star_loop (tl ?t) pat p stop = MTrue"
        with "2.IH"(4) ne False \<open>?t \<noteq> []\<close> "2.prems"
        have "\<exists>k \<le> length (tl ?t). piece_matches pat p stop (drop k (tl ?t))" by simp
        with \<open>?t \<noteq> []\<close> have "\<exists>k \<le> length ?t. piece_matches pat p stop (drop k ?t)"
          by (rule ex_suffix_tl)
        with n show ?thesis by (metis ex_suffix_drop)
      qed
    qed
  qed
qed

text \<open>
  Completeness needs a text in which every character is one byte. An octet below 0xC0 is never
  the start of a multibyte character.
\<close>

definition single_octets :: "string \<Rightarrow> bool" where
  "single_octets s \<longleftrightarrow> (\<forall>c \<in> set s. \<not> isutf8 c)"

lemma lead_ones_single: "\<not> isutf8 c \<Longrightarrow> lead_ones c < 2"
proof (rule ccontr)
  assume "\<not> isutf8 c" and "\<not> lead_ones c < 2"
  then have b: "bit (code c) 7" "bit (code c) 6"
    by (auto simp: lead_ones_def split: if_splits)
  have m: "bit (192 :: nat) n \<longleftrightarrow> n = 6 \<or> n = 7" for n
  proof (cases "n < 8")
    case True
    then have "n \<in> {0, 1, 2, 3, 4, 5, 6, 7}" by auto
    then show ?thesis by (auto simp: bit_iff_odd)
  next
    case False
    then have "(2 :: nat) ^ 8 \<le> 2 ^ n" by (intro power_increasing) auto
    with False show ?thesis by (auto simp: bit_iff_odd)
  qed
  have "code c AND 192 = 192"
    by (rule bit_eqI) (use b m in \<open>auto simp: bit_and_iff\<close>)
  with \<open>\<not> isutf8 c\<close> show False by (simp add: isutf8_def)
qed

lemma utf8_length_single: "s \<noteq> [] \<Longrightarrow> \<not> isutf8 (hd s) \<Longrightarrow> utf8_length s bnd = 1"
  using lead_ones_single [of "hd s"] by (cases s) (simp_all add: utf8_length_def chr_at_def)

lemma utf8_decode_single:
  "s \<noteq> [] \<Longrightarrow> \<not> isutf8 (hd s) \<Longrightarrow> utf8_decode s bnd = (1, word_of_nat (code (hd s)))"
  by (cases s) (simp_all add: utf8_decode_def utf8_length_single chr_at_def)

lemma any_length_single: "\<not> isutf8 (hd s) \<Longrightarrow> any_length s = 1"
  by (simp add: any_length_def)

lemma single_octets_hd: "single_octets s \<Longrightarrow> s \<noteq> [] \<Longrightarrow> \<not> isutf8 (hd s)"
  by (simp add: single_octets_def)

lemma single_octets_drop: "single_octets s \<Longrightarrow> single_octets (drop k s)"
  by (auto simp: single_octets_def dest: in_set_dropD)

lemma single_octets_tl: "single_octets s \<Longrightarrow> single_octets (tl s)"
  using single_octets_drop [of s 1] by (simp add: drop_Suc)

lemma single_octets_dropWhile: "single_octets s \<Longrightarrow> single_octets (dropWhile P s)"
  by (auto simp: single_octets_def dest: set_dropWhileD)

text \<open>What an abort promises: no suffix of the text matches.\<close>

definition no_suffix :: "string \<Rightarrow> nat \<Rightarrow> nat \<Rightarrow> string \<Rightarrow> bool" where
  "no_suffix pat p stop s \<longleftrightarrow> (\<forall>k \<le> length s. \<not> piece_matches pat p stop (drop k s))"

lemma no_suffix_self: "no_suffix pat p stop s \<Longrightarrow> \<not> piece_matches pat p stop s"
  by (force simp: no_suffix_def)

lemma no_suffix_Nil [simp]: "no_suffix pat p stop [] \<longleftrightarrow> \<not> piece_matches pat p stop []"
  by (simp add: no_suffix_def)

lemma no_suffix_step:
  "s \<noteq> [] \<Longrightarrow> no_suffix pat p stop s \<longleftrightarrow>
     \<not> piece_matches pat p stop s \<and> no_suffix pat p stop (tl s)"
proof -
  assume "s \<noteq> []"
  then obtain c t where s: "s = c # t" by (cases s) auto
  have "(\<forall>k \<le> Suc n. Q k) \<longleftrightarrow> Q 0 \<and> (\<forall>k \<le> n. Q (Suc k))" for Q and n :: nat
    by (metis Suc_le_mono not0_implies_Suc zero_le)
  then show ?thesis
    unfolding s no_suffix_def by simp
qed

lemma no_suffix_tl:
  assumes "\<And>t. piece_matches pat p stop t \<Longrightarrow> single_octets t \<Longrightarrow> t \<noteq> [] \<and> piece_matches pat p' stop (tl t)"
    and "single_octets s" and "no_suffix pat p' stop (tl s)"
  shows "no_suffix pat p stop s"
  unfolding no_suffix_def
proof (intro allI impI notI)
  fix k
  assume "k \<le> length s" and "piece_matches pat p stop (drop k s)"
  then have "drop k s \<noteq> []" and "piece_matches pat p' stop (tl (drop k s))"
    using assms(1,2) single_octets_drop by blast+
  moreover have "tl (drop k s) = drop k (tl s)" by (simp add: drop_tl tl_drop)
  ultimately show False
    using assms(3) by (auto simp: no_suffix_def)
qed

lemma no_suffix_stars:
  assumes "p < stop" and "chr_at pat p = CHR ''*''" and "skip_stars pat (p + 1) < stop"
    and "no_suffix pat (skip_stars pat (p + 1)) stop s"
  shows "no_suffix pat p stop s"
  unfolding no_suffix_def
proof (intro allI impI notI)
  fix k
  assume "k \<le> length s" and "piece_matches pat p stop (drop k s)"
  then have "\<exists>j \<le> length (drop k s). piece_matches pat (skip_stars pat (p + 1)) stop (drop j (drop k s))"
    using assms(1-3) by (simp add: piece_stars)
  with \<open>k \<le> length s\<close> have "\<exists>j \<le> length s. piece_matches pat (skip_stars pat (p + 1)) stop (drop j s)"
    by (rule ex_suffix_drop)
  with assms(4) show False by (auto simp: no_suffix_def)
qed

lemma no_suffix_none: "(\<And>t. \<not> piece_matches pat p stop t) \<Longrightarrow> no_suffix pat p stop s"
  by (simp add: no_suffix_def)

lemma match_pattern_cases:
  assumes "p < stop"
  obtains (esc) "chr_at pat p = BSL" | (any) "chr_at pat p = CHR ''?''" | (star) "chr_at pat p = CHR ''*''"
    | (cls) "chr_at pat p = CHR ''[''" | (lit) "chr_at pat p \<notin> {BSL, CHR ''?'', CHR ''*'', CHR ''[''}"
  by blast

lemma piece_Nil: "p < stop \<Longrightarrow> chr_at pat p \<noteq> CHR ''*'' \<Longrightarrow> \<not> piece_matches pat p stop []"
  by (rule match_pattern_cases [of p stop pat]) (simp_all add: piece_esc piece_any piece_class piece_lit)

text \<open>Up to the first occurrence of the literal after a star, no suffix matches.\<close>

lemma no_suffix_skip:
  assumes "\<And>t. piece_matches pat p stop t \<Longrightarrow> t \<noteq> [] \<and> hd t = c"
    and "no_suffix pat p stop (dropWhile (\<lambda>x. x \<noteq> c) s)"
  shows "no_suffix pat p stop s"
  using assms(2)
proof (induction s)
  case Nil
  then show ?case by simp
next
  case (Cons x s)
  show ?case
  proof (cases "x = c")
    case True
    with Cons.prems show ?thesis by simp
  next
    case False
    with Cons assms(1) [of "x # s"] show ?thesis by (auto simp: no_suffix_step)
  qed
qed

lemma class_too_short: "stop \<le> q \<Longrightarrow> class_end pat q stop = None"
  by (simp add: class_end_def)

lemma match_complete_both:
  "single_octets s \<Longrightarrow>
     (match_pattern s pat p stop = MAbort \<longrightarrow> no_suffix pat p stop s) \<and>
     (match_pattern s pat p stop = MFalse \<longrightarrow> \<not> piece_matches pat p stop s)"
  "single_octets s \<Longrightarrow> chr_at pat p \<noteq> CHR ''*'' \<Longrightarrow> p < stop \<Longrightarrow>
     star_loop s pat p stop \<noteq> MFalse \<and> (star_loop s pat p stop = MAbort \<longrightarrow> no_suffix pat p stop s)"
proof (induction s pat p stop and s pat p stop rule: match_pattern_star_loop.induct)
  case (1 s pat p stop)
  note single = single_octets_hd [OF "1.prems"] single_octets_tl [OF "1.prems"] single_octets_drop [OF "1.prems"]
  show ?case
  proof (cases "stop \<le> p")
    case True
    then show ?thesis by (simp add: piece_end match_pattern.simps)
  next
    case False
    then have "p < stop" by simp
    then show ?thesis
    proof (cases rule: match_pattern_cases [of p stop pat])
      case esc
      have sub: "no_suffix pat p stop s" if "no_suffix pat (p + 2) stop (tl s)"
        by (rule no_suffix_tl [OF _ "1.prems" that]) (use esc \<open>p < stop\<close> in \<open>simp add: piece_esc\<close>)
      have bad: "no_suffix pat p stop s" if "chr_at pat (Suc p) = NUL"
        by (rule no_suffix_none) (use that esc \<open>p < stop\<close> in \<open>simp add: piece_esc\<close>)
      from esc \<open>p < stop\<close> single "1.IH"(1) show ?thesis
        by (cases "s = []"; subst (1 2) match_pattern.simps) (auto simp: Let_def piece_esc intro: sub bad)
    next
      case any
      have sub: "no_suffix pat p stop s" if "no_suffix pat (p + 1) stop (tl s)"
        by (rule no_suffix_tl [OF _ "1.prems" that])
          (use any \<open>p < stop\<close> single_octets_hd in \<open>auto simp: piece_any any_length_single drop_Suc\<close>)
      from any \<open>p < stop\<close> single "1.IH"(2) show ?thesis
        by (cases "s = []"; subst (1 2) match_pattern.simps)
          (auto simp: Let_def piece_any any_length_single drop_Suc intro: sub)
    next
      case star
      let ?p' = "skip_stars pat (p + 1)"
      have m: "match_pattern s pat p stop = (if stop \<le> ?p' then MTrue else star_loop s pat ?p' stop)"
        using star \<open>p < stop\<close> by (simp add: match_pattern.simps Let_def)
      show ?thesis
      proof (cases "stop \<le> ?p'")
        case True
        with m show ?thesis by simp
      next
        case False
        then have "star_loop s pat ?p' stop \<noteq> MFalse \<and>
            (star_loop s pat ?p' stop = MAbort \<longrightarrow> no_suffix pat ?p' stop s)"
          using star \<open>p < stop\<close> "1.prems" "1.IH"(3) [OF _ refl] skip_stars_end by simp
        with False m star \<open>p < stop\<close> show ?thesis by (simp add: no_suffix_stars)
      qed
    next
      case cls
      let ?e = "class_end pat (class_start pat (p + 1)) stop"
      have none: "no_suffix pat p stop s" if "?e = None"
        by (rule no_suffix_none) (use that cls \<open>p < stop\<close> in \<open>simp add: piece_class\<close>)
      have sub: "no_suffix pat p stop s" if "?e = Some e" and "no_suffix pat (e + 1) stop (tl s)" for e
        by (rule no_suffix_tl [OF _ "1.prems" that(2)])
          (use that(1) cls \<open>p < stop\<close> single_octets_hd in \<open>auto simp: piece_class utf8_decode_single drop_Suc\<close>)
      show ?thesis
      proof (cases ?e)
        case None
        with none have "no_suffix pat p stop s" by simp
        moreover have "match_pattern s pat p stop = MAbort"
          using None cls \<open>p < stop\<close> by (simp add: match_pattern.simps Let_def)
        ultimately show ?thesis by simp
      next
        case (Some e)
        then have "\<not> stop \<le> class_start pat (p + 1)" using class_too_short by fastforce
        with Some cls \<open>p < stop\<close> single "1.IH"(4) show ?thesis
          by (cases "s = []"; subst (1 2) match_pattern.simps)
            (auto simp: Let_def piece_class utf8_decode_single drop_Suc intro: sub)
      qed
    next
      case lit
      show ?thesis
      proof (cases "s = []")
        case True
        with lit \<open>p < stop\<close> show ?thesis by (simp add: match_pattern.simps piece_lit)
      next
        case ne: False
        have sub: "no_suffix pat p stop s" if "no_suffix pat (p + 1) stop (tl s)"
          by (rule no_suffix_tl [OF _ "1.prems" that]) (use lit \<open>p < stop\<close> in \<open>simp add: piece_lit\<close>)
        from lit \<open>p < stop\<close> ne single "1.IH"(5) show ?thesis
          by (subst (1 2) match_pattern.simps) (auto simp: Let_def piece_lit intro: sub)
      qed
    qed
  qed
next
  case (2 s pat p stop)
  let ?t = "dropWhile (\<lambda>c. c \<noteq> chr_at pat p) s"
  show ?case
  proof (cases "s = []")
    case True
    with "2.prems" show ?thesis
      by (simp add: star_loop.simps piece_Nil)
  next
    case ne: False
    note single = single_octets_tl [OF "2.prems"(1)] single_octets_dropWhile [OF "2.prems"(1)]
    show ?thesis
    proof (cases "is_meta (chr_at pat p)")
      case True
      with "2.prems" "2.IH"(1,2) ne single show ?thesis
        by (subst (1 2) star_loop.simps) (auto simp: Let_def no_suffix_step)
    next
      case False
      with "2.prems" have lit: "chr_at pat p \<notin> {BSL, CHR ''?'', CHR ''*'', CHR ''[''}"
        by (simp add: is_meta_def)
      then have skip: "no_suffix pat p stop s" if "no_suffix pat p stop ?t"
        using that \<open>p < stop\<close> by - (rule no_suffix_skip [where c = "chr_at pat p"]; simp add: piece_lit)
      show ?thesis
      proof (cases "?t = []")
        case True
        have "no_suffix pat p stop ?t" unfolding True using piece_Nil [OF "2.prems"(3,2)] by simp
        with True False ne skip show ?thesis by (simp add: star_loop.simps Let_def)
      next
        case t: False
        have sub: "no_suffix pat p stop ?t" if "no_suffix pat (p + 1) stop (tl ?t)"
          by (rule no_suffix_tl [OF _ single(2) that]) (use lit \<open>p < stop\<close> in \<open>simp add: piece_lit\<close>)
        have step: "no_suffix pat p stop ?t \<longleftrightarrow> \<not> piece_matches pat p stop ?t \<and> no_suffix pat p stop (tl ?t)"
          by (rule no_suffix_step [OF t])
        have hd: "piece_matches pat p stop ?t \<longleftrightarrow> piece_matches pat (p + 1) stop (tl ?t)"
          using t lit \<open>p < stop\<close> hd_dropWhile [OF t] by (simp add: piece_lit)
        let ?m = "match_pattern (tl ?t) pat (p + 1) stop"
        have ih: "(?m = MAbort \<longrightarrow> no_suffix pat (p + 1) stop (tl ?t)) \<and>
            (?m = MFalse \<longrightarrow> \<not> piece_matches pat (p + 1) stop (tl ?t))"
          using "2.IH"(3) [OF ne False refl t] single_octets_tl [OF single(2)] by simp
        have ih': "?m = MFalse \<Longrightarrow> star_loop (tl ?t) pat p stop \<noteq> MFalse \<and>
            (star_loop (tl ?t) pat p stop = MAbort \<longrightarrow> no_suffix pat p stop (tl ?t))"
          using "2.IH"(4) [OF ne False refl t refl] single_octets_tl [OF single(2)] "2.prems"(2,3) by simp
        have unf: "star_loop s pat p stop = (if ?m \<noteq> MFalse then ?m else star_loop (tl ?t) pat p stop)"
          by (subst star_loop.simps) (simp only: ne False t Let_def if_False simp_thms)
        show ?thesis
        proof (cases ?m)
          case MTrue
          with unf show ?thesis by simp
        next
          case MAbort
          from MAbort ih have "no_suffix pat (p + 1) stop (tl ?t)" by blast
          then have "no_suffix pat p stop s" by (intro skip sub)
          moreover from MAbort unf have "star_loop s pat p stop = MAbort" by (simp only: if_True mres.distinct simp_thms)
          ultimately show ?thesis by simp
        next
          case MFalse
          with ih hd have no: "\<not> piece_matches pat p stop ?t" by blast
          from MFalse unf have "star_loop s pat p stop = star_loop (tl ?t) pat p stop" by simp
          moreover have "no_suffix pat p stop s" if "star_loop (tl ?t) pat p stop = MAbort"
            by (rule skip) (use that ih' [OF MFalse] step no in blast)
          ultimately show ?thesis using ih' [OF MFalse] by presburger
        qed
      qed
    qed
  qed
qed

section \<open>Expressions against their pieces\<close>

text \<open>
  The pieces of an expression in order, each with its signs and its bounds, and the verdict of
  a list of pieces: the last one that matches decides.
\<close>

function pieces :: "string \<Rightarrow> bool \<Rightarrow> nat \<Rightarrow> (bool \<times> bool \<times> nat \<times> nat) list" where
  "pieces pat ap p =
     (if length pat < p then []
      else let (poison, rv) = negates ap pat p;
               p' = (if rv then p + 1 else p);
               split = find_split pat False p'
           in (poison, rv, p', split) # pieces pat ap (split + 1))"
  by pat_completeness auto
termination
  by (relation "measure (\<lambda>(pat, ap, p). Suc (length pat) - p)")
    (auto simp: Suc_diff_le less_Suc_eq_le
      intro!: diff_le_mono2 order.trans [OF _ find_split_ge])

declare pieces.simps [simp del]

fun last_verdict :: "(bool \<times> bool \<times> nat \<times> nat) list \<Rightarrow> (nat \<Rightarrow> nat \<Rightarrow> bool) \<Rightarrow> wildres \<Rightarrow> wildres" where
  "last_verdict [] hit v = v"
| "last_verdict ((poison, rv, p, stop) # ps) hit v =
     last_verdict ps hit
       (if hit p stop then (if poison then UPoison else if rv then UFail else UMatch) else v)"

definition verdict :: "bool \<Rightarrow> bool \<Rightarrow> wildres" where
  "verdict mat poisoned = (if poisoned then UPoison else if mat then UMatch else UFail)"

lemma negates_poison: "negates ap pat p = (po, rv) \<Longrightarrow> po \<Longrightarrow> rv"
  by (auto simp: negates_def Let_def)

lemma expr_loop_pieces:
  "poisoned \<longrightarrow> \<not> mat \<Longrightarrow>
   expr_loop s pat ap p mat poisoned =
     last_verdict (pieces pat ap p) (\<lambda>p stop. match_pattern s pat p stop = MTrue)
       (verdict mat poisoned)"
proof (induction s pat ap p mat poisoned rule: expr_loop.induct)
  case (1 s pat ap p mat poisoned)
  show ?case
  proof (cases "p \<le> length pat")
    case False
    then show ?thesis
      by (subst expr_loop.simps, subst pieces.simps) (simp add: verdict_def)
  next
    case True
    obtain po rv where n: "negates ap pat p = (po, rv)" by (cases "negates ap pat p") auto
    let ?p = "if rv then p + 1 else p"
    let ?q = "find_split pat False ?p"
    have sub: "pieces pat ap p = (po, rv, ?p, ?q) # pieces pat ap (?q + 1)"
      using True n by (subst pieces.simps) (simp add: Let_def)
    have unf: "expr_loop s pat ap p mat poisoned =
        (if mat = (\<not> rv) \<and> po = poisoned then expr_loop s pat ap (?q + 1) mat poisoned
         else if match_pattern s pat ?p ?q = MTrue then expr_loop s pat ap (?q + 1) (\<not> rv) po
         else expr_loop s pat ap (?q + 1) mat poisoned)"
      using True n by (subst expr_loop.simps) (simp add: Let_def)
    have v: "(if po then UPoison else if rv then UFail else UMatch) = verdict (\<not> rv) po"
      by (simp add: verdict_def)
    note ih = "1.IH" [OF True n [symmetric] refl refl refl]
    have p: "po \<longrightarrow> \<not> \<not> rv" using negates_poison [OF n] by blast
    show ?thesis
      using ih(1) ih(2) [OF _ _ p] ih(3) "1.prems" unfolding unf sub last_verdict.simps v by auto
  qed
qed

lemma last_verdict_cong:
  "(\<And>po rv p q. (po, rv, p, q) \<in> set ps \<Longrightarrow> h p q = h' p q) \<Longrightarrow>
   last_verdict ps h v = last_verdict ps h' v"
proof (induction ps arbitrary: v)
  case Nil
  then show ?case by simp
next
  case (Cons x ps)
  obtain po rv p q where x: "x = (po, rv, p, q)" by (cases x)
  have "h p q = h' p q" by (rule Cons.prems [of po rv]) (simp add: x)
  moreover have "last_verdict ps h w = last_verdict ps h' w" for w
    using Cons.prems by (intro Cons.IH) (metis list.set_intros(2))
  ultimately show ?case
    by (simp add: x)
qed

section \<open>Properties\<close>

text \<open>C13: on a text in which no octet starts a UTF-8 sequence, the matcher with its abort
  shortcut and its scan for the literal after a star decides exactly what the tokens of the piece
  mean, for every piece of every expression.\<close>

theorem match_pattern_correct:
  "single_octets s \<Longrightarrow> match_pattern s pat p stop = MTrue \<longleftrightarrow> piece_matches pat p stop s"
  using match_sound_both(1) match_complete_both(1) [of s pat p stop] no_suffix_self
  by (cases "match_pattern s pat p stop") auto

theorem match_pattern_correct_witness:
  "match_pattern ''alt.binaries.dvd'' ''alt.*.d[uv]?'' 0 12 = MTrue"
proof -
  have "single_octets ''alt.binaries.dvd''"
    by (simp add: single_octets_def isutf8_def code_def)
  moreover have "piece_matches ''alt.*.d[uv]?'' 0 12 ''alt.binaries.dvd''"
    by code_simp
  ultimately show ?thesis using match_pattern_correct by blast
qed

text \<open>On any text, UTF-8 or not, a piece that the matcher accepts has the declarative
  meaning of its tokens.\<close>

theorem match_pattern_sound:
  "match_pattern s pat p stop = MTrue \<Longrightarrow> piece_matches pat p stop s"
  by (rule match_sound_both)

theorem match_pattern_sound_witness:
  "piece_matches ''r?sum'' 0 5 [CHR ''r'', CHR 0xC3, CHR 0xA9, CHR ''s'', CHR ''u'', CHR ''m'']"
proof -
  have "match_pattern [CHR ''r'', CHR 0xC3, CHR 0xA9, CHR ''s'', CHR ''u'', CHR ''m''] ''r?sum'' 0 5 = MTrue"
    by code_simp
  then show ?thesis by (rule match_pattern_sound)
qed

text \<open>C32: an expression is decided by its last matching piece, and the pieces it skips because
  they cannot change the answer change nothing.\<close>

theorem match_expression_last_piece:
  "pat \<noteq> [] \<Longrightarrow>
   match_expression s pat ap =
     last_verdict (pieces pat ap 0) (\<lambda>p stop. match_pattern s pat p stop = MTrue) UFail"
  using expr_loop_pieces [of False False s pat ap 0] by (simp add: match_expression_def verdict_def)

theorem match_expression_last_piece_witness:
  "match_expression ''alt.binaries.x'' ''alt.*,!alt.binaries.*'' False = UFail"
proof -
  have "last_verdict (pieces ''alt.*,!alt.binaries.*'' False 0)
      (\<lambda>p stop. match_pattern ''alt.binaries.x'' ''alt.*,!alt.binaries.*'' p stop = MTrue) UFail = UFail"
    by code_simp
  then show ?thesis using match_expression_last_piece [of "''alt.*,!alt.binaries.*''"] by simp
qed

text \<open>An opening bracket quoted with a backslash swallows the end of the string in the
  search for the comma, so the one-piece pattern that names it never matches the text that it
  names, while the same pattern matches through \<open>uwildmat_simple\<close>.\<close>

theorem quoted_bracket_never_matches:
  "\<not> uwildmat ''[a'' [BSL, CHR ''['', CHR ''a''] \<and> uwildmat_simple ''[a'' [BSL, CHR ''['', CHR ''a'']"
  by code_simp

end
