(* ===== verification/Common.thy ===== *)
theory Common
  imports Prelude
begin

text \<open>
  \<open>common.c\<close>: the string helpers every component uses. A loop that walks down from the end
  of a buffer carries the number of bytes at or before its pointer, so that 0 stands for the
  pointer before the first byte, where the code reads out of bounds.
\<close>

section \<open>Case and line ends\<close>

definition strtolower :: "string \<Rightarrow> string" where
  "strtolower s = map tolower_c s"

fun strip_loop :: "(char \<Rightarrow> bool) \<Rightarrow> string \<Rightarrow> nat \<Rightarrow> string outcome" where
  "strip_loop P buf 0 = Undef"
| "strip_loop P buf (Suc i) = (if P (buf ! i) then strip_loop P (take i buf) i else Ok buf)"

definition striprn :: "string \<Rightarrow> string outcome" where
  "striprn s = strip_loop (\<lambda>c. c = CR \<or> c = LF) s (length s)"

definition chop :: "string \<Rightarrow> string outcome" where
  "chop buf = strip_loop (\<lambda>c. c = CR \<or> c = LF \<or> c = SP) buf (length buf)"

fun replace_loop :: "char \<Rightarrow> string \<Rightarrow> nat \<Rightarrow> string" where
  "replace_loop r buf 0 = buf"
| "replace_loop r buf (Suc i) =
     replace_loop r (if eol (buf ! Suc i) then buf[Suc i := r] else buf) i"

definition replacern :: "string \<Rightarrow> char \<Rightarrow> string outcome" where
  "replacern s r = (if s = [] then Undef else Ok (replace_loop r s (length s - 1)))"

section \<open>User name patterns\<close>

text \<open>
  \<open>strip_tail\<close> is the loop of the first branch, with the lengths \<open>j + 1\<close> and \<open>l + 1\<close>
  of what is left of the pattern and of the buffer.
\<close>

fun strip_tail :: "string \<Rightarrow> nat \<Rightarrow> string \<Rightarrow> nat \<Rightarrow> string" where
  "strip_tail pat (Suc j) s (Suc (Suc l)) =
     (if pat ! j \<noteq> CHR ''*'' then strip_tail pat j (take (Suc l) s) (Suc l) else s)"
| "strip_tail pat j s l = s"

lemma strip_tail_code [code]:
  "strip_tail pat j s l =
     (if 0 < j \<and> 1 < l \<and> pat ! (j - 1) \<noteq> CHR ''*'' then strip_tail pat (j - 1) (take (l - 1) s) (l - 1) else s)"
  by (cases j; cases l rule: nat.exhaust; cases "l - 1") auto

definition strippat :: "string \<Rightarrow> string \<Rightarrow> string option outcome" where
  "strippat buf pat =
     (if pat = [] then Undef
      else if pat ! 0 = CHR ''*'' then Ok (Some (strip_tail pat (length pat) buf (length buf)))
      else if last pat = CHR ''*'' then
        (let k = length (takeWhile (\<lambda>c. c \<noteq> CHR ''*'') pat) in
         if length buf < k then Undef else Ok (Some (drop k buf)))
      else Ok None)"

section \<open>The end of an article\<close>

definition article_end :: string where
  "article_end = [CR, LF, CHR ''.'', CR, LF]"

definition checkbuf_init :: string where
  "checkbuf_init = [NUL, NUL, NUL, CR, LF]"

text \<open>The answer and the check buffer afterwards.\<close>

definition checkbuf_isend :: "string \<Rightarrow> string \<Rightarrow> bool \<times> string" where
  "checkbuf_isend buf rcv =
     (let bread = length rcv in
      if bread < 5 then
        (let chkbuf = take (5 - bread) (drop bread buf) @ rcv in (chkbuf = article_end, buf))
      else if drop (bread - 5) rcv = article_end then (True, buf)
      else (False, drop (bread - 5) rcv))"

text \<open>The reads of one article, up to the one that ends it: the number of reads it took.\<close>

fun read_article :: "string \<Rightarrow> string list \<Rightarrow> nat option" where
  "read_article buf [] = None"
| "read_article buf (r # rs) =
     (case checkbuf_isend buf r of
        (True, b) \<Rightarrow> Some 1
      | (False, b) \<Rightarrow> map_option Suc (read_article b rs))"

section \<open>Escapes and address checks\<close>

definition MAX_STRING :: nat where
  "MAX_STRING = 256"

fun escape_chars :: "string \<Rightarrow> string" where
  "escape_chars [] = []"
| "escape_chars (c # cs) =
     (if c = QUOTE then [BSL] else []) @ (if c = BSL then [BSL] else []) @ c # escape_chars cs"

definition str_escape :: "string \<Rightarrow> string outcome" where
  "str_escape s = (let b = escape_chars s in if MAX_STRING < length b + 1 then Undef else Ok b)"

definition check_email :: "string \<Rightarrow> bool" where
  "check_email addr \<longleftrightarrow> CHR ''.'' \<in> set addr \<and> CHR ''@'' \<in> set addr"

definition check_message_id :: "string \<Rightarrow> bool" where
  "check_message_id addr \<longleftrightarrow>
     (if chr_at addr 0 \<noteq> CHR ''<'' then False
      else if last addr \<noteq> CHR ''>'' then False
      else CHR ''@'' \<in> set addr)"

section \<open>Lemmas\<close>

lemma strip_loop_dropWhile:
  "n = length buf \<Longrightarrow>
   strip_loop P buf n =
     (if \<forall>c \<in> set buf. P c then Undef else Ok (rev (dropWhile P (rev buf))))"
proof (induction n arbitrary: buf)
  case 0
  then show ?case by simp
next
  case (Suc n)
  then obtain b c where b: "buf = b @ [c]" by (metis length_Suc_conv_rev)
  with Suc.prems have "length b = n" by simp
  with Suc.IH [of b] b show ?case by (auto simp: nth_append)
qed

lemma replace_loop_map:
  "i < length buf \<Longrightarrow>
   replace_loop r buf i = hd buf # map (\<lambda>c. if eol c then r else c) (take i (tl buf)) @ drop (Suc i) buf"
proof (induction i arbitrary: buf)
  case 0
  then show ?case by (cases buf) auto
next
  case (Suc i)
  let ?b = "if eol (buf ! Suc i) then buf[Suc i := r] else buf"
  from Suc.prems obtain c cs where buf: "buf = c # cs" by (cases buf) auto
  have "replace_loop r ?b i =
      hd ?b # map (\<lambda>c. if eol c then r else c) (take i (tl ?b)) @ drop (Suc i) ?b"
    using Suc.prems by (intro Suc.IH) auto
  then show ?case
    using Suc.prems buf
    by (auto simp: take_Suc_conv_app_nth Cons_nth_drop_Suc [symmetric] drop_update_swap
        simp flip: Cons_nth_drop_Suc)
qed

lemma strip_tail_drop:
  "CHR ''*'' \<notin> set suf \<Longrightarrow> u \<noteq> [] \<Longrightarrow> j = Suc (length suf) \<Longrightarrow> l = length u + length suf \<Longrightarrow>
   strip_tail (CHR ''*'' # suf @ rest) j (u @ suf) l = u"
proof (induction "length suf" arbitrary: suf rest j l)
  case 0
  then show ?case by (cases l rule: nat.exhaust; cases "l - 1") auto
next
  case (Suc n)
  then obtain t c where t: "suf = t @ [c]" by (metis length_Suc_conv_rev)
  with Suc.prems Suc.hyps(2) have n: "n = length t" and c: "c \<noteq> CHR ''*''" and t': "CHR ''*'' \<notin> set t"
    by auto
  obtain k where k: "length u = Suc k" using Suc.prems(2) by (cases u) auto
  have "strip_tail (CHR ''*'' # t @ c # rest) (Suc (length t)) (u @ t) (Suc (k + length t)) = u"
    using Suc.hyps(1) [OF n t' Suc.prems(2) refl refl, of "c # rest"] k by simp
  then show ?case
    using Suc.prems c k by (simp add: t nth_append)
qed

definition ends_article :: "string \<Rightarrow> bool" where
  \<comment> \<open>a line with a single dot ends what was read, the first line included\<close>
  "ends_article s \<longleftrightarrow> (let t = CRLF @ s in 5 \<le> length t \<and> drop (length t - 5) t = article_end)"

definition last5 :: "string \<Rightarrow> string" where
  "last5 s = drop (length s - 5) s"

lemma last5_append_long: "5 \<le> length r \<Longrightarrow> last5 (s @ r) = drop (length r - 5) r"
  by (simp add: last5_def)

lemma last5_append_short:
  "length r < 5 \<Longrightarrow> 5 \<le> length s \<Longrightarrow> last5 (s @ r) = take (5 - length r) (drop (length r) (last5 s)) @ r"
  by (simp add: last5_def add.commute)

lemma last5_length: "5 \<le> length s \<Longrightarrow> length (last5 s) = 5"
  by (simp add: last5_def)

lemma isend_last5:
  assumes "5 \<le> length s" and "buf = last5 s"
  shows "fst (checkbuf_isend buf r) \<longleftrightarrow> last5 (s @ r) = article_end"
    and "5 \<le> length r \<Longrightarrow> \<not> fst (checkbuf_isend buf r) \<Longrightarrow> snd (checkbuf_isend buf r) = last5 (s @ r)"
  using assms by (auto simp: checkbuf_isend_def Let_def last5_append_short last5_append_long)

lemma last5_init: "last5 (checkbuf_init @ s) = article_end \<longleftrightarrow> ends_article s"
proof -
  have "checkbuf_init @ s = [NUL, NUL, NUL] @ (CRLF @ s)" by (simp add: checkbuf_init_def)
  then have l: "last5 (checkbuf_init @ s) = drop (length s) ([NUL, NUL, NUL] @ (CRLF @ s))"
    by (simp add: last5_def checkbuf_init_def)
  show ?thesis
  proof (cases "length s < 3")
    case True
    then have "drop (length s) ([NUL, NUL, NUL] @ (CRLF @ s)) \<noteq> article_end"
      by (cases "length s"; cases "length s - 1"; cases "length s - 2"; simp add: article_end_def)
    with True l show ?thesis by (simp add: ends_article_def)
  next
    case False
    then have "length s - 3 + 3 = length s" by simp
    then have "drop (length s) t = drop (length s - 3) (drop 3 t)" for t :: string
      by (simp only: drop_drop)
    moreover have "drop 3 ([NUL, NUL, NUL] @ t) = t" for t by simp
    ultimately have "drop (length s) ([NUL, NUL, NUL] @ (CRLF @ s)) = drop (length s - 3) (CRLF @ s)"
      by metis
    with False l show ?thesis by (simp add: ends_article_def Let_def)
  qed
qed

lemma read_article_from:
  "5 \<le> length s \<Longrightarrow> buf = last5 s \<Longrightarrow> \<forall>r \<in> set (butlast rs). 5 \<le> length r \<Longrightarrow>
   read_article buf rs =
     map_option Suc (find_index (\<lambda>n. last5 (s @ concat (take (Suc n) rs)) = article_end) [0..<length rs])"
proof (induction rs arbitrary: s buf)
  case Nil
  then show ?case by simp
next
  case (Cons r rs)
  note e = isend_last5 [OF Cons.prems(1,2), of r]
  have up: "[0..<Suc (length rs)] = 0 # map Suc [0..<length rs]"
    using upt_conv_Cons [of 0 "Suc (length rs)"] by (simp add: map_Suc_upt del: upt_Suc)
  show ?case
  proof (cases "last5 (s @ r) = article_end")
    case True
    with e(1) obtain b where "checkbuf_isend buf r = (True, b)"
      by (cases "checkbuf_isend buf r") auto
    with True show ?thesis by (simp add: up del: upt_Suc)
  next
    case False
    with e(1) obtain b where b: "checkbuf_isend buf r = (False, b)"
      by (cases "checkbuf_isend buf r") auto
    show ?thesis
    proof (cases rs)
      case Nil
      with b False show ?thesis by simp
    next
      case c: (Cons r' rs')
      with Cons.prems(3) have r: "5 \<le> length r" and rest: "\<forall>r \<in> set (butlast rs). 5 \<le> length r"
        by simp_all
      with e(2) b have "b = last5 (s @ r)" by simp
      then have "read_article b rs = map_option Suc
          (find_index (\<lambda>n. last5 ((s @ r) @ concat (take (Suc n) rs)) = article_end) [0..<length rs])"
        using Cons.prems(1) rest by (intro Cons.IH) auto
      with b False show ?thesis
        by (simp add: up find_index_map comp_def option.map_comp del: upt_Suc)
    qed
  qed
qed

fun unescape :: "string \<Rightarrow> string" where
  "unescape [] = []"
| "unescape (c # cs) =
     (if c = BSL then (case cs of [] \<Rightarrow> [] | d # ds \<Rightarrow> d # unescape ds) else c # unescape cs)"

text \<open>Scanning an SQL literal: the text up to the first quote that no backslash protects.\<close>

fun sql_literal :: "string \<Rightarrow> string" where
  "sql_literal [] = []"
| "sql_literal (c # cs) =
     (if c = QUOTE then []
      else if c = BSL then (case cs of [] \<Rightarrow> [] | d # ds \<Rightarrow> d # sql_literal ds)
      else c # sql_literal cs)"

lemma unescape_escape: "unescape (escape_chars s) = s"
  by (induction s) auto

lemma sql_literal_escape: "sql_literal (escape_chars s @ QUOTE # rest) = s"
  by (induction s) auto

lemma escape_length: "length (escape_chars s) \<le> 2 * length s"
  by (induction s) auto

section \<open>Properties\<close>

text \<open>C17: as long as every read but the last brings five bytes or more, the check buffer finds
  the end of the article at the first read after which the bytes read end in a line with a single
  dot, wherever the reads cut the stream, a first line that is the dot included.\<close>

theorem read_article_correct:
  assumes "\<forall>r \<in> set (butlast rs). 5 \<le> length r"
  shows "read_article checkbuf_init rs =
     map_option Suc (find_index (\<lambda>n. ends_article (concat (take (Suc n) rs))) [0..<length rs])"
  using read_article_from [of checkbuf_init checkbuf_init rs] assms
  by (simp add: last5_init) (simp add: last5_def checkbuf_init_def)

theorem read_article_correct_witness:
  "read_article checkbuf_init [''body'' @ CRLF @ ''.'', CRLF] = Some 2"
proof -
  have "\<forall>r \<in> set (butlast [''body'' @ CRLF @ ''.'', CRLF]). 5 \<le> length r" by simp
  from read_article_correct [OF this] show ?thesis
    by (simp add: ends_article_def article_end_def upt_rec)
qed

text \<open>A read of fewer than five bytes is checked but not kept, so a terminator that arrives
  in three reads is never seen, though the bytes read end the article.\<close>

theorem short_reads_miss_the_end:
  "read_article checkbuf_init [''abc'' @ CRLF, ''.'', CRLF] = None
   \<and> ends_article (concat [''abc'' @ CRLF, ''.'', CRLF])"
  by code_simp

text \<open>C33: the escaped form of a string, put between quotes in an SQL statement, is read back as
  that string and ends at the closing quote, whatever quotes and backslashes it holds.\<close>

theorem str_escape_roundtrip:
  "str_escape s = Ok e \<Longrightarrow> sql_literal (e @ QUOTE # rest) = s \<and> length e < MAX_STRING"
  by (auto simp: str_escape_def Let_def sql_literal_escape split: if_splits)

theorem str_escape_roundtrip_witness:
  "str_escape ''a'' = Ok ''a'' \<and> sql_literal (''a'' @ QUOTE # '' OR 1'') = ''a''"
proof -
  have e: "str_escape ''a'' = Ok ''a''" by code_simp
  from str_escape_roundtrip [OF e] e show ?thesis by simp
qed

text \<open>A user name with the part a pattern with a leading star adds is stripped back to the
  name, as the auth lines with \<open>strip\<close> need it.\<close>

theorem strippat_suffix:
  "CHR ''*'' \<notin> set suf \<Longrightarrow> u \<noteq> [] \<Longrightarrow> strippat (u @ suf) (CHR ''*'' # suf) = Ok (Some u)"
  using strip_tail_drop [of suf u "Suc (length suf)" "length (u @ suf)" "[]"]
  by (simp add: strippat_def)

theorem strippat_suffix_witness:
  "strippat ''tommy@news'' ''*@news'' = Ok (Some ''tommy'')"
  using strippat_suffix [of "''@news''" "''tommy''"] by simp

text \<open>\<open>chop\<close> removes exactly the trailing line ends and spaces; on a line of nothing else
  it reads before its buffer.\<close>

theorem chop_correct:
  "chop s = (let t = rev (dropWhile (\<lambda>c. c = CR \<or> c = LF \<or> c = SP) (rev s)) in
             if t = [] then Undef else Ok t)"
  by (auto simp: chop_def strip_loop_dropWhile Let_def)

end
