(* ===== verification/Hlist.thy ===== *)
theory Hlist
  imports Prelude
begin

text \<open>
  \<open>hlist.c\<close>: the linked list of the headers of an article, on a heap of nodes. An address
  that holds no node is unallocated or freed. The loops follow \<open>next\<close> pointers, so they are
  partial functions: \<open>None\<close> is a walk round a cycle. \<open>hlist\<close> relates a heap and a first
  pointer to the list of headers they hold.
\<close>

record hnode =
  n_hdr :: string
  n_val :: string
  n_next :: "nat option"

type_synonym hheap = "nat \<Rightarrow> hnode option"

section \<open>Operations\<close>

partial_function (option) hlist_end ::
  "hheap \<Rightarrow> nat option \<Rightarrow> nat option \<Rightarrow> nat option outcome option" where
  "hlist_end h i lst =
     (case i of None \<Rightarrow> Some (Ok lst)
      | Some a \<Rightarrow> (case h a of None \<Rightarrow> Some Undef | Some n \<Rightarrow> hlist_end h (n_next n) (Some a)))"

text \<open>\<open>a\<close> is what \<open>malloc\<close> returns. The result is the new node, not the list.\<close>

definition insert_hlist ::
  "hheap \<Rightarrow> nat option \<Rightarrow> string \<Rightarrow> string \<Rightarrow> nat option \<Rightarrow> (hheap \<times> nat) outcome option" where
  "insert_hlist h first hdr val a =
     (case hlist_end h first None of None \<Rightarrow> None
      | Some r \<Rightarrow> Some (obind r (\<lambda>lst.
          case a of None \<Rightarrow> Die ''No room for HLIST''
          | Some i \<Rightarrow>
              (let h1 = (case lst of None \<Rightarrow> h
                         | Some l \<Rightarrow> (case h l of None \<Rightarrow> h | Some n \<Rightarrow> h(l \<mapsto> n\<lparr>n_next := Some i\<rparr>)))
               in Ok (h1(i \<mapsto> \<lparr>n_hdr = hdr, n_val = val, n_next = None\<rparr>), i)))))"

partial_function (option) hlist_find ::
  "hheap \<Rightarrow> nat option \<Rightarrow> string \<Rightarrow> nat option outcome option" where
  "hlist_find h i hdr =
     (case i of None \<Rightarrow> Some (Ok None)
      | Some a \<Rightarrow> (case h a of None \<Rightarrow> Some Undef
                   | Some n \<Rightarrow> if strcaseeq (n_hdr n) hdr then Some (Ok (Some a))
                             else hlist_find h (n_next n) hdr))"

definition hlist_get_value :: "hheap \<Rightarrow> nat option \<Rightarrow> string \<Rightarrow> string option outcome option" where
  "hlist_get_value h first hdr =
     map_option (\<lambda>r. obind r (\<lambda>i. Ok (case i of None \<Rightarrow> None | Some a \<Rightarrow> map_option n_val (h a))))
       (hlist_find h first hdr)"

definition hlist_replace_value ::
  "hheap \<Rightarrow> nat option \<Rightarrow> string \<Rightarrow> string \<Rightarrow> (hheap \<times> string option) outcome option" where
  "hlist_replace_value h first hdr repl =
     map_option (\<lambda>r. obind r (\<lambda>i. Ok (case i of None \<Rightarrow> (h, None)
         | Some a \<Rightarrow> (case h a of None \<Rightarrow> (h, None)
                      | Some n \<Rightarrow> (h(a \<mapsto> n\<lparr>n_val := repl\<rparr>), Some repl)))))
       (hlist_find h first hdr)"

partial_function (option) free_hlist :: "hheap \<Rightarrow> nat option \<Rightarrow> hheap outcome option" where
  "free_hlist h p =
     (case p of None \<Rightarrow> Some Undef
      | Some a \<Rightarrow> (case h a of None \<Rightarrow> Some Undef
          | Some n \<Rightarrow> (if n_next n = None then Some (Ok (h(a := None)))
                     else free_hlist (h(a := None)) (n_next n))))"

declare hlist_end.simps [code] hlist_find.simps [code] free_hlist.simps [code]

section \<open>The list a heap holds\<close>

fun chain :: "hheap \<Rightarrow> nat option \<Rightarrow> nat list \<Rightarrow> (string \<times> string) list \<Rightarrow> bool" where
  "chain h p [] xs \<longleftrightarrow> p = None \<and> xs = []"
| "chain h p (a # as) xs \<longleftrightarrow>
     p = Some a \<and> (case h a of None \<Rightarrow> False
       | Some n \<Rightarrow> xs \<noteq> [] \<and> hd xs = (n_hdr n, n_val n) \<and> chain h (n_next n) as (tl xs))"

definition hlist :: "hheap \<Rightarrow> nat option \<Rightarrow> (string \<times> string) list \<Rightarrow> bool" where
  "hlist h p xs \<longleftrightarrow> (\<exists>as. distinct as \<and> chain h p as xs)"

definition hlookup :: "string \<Rightarrow> (string \<times> string) list \<Rightarrow> nat option" where
  "hlookup hdr xs = find_index (\<lambda>x. strcaseeq (fst x) hdr) xs"

lemma chain_frame: "(\<And>a. a \<in> set as \<Longrightarrow> h a = h' a) \<Longrightarrow> chain h p as xs = chain h' p as xs"
  by (induction as arbitrary: p xs) (auto split: option.splits)

lemma chain_allocated: "chain h p as xs \<Longrightarrow> a \<in> set as \<Longrightarrow> h a \<noteq> None"
  by (induction as arbitrary: p xs) (auto split: option.splits)

lemma chain_length: "chain h p as xs \<Longrightarrow> length as = length xs"
  by (induction as arbitrary: p xs) (auto split: option.splits simp: Suc_length_conv neq_Nil_conv)

lemma chain_nth:
  "chain h p as xs \<Longrightarrow> i < length as \<Longrightarrow>
   \<exists>n. h (as ! i) = Some n \<and> xs ! i = (n_hdr n, n_val n)"
proof (induction as arbitrary: p xs i)
  case Nil
  then show ?case by simp
next
  case (Cons a as)
  then show ?case by (cases i; cases xs) (auto split: option.splits)
qed

lemma chain_end:
  "chain h p as xs \<Longrightarrow> hlist_end h p l = Some (Ok (if as = [] then l else Some (last as)))"
proof (induction as arbitrary: p xs l)
  case Nil
  then show ?case by (simp add: hlist_end.simps)
next
  case (Cons a as)
  then show ?case by (subst hlist_end.simps) (auto split: option.splits)
qed

lemma chain_find:
  "chain h p as xs \<Longrightarrow> hlist_find h p hdr = Some (Ok (map_option ((!) as) (hlookup hdr xs)))"
proof (induction as arbitrary: p xs)
  case Nil
  then show ?case by (simp add: hlist_find.simps hlookup_def)
next
  case (Cons a as)
  then obtain n ys where n: "h a = Some n" "p = Some a" "xs = (n_hdr n, n_val n) # ys"
      "chain h (n_next n) as ys"
    by (cases xs) (auto split: option.splits)
  with Cons.IH [OF n(4)] show ?case
    by (subst hlist_find.simps) (simp add: hlookup_def option.map_comp comp_def)
qed

lemma chain_update:
  "chain h p as xs \<Longrightarrow> distinct as \<Longrightarrow> i < length as \<Longrightarrow> h (as ! i) = Some n \<Longrightarrow>
   chain (h(as ! i \<mapsto> n\<lparr>n_val := v\<rparr>)) p as (xs[i := (fst (xs ! i), v)])"
proof (induction as arbitrary: p xs i)
  case Nil
  then show ?case by simp
next
  case (Cons a as)
  then obtain m ys where m: "h a = Some m" "p = Some a" "xs = (n_hdr m, n_val m) # ys"
      "chain h (n_next m) as ys"
    by (cases xs) (auto split: option.splits)
  show ?case
  proof (cases i)
    case 0
    have "chain (h(a \<mapsto> n\<lparr>n_val := v\<rparr>)) (n_next m) as ys"
      using m(4) Cons.prems(2) by (subst chain_frame [where h' = h]) auto
    with 0 m Cons.prems show ?thesis by (simp add: fun_upd_same del: fun_upd_apply)
  next
    case (Suc j)
    with Cons.prems m Cons.IH [OF m(4), of j] show ?thesis by auto
  qed
qed

lemma chain_append:
  "chain h p as xs \<Longrightarrow> distinct as \<Longrightarrow> as \<noteq> [] \<Longrightarrow> h i = None \<Longrightarrow> h (last as) = Some n \<Longrightarrow>
   chain (h(last as \<mapsto> n\<lparr>n_next := Some i\<rparr>, i \<mapsto> \<lparr>n_hdr = hdr, n_val = v, n_next = None\<rparr>)) p
     (as @ [i]) (xs @ [(hdr, v)])"
proof (induction as arbitrary: p xs)
  case Nil
  then show ?case by simp
next
  case (Cons a as)
  then obtain m ys where m: "h a = Some m" "p = Some a" "xs = (n_hdr m, n_val m) # ys"
      "chain h (n_next m) as ys"
    by (cases xs) (auto split: option.splits)
  show ?case
  proof (cases "as = []")
    case True
    with m Cons.prems show ?thesis by auto
  next
    case False
    then have "a \<noteq> last as" using Cons.prems(2) by auto
    with False m Cons show ?thesis by auto
  qed
qed

lemma chain_free:
  "chain h p as xs \<Longrightarrow> distinct as \<Longrightarrow> as \<noteq> [] \<Longrightarrow>
   free_hlist h p = Some (Ok (\<lambda>a. if a \<in> set as then None else h a))"
proof (induction as arbitrary: p xs h)
  case Nil
  then show ?case by simp
next
  case (Cons a as)
  then obtain m ys where m: "h a = Some m" "p = Some a" "chain h (n_next m) as ys"
    by (cases xs) (auto split: option.splits)
  show ?case
  proof (cases "as = []")
    case True
    with m show ?thesis by (subst free_hlist.simps) (auto simp: fun_eq_iff)
  next
    case False
    then have "n_next m \<noteq> None" using m(3) by (cases as) auto
    moreover have "chain (h(a := None)) (n_next m) as ys"
      using m(3) Cons.prems(2) by (subst chain_frame [where h' = h]) auto
    ultimately have "free_hlist h p = Some (Ok (\<lambda>b. if b \<in> set as then None else (h(a := None)) b))"
      using m False Cons.prems(2) Cons.IH [of "h(a := None)" "n_next m" ys]
      by (subst free_hlist.simps) (auto simp del: fun_upd_apply)
    also have "(\<lambda>b. if b \<in> set as then None else (h(a := None)) b) =
        (\<lambda>b. if b \<in> set (a # as) then None else h b)"
      by (auto simp: fun_eq_iff)
    finally show ?thesis .
  qed
qed

section \<open>Properties\<close>

text \<open>C34: adding a header to a list appends it: the heap afterwards holds the old headers and
  then the new one, reached from the old first pointer, or from the returned node when the list was
  empty.\<close>

theorem insert_hlist_appends:
  assumes "hlist h p xs" and "h i = None"
  shows "\<exists>h'. insert_hlist h p hdr v (Some i) = Some (Ok (h', i))
           \<and> hlist h' (if p = None then Some i else p) (xs @ [(hdr, v)])"
proof -
  from assms obtain as where as: "distinct as" "chain h p as xs" by (auto simp: hlist_def)
  have i: "i \<notin> set as" using chain_allocated [OF as(2), of i] assms(2) by blast
  show ?thesis
  proof (cases "as = []")
    case True
    with as have "p = None" "xs = []" by simp_all
    then show ?thesis
      by (auto simp: insert_hlist_def hlist_end.simps hlist_def intro!: exI [of _ "[i]"])
  next
    case False
    then obtain n where n: "h (last as) = Some n" using chain_allocated [OF as(2)] by fastforce
    have "p \<noteq> None" using as(2) False by (cases as) auto
    with False n as i chain_end [OF as(2)] chain_append [OF as(2,1) False assms(2) n, of hdr v]
    show ?thesis by (auto simp: insert_hlist_def hlist_def intro!: exI [of _ "as @ [i]"])
  qed
qed

theorem insert_hlist_appends_witness:
  "\<exists>h' h''. insert_hlist Map.empty None ''From'' ''a'' (Some 7) = Some (Ok (h', 7)) \<and>
     insert_hlist h' (Some 7) ''Subject'' ''b'' (Some 9) = Some (Ok (h'', 9)) \<and>
     hlist h'' (Some 7) [(''From'', ''a''), (''Subject'', ''b'')]"
proof -
  let ?h = "[7 \<mapsto> \<lparr>n_hdr = ''From'', n_val = ''a'', n_next = None\<rparr>] :: hheap"
  have "insert_hlist Map.empty None ''From'' ''a'' (Some 7) = Some (Ok (?h, 7))"
    by (simp add: insert_hlist_def hlist_end.simps)
  moreover have "hlist ?h (Some 7) [(''From'', ''a'')]" by (auto simp: hlist_def intro!: exI [of _ "[7]"])
  from insert_hlist_appends [OF this, of 9 "''Subject''" "''b''"]
  have "\<exists>h''. insert_hlist ?h (Some 7) ''Subject'' ''b'' (Some 9) = Some (Ok (h'', 9)) \<and>
      hlist h'' (Some 7) [(''From'', ''a''), (''Subject'', ''b'')]" by simp
  ultimately show ?thesis by blast
qed

text \<open>On a well-formed list the lookup by name returns the value of the first header of that
  name, in any case, and replacing a value changes that header and no other.\<close>

theorem hlist_lookup_replace:
  assumes "hlist h p xs"
  shows "hlist_get_value h p hdr = Some (Ok (map_option (\<lambda>i. snd (xs ! i)) (hlookup hdr xs))) \<and>
    (\<exists>h'. hlist_replace_value h p hdr v = Some (Ok (h', map_option (\<lambda>_. v) (hlookup hdr xs)))
        \<and> hlist h' p (case hlookup hdr xs of None \<Rightarrow> xs | Some i \<Rightarrow> xs[i := (fst (xs ! i), v)]))"
proof -
  from assms obtain as where as: "distinct as" "chain h p as xs" by (auto simp: hlist_def)
  show ?thesis
  proof (cases "hlookup hdr xs")
    case None
    with as chain_find [OF as(2), of hdr] show ?thesis
      by (auto simp: hlist_get_value_def hlist_replace_value_def hlist_def)
  next
    case (Some i)
    then have i: "i < length as" using chain_length [OF as(2)] by (auto simp: hlookup_def)
    then obtain n where n: "h (as ! i) = Some n" "xs ! i = (n_hdr n, n_val n)"
      using chain_nth [OF as(2)] by blast
    with Some as i chain_find [OF as(2), of hdr] chain_update [OF as(2,1) i n(1), of v] show ?thesis
      by (auto simp: hlist_get_value_def hlist_replace_value_def hlist_def)
  qed
qed

theorem hlist_lookup_replace_witness:
  "hlist_get_value [7 \<mapsto> \<lparr>n_hdr = ''From'', n_val = ''a'', n_next = None\<rparr>] (Some 7) ''FROM'' = Some (Ok (Some ''a''))"
proof -
  have "hlist [7 \<mapsto> \<lparr>n_hdr = ''From'', n_val = ''a'', n_next = None\<rparr>] (Some 7) [(''From'', ''a'')]"
    by (auto simp: hlist_def intro!: exI [of _ "[7]"])
  moreover have "hlookup ''FROM'' [(''From'', ''a'')] = Some 0" by code_simp
  ultimately show ?thesis using hlist_lookup_replace [of _ _ "[(''From'', ''a'')]" "''FROM''"] by simp
qed

text \<open>Freeing a list that holds a header returns, and frees the nodes of the list and no
  others; freeing an empty list follows the null pointer.\<close>

theorem free_hlist_frees:
  assumes "hlist h p xs"
  shows "if xs = [] then free_hlist h p = Some Undef
    else \<exists>as. chain h p as xs \<and> free_hlist h p = Some (Ok (\<lambda>a. if a \<in> set as then None else h a))"
proof -
  from assms obtain as where as: "distinct as" "chain h p as xs" by (auto simp: hlist_def)
  show ?thesis
  proof (cases "xs = []")
    case True
    with chain_length [OF as(2)] as(2) show ?thesis by (simp add: free_hlist.simps)
  next
    case False
    with chain_length [OF as(2)] have "as \<noteq> []" by auto
    from chain_free [OF as(2,1) this] as False show ?thesis by auto
  qed
qed

theorem free_hlist_frees_witness:
  "\<exists>as. free_hlist [7 \<mapsto> \<lparr>n_hdr = ''From'', n_val = ''a'', n_next = None\<rparr>] (Some 7) =
     Some (Ok (\<lambda>a. if a \<in> set as then None
       else [7 \<mapsto> \<lparr>n_hdr = ''From'', n_val = ''a'', n_next = None\<rparr>] a))"
proof -
  have "hlist [7 \<mapsto> \<lparr>n_hdr = ''From'', n_val = ''a'', n_next = None\<rparr>] (Some 7) [(''From'', ''a'')]"
    by (auto simp: hlist_def intro!: exI [of _ "[7]"])
  from free_hlist_frees [OF this] show ?thesis by auto
qed

end
