(* ===== verification/Types.thy ===== *)
theory Types
  imports Prelude
begin

text \<open>
  The structures of \<open>nntpd.h\<close>. Each C struct is a record with the fields the model uses, in
  the order of the header; a pointer into one of the shared arrays is the index of its target,
  null is \<open>None\<close>. The counted arrays of \<open>MASTER\<close> are lists whose length is the counter;
  \<open>clients\<close> and \<open>users\<close> are arrays of slots, lists of a fixed length that plays
  \<open>MAX_PROC\<close>. The floating-point state of the rate limiter is kept in reals.
\<close>

section \<open>Limits\<close>

definition MAX_NAME :: nat where "MAX_NAME = 32"
definition MAX_ACLS :: nat where "MAX_ACLS = 2048"
definition MAX_ARGS :: nat where "MAX_ARGS = 64"
definition MAX_ALIASES :: nat where "MAX_ALIASES = 256"
definition MAX_AUTHS :: nat where "MAX_AUTHS = 2048"
definition MAX_PROFILES :: nat where "MAX_PROFILES = 512"
definition MAX_SERVERS :: nat where "MAX_SERVERS = 128"
definition MAX_VHOSTS :: nat where "MAX_VHOSTS = 128"
definition MAX_GROUPS :: nat where "MAX_GROUPS = 128000"
definition MAX_FOOTER :: nat where "MAX_FOOTER = 1024"
definition MAX_WILDMATS :: nat where "MAX_WILDMATS = 32"
definition MAX_LEVEL :: nat where "MAX_LEVEL = 1000"
definition MAX_DAYLIMITS :: nat where "MAX_DAYLIMITS = 16"
definition MAX_PFXMAPS :: nat where "MAX_PFXMAPS = 4"
definition PFX_MAPSIZE :: nat where "PFX_MAPSIZE = 0x3FFFFF"

section \<open>Unsigned counters\<close>

definition uint_inc :: "nat \<Rightarrow> nat" where
  "uint_inc n = (n + 1) mod 2 ^ 32"

definition add64 :: "nat \<Rightarrow> nat \<Rightarrow> nat" where
  "add64 a b = (a + b) mod 2 ^ 64"

definition uint_dec :: "nat \<Rightarrow> nat" where
  "uint_dec n = (if n = 0 then 2 ^ 32 - 1 else n - 1)"

definition u32 :: "int \<Rightarrow> nat" where
  \<comment> \<open>conversion to a 32-bit unsigned int\<close>
  "u32 i = nat (i mod 2 ^ 32)"

definition u64 :: "int \<Rightarrow> nat" where
  "u64 i = nat (i mod 2 ^ 64)"

lemma add64_small: "a + b < 2 ^ 64 \<Longrightarrow> add64 a b = a + b"
  by (simp add: add64_def)

lemma uint_dec_inc: "n < 2 ^ 32 \<Longrightarrow> uint_dec (uint_inc n) = n"
  by (cases "n + 1 = 2 ^ 32") (auto simp: uint_dec_def uint_inc_def)

lemma uint_inc_small: "n + 1 < 2 ^ 32 \<Longrightarrow> uint_inc n = n + 1"
  by (simp add: uint_inc_def)

lemma uint_dec_pos: "0 < n \<Longrightarrow> uint_dec n = n - 1"
  by (simp add: uint_dec_def)

section \<open>Configuration tables\<close>

record pfxmap =
  pm_name :: string
  pm_map :: "nat \<Rightarrow> nat"

record alias_t =
  al_name :: string
  al_lib :: string
  al_args :: string

record args_t =
  ar_name :: string
  ar_args :: string

record limits_t =
  l_gb :: int
  l_kbit :: int

record ratelimit =
  rl_curbytes :: nat
  rl_lastbytes :: nat
  rl_sleep :: real
  rl_start :: int
  rl_curbps :: real

record profile_t =
  p_Name :: string
  p_ReadPat :: string
  p_PostPat :: string
  p_MaxConnections :: int
  p_MaxUserConcurrent :: int
  p_MaxHostConcurrent :: int
  p_Slave :: int
  p_ASMaxConns :: int
  p_ASMaxHosts :: int
  p_MaxUsers :: int
  p_MaxSessionTime :: int
  p_MaxSessionBytes :: nat
  p_MaxUserBPS :: nat
  p_MaxProfileBPS :: nat
  p_XComplaintsTo :: string
  p_Organization :: string
  p_ForceOrganization :: int
  p_AddNNTPPostingHost :: int
  p_MaxCross :: int
  p_Hostname :: string
  p_FooterFile :: string
  p_Footer :: string
  p_FooterSize :: nat
  p_NoControl :: int
  p_ArticleSearch :: int
  p_ClientReadTimeout :: int
  p_Accounting :: "nat option"
  p_AccountingPrefix :: string
  p_Limits :: "limits_t list"
  p_Disabled :: string
  p_AllowSSL :: int
  p_connections :: nat
  p_numusers :: nat
  p_realusers :: nat
  p_bytes :: nat
  p_rbytes :: nat
  p_articles :: nat
  p_postbytes :: nat
  p_postarticles :: nat
  p_rl :: ratelimit
  p_UserRLFactorU :: real
  p_UserRLFactorD :: real
  p_ProfileRLFactorU :: real
  p_ProfileRLFactorD :: real
  p_Retention :: nat
  p_XHeaderSSLUpload :: string
  p_PrefixMap :: "nat option"
  p_FailProfile :: "nat option"

record wildmat_t =
  w_pattern :: string
  w_name :: string

record auth_t =
  au_mask :: string
  au_auth :: nat
  au_profile :: nat

record acl_t =
  acl_start :: nat
  acl_end :: nat
  acl_size :: nat
  acl_profile :: "nat option"
  acl_read :: bool
  acl_post :: bool
  acl_apost :: bool
  acl_deny :: bool
  acl_auth :: bool
  acl_stats :: bool
  acl_unlimit :: bool

record vhost_t =
  v_ipaddress :: string
  v_Banner :: string
  v_AddSuffix :: string
  v_ReplaceBanner :: int
  v_SSLKeyFile :: string
  v_SSLCAList :: string
  v_SSLPassword :: string
  v_ssl_ctx :: "nat option"

section \<open>Newsgroups and servers\<close>

record active_t =
  a_hi :: nat
  a_lo :: nat
  a_times :: nat
  a_id :: nat
  a_mode :: char
  a_newsgroup :: string
  a_server :: string

datatype servertype = Type_spool | Type_xover | Type_post
datatype serverpol = Policy_single | Policy_backup | Policy_balance
datatype connect_result = CONNECT_OK | CONNECT_ERR | CONNECT_DOWN

record server_t =
  s_Name :: string
  s_Hostname :: string
  s_Groups :: string
  s_Username :: string
  s_Password :: string
  s_Port :: nat
  s_Timeout :: nat
  s_Level :: nat
  s_ServerType :: servertype
  s_Policy :: serverpol
  s_ActiveTimes :: bool
  s_Descriptions :: bool
  s_SplitList :: bool
  s_MaxConnections :: nat
  s_connections :: nat

section \<open>Users and clients\<close>

record user_t =
  u_key :: string
  u_id :: nat
  u_MaxUserBPS :: nat
  u_bytesleft :: int
  u_connections :: nat
  u_realuser :: nat
  u_readpat :: string
  u_postpat :: string
  u_timeleft :: int
  u_rl :: ratelimit

record client_t =
  c_socket :: int
  c_useSSL :: bool
  c_connectsince :: int
  c_pid :: int
  c_numcore :: int
  c_serversock :: int
  c_postsock :: int
  c_groupserver :: "nat option"
  c_group :: "nat option"
  c_currserver :: "nat option"
  c_hostname :: string
  c_ip4addr :: nat
  c_acl :: "nat option"
  c_auth :: "nat option"
  c_command :: "nat option"
  c_profile :: "nat option"
  c_user :: "nat option"
  c_vhost :: "nat option"
  c_username :: string
  c_logname :: string
  c_password :: string
  c_id :: nat
  c_concur :: nat
  c_error :: int
  c_timeout :: int
  c_RateIntervalUs :: int
  c_errstr :: "string option"
  c_bytes :: nat
  c_rbytes :: nat
  c_groups :: nat
  c_articles :: nat
  c_posts :: nat
  c_postbytes :: nat
  c_grouparts :: nat
  c_groupbytes :: nat
  c_serverarts :: nat
  c_serverbytes :: nat
  c_starttime :: nat
  c_initbytes :: int
  c_connected :: bool
  c_authenticated :: bool
  c_inuse :: bool
  c_posting :: bool

record master_t =
  m_active :: "active_t list"
  m_laststatactive :: int
  m_laststatserver :: int
  m_serverstart :: nat
  m_nrforks :: nat
  m_nrlocks :: nat
  m_nrunlocks :: nat
  m_numcores :: int
  m_currcore :: int
  m_connections :: int
  m_clients :: "client_t list"
  m_numusers :: int
  m_users :: "user_t list"
  m_lservers :: "nat list"
  m_servers :: "server_t list"
  m_auths :: "auth_t list"
  m_profiles :: "profile_t list"
  m_aliases :: "alias_t list"
  m_wildmats :: "wildmat_t list"
  m_acls :: "acl_t list"
  m_args :: "args_t list"
  m_vhosts :: "vhost_t list"
  m_balance_pos :: "nat \<Rightarrow> nat"
  m_pfxmaps :: "pfxmap list"

section \<open>The configuration the operations read\<close>

text \<open>The fields of the generated \<open>struct config\<close> that the modelled code reads.\<close>

record cfg_t =
  cf_BasePath :: string
  cf_AccessFile :: string
  cf_ServerFile :: string
  cf_ActiveFile :: string
  cf_NewsgroupsFile :: string
  cf_OverviewFmtFile :: string
  cf_DisableFile :: string
  cf_DisableText :: string
  cf_ModeratorDomain :: string
  cf_PostServer :: string
  cf_RemoteConfig :: bool
  cf_EnableSSL :: bool
  cf_JSONACL :: bool
  cf_JSONRL :: bool
  cf_DropUnknown :: int
  cf_LocalDreader :: bool
  cf_DenyNoIndexField :: bool
  cf_DNSLookups :: bool
  cf_LogMissing :: bool
  cf_PostXTraceHeader :: bool
  cf_ClientReadTimeout :: int
  cf_ServerReadTimeout :: int
  cf_ServerConnectTimeout :: int
  cf_RetryDelay :: int
  cf_DownDelay :: int
  cf_AccountingDelay :: int
  cf_MaxConnections :: int
  cf_NoSuchArticleRetries :: int
  cf_BufSize :: nat
  cf_RatePeriod :: int
  cf_CoreBind :: int
  cf_StatsFilePeriod :: int
  cf_SockBufSize :: int
  cf_PostServerPort :: nat
  cf_ListenPorts :: string
  cf_ListenSSLPorts :: string
  cf_MailerPath :: string
  cf_StatsFile :: string
  cf_ConnDumpFile :: string
  cf_AsLoginURL :: string
  cf_AsLogoutURL :: string
  cf_ACLURL :: string
  cf_PidFile :: string
  cf_BindAddress :: string
  cf_RunAsUser :: string

section \<open>Zeroed memory\<close>

text \<open>What \<open>memset (..., 0, ...)\<close> and the fresh shared memory hold.\<close>

definition zero_rl :: ratelimit where
  "zero_rl = \<lparr>rl_curbytes = 0, rl_lastbytes = 0, rl_sleep = 0, rl_start = 0, rl_curbps = 0\<rparr>"

definition zero_profile :: profile_t where
  "zero_profile = \<lparr>p_Name = [], p_ReadPat = [], p_PostPat = [], p_MaxConnections = 0,
     p_MaxUserConcurrent = 0, p_MaxHostConcurrent = 0, p_Slave = 0, p_ASMaxConns = 0, p_ASMaxHosts = 0,
     p_MaxUsers = 0, p_MaxSessionTime = 0, p_MaxSessionBytes = 0, p_MaxUserBPS = 0, p_MaxProfileBPS = 0,
     p_XComplaintsTo = [], p_Organization = [], p_ForceOrganization = 0, p_AddNNTPPostingHost = 0,
     p_MaxCross = 0, p_Hostname = [], p_FooterFile = [], p_Footer = [], p_FooterSize = 0,
     p_NoControl = 0, p_ArticleSearch = 0, p_ClientReadTimeout = 0, p_Accounting = None,
     p_AccountingPrefix = [], p_Limits = [], p_Disabled = [], p_AllowSSL = 0, p_connections = 0,
     p_numusers = 0, p_realusers = 0, p_bytes = 0, p_rbytes = 0, p_articles = 0, p_postbytes = 0,
     p_postarticles = 0, p_rl = zero_rl, p_UserRLFactorU = 0, p_UserRLFactorD = 0,
     p_ProfileRLFactorU = 0, p_ProfileRLFactorD = 0, p_Retention = 0, p_XHeaderSSLUpload = [],
     p_PrefixMap = None, p_FailProfile = None\<rparr>"

definition zero_user :: user_t where
  "zero_user = \<lparr>u_key = [], u_id = 0, u_MaxUserBPS = 0, u_bytesleft = 0, u_connections = 0,
     u_realuser = 0, u_readpat = [], u_postpat = [], u_timeleft = 0, u_rl = zero_rl\<rparr>"

definition zero_client :: client_t where
  "zero_client = \<lparr>c_socket = 0, c_useSSL = False, c_connectsince = 0, c_pid = 0, c_numcore = 0, c_serversock = 0,
     c_postsock = 0, c_groupserver = None, c_group = None, c_currserver = None, c_hostname = [],
     c_ip4addr = 0, c_acl = None, c_auth = None, c_command = None, c_profile = None, c_user = None,
     c_vhost = None, c_username = [], c_logname = [], c_password = [], c_id = 0, c_concur = 0,
     c_error = 0, c_timeout = 0, c_RateIntervalUs = 0, c_errstr = None, c_bytes = 0, c_rbytes = 0, c_groups = 0,
     c_articles = 0, c_posts = 0, c_postbytes = 0, c_grouparts = 0, c_groupbytes = 0, c_serverarts = 0,
     c_serverbytes = 0, c_starttime = 0, c_initbytes = 0, c_connected = False, c_authenticated = False,
     c_inuse = False, c_posting = False\<rparr>"

definition zero_server :: server_t where
  "zero_server = \<lparr>s_Name = [], s_Hostname = [], s_Groups = [], s_Username = [], s_Password = [],
     s_Port = 0, s_Timeout = 0, s_Level = 0, s_ServerType = Type_spool, s_Policy = Policy_single,
     s_ActiveTimes = False, s_Descriptions = False, s_SplitList = False, s_MaxConnections = 0,
     s_connections = 0\<rparr>"

definition zero_vhost :: vhost_t where
  "zero_vhost = \<lparr>v_ipaddress = [], v_Banner = [], v_AddSuffix = [], v_ReplaceBanner = 0,
     v_SSLKeyFile = [], v_SSLCAList = [], v_SSLPassword = [], v_ssl_ctx = None\<rparr>"

definition zero_master :: master_t where
  "zero_master = \<lparr>m_active = [], m_laststatactive = 0, m_laststatserver = 0, m_serverstart = 0, m_nrforks = 0,
     m_nrlocks = 0, m_nrunlocks = 0, m_numcores = 0, m_currcore = 0,
     m_connections = 0, m_clients = [], m_numusers = 0, m_users = [], m_lservers = [], m_servers = [],
     m_auths = [], m_profiles = [], m_aliases = [], m_wildmats = [], m_acls = [], m_args = [],
     m_vhosts = [], m_balance_pos = (\<lambda>_. 0), m_pfxmaps = []\<rparr>"

definition zero_cfg :: cfg_t where
  "zero_cfg = \<lparr>cf_BasePath = [], cf_AccessFile = [], cf_ServerFile = [], cf_ActiveFile = [],
     cf_NewsgroupsFile = [], cf_OverviewFmtFile = [], cf_DisableFile = [], cf_DisableText = [],
     cf_ModeratorDomain = [], cf_PostServer = [], cf_RemoteConfig = False, cf_EnableSSL = False,
     cf_JSONACL = False, cf_JSONRL = False, cf_DropUnknown = 0, cf_LocalDreader = False,
     cf_DenyNoIndexField = False, cf_DNSLookups = False, cf_LogMissing = False,
     cf_PostXTraceHeader = False, cf_ClientReadTimeout = 0, cf_ServerReadTimeout = 0,
     cf_ServerConnectTimeout = 0, cf_RetryDelay = 0, cf_DownDelay = 0, cf_AccountingDelay = 0,
     cf_MaxConnections = 0, cf_NoSuchArticleRetries = 0, cf_BufSize = 0, cf_RatePeriod = 0,
     cf_CoreBind = 0, cf_StatsFilePeriod = 0, cf_SockBufSize = 0, cf_PostServerPort = 0, cf_ListenPorts = [],
     cf_ListenSSLPorts = [], cf_MailerPath = [], cf_StatsFile = [], cf_ConnDumpFile = [],
     cf_AsLoginURL = [], cf_AsLogoutURL = [], cf_ACLURL = [], cf_PidFile = [],
     cf_BindAddress = [], cf_RunAsUser = []\<rparr>"

end
