(* ===== verification/Tables.thy ===== *)
theory Tables
  imports Types
begin

text \<open>
  The interface of the configuration tables. Each is an array of named rows with a counter: a
  lookup scans it for the first row of the name, and a configuration line overwrites the row of its
  name or adds one at the end. The laws say so; what follows from them is that a table is a finite
  map from names to rows, that names stay unique, and that a table only grows.
\<close>

definition put_row ::
  "('r \<Rightarrow> string) \<Rightarrow> nat \<Rightarrow> 'r \<Rightarrow> 'r list \<Rightarrow> 'r list outcome" where
  \<comment> \<open>overwrite the row of the same key or write a new one at the counter, past the end of a full
     array of \<open>cap\<close> rows included\<close>
  "put_row key cap r rows =
     (case find_index (\<lambda>x. key x = key r) rows of
        Some i \<Rightarrow> Ok (rows[i := r])
      | None \<Rightarrow> if cap \<le> length rows then Undef else Ok (rows @ [r]))"

locale keyed_table =
  fixes rows :: "'m \<Rightarrow> 'r list"
    and key :: "'r \<Rightarrow> string"
    and cap :: nat
    and get :: "string \<Rightarrow> 'm \<Rightarrow> nat option"
    and put :: "'r \<Rightarrow> 'm \<Rightarrow> 'm outcome"
  assumes get_first: "get k m = find_index (\<lambda>r. key r = k) (rows m)"
    and put_hit: "get (key r) m = Some i \<Longrightarrow> \<exists>m'. put r m = Ok m' \<and> rows m' = (rows m)[i := r]"
    and put_miss: "get (key r) m = None \<Longrightarrow> length (rows m) < cap \<Longrightarrow>
       \<exists>m'. put r m = Ok m' \<and> rows m' = rows m @ [r]"
    and put_full: "get (key r) m = None \<Longrightarrow> cap \<le> length (rows m) \<Longrightarrow> put r m = Undef"
begin

definition lookup :: "'m \<Rightarrow> string \<Rightarrow> 'r option" where
  "lookup m k = map_option (\<lambda>i. rows m ! i) (get k m)"

definition unique :: "'m \<Rightarrow> bool" where
  "unique m \<longleftrightarrow> distinct (map key (rows m))"

lemma get_bound: "get k m = Some i \<Longrightarrow> i < length (rows m) \<and> key (rows m ! i) = k"
  by (auto simp: get_first find_index_Some)

lemma get_in: "get (key r) m = None \<Longrightarrow> r \<notin> set (rows m)"
  by (auto simp: get_first find_index_None)

lemma put_rows:
  assumes "put r m = Ok m'"
  shows "rows m' = (case get (key r) m of Some i \<Rightarrow> (rows m)[i := r] | None \<Rightarrow> rows m @ [r])"
  using assms put_hit [of r m] put_miss [of r m] put_full [of r m]
  by (cases "get (key r) m"; cases "length (rows m) < cap") fastforce+

lemma get_put:
  assumes "put r m = Ok m'"
  shows "get k m' = (if k = key r then Some (case get k m of Some i \<Rightarrow> i | None \<Rightarrow> length (rows m)) else get k m)"
proof (cases "get (key r) m")
  case None
  with put_rows [OF assms] have "rows m' = rows m @ [r]" by simp
  with None show ?thesis
    by (auto simp: get_first find_index_append split: option.splits)
next
  case (Some i)
  with put_rows [OF assms] have m': "rows m' = (rows m)[i := r]" by simp
  from get_bound [OF Some] have i: "i < length (rows m)" "key (rows m ! i) = key r" by auto
  then have "find_index (\<lambda>x. key x = k) ((rows m)[i := r]) = find_index (\<lambda>x. key x = k) (rows m)"
    by (intro find_index_update_same) auto
  with m' Some show ?thesis by (auto simp: get_first)
qed

text \<open>A configuration line is an update of the map the table stands for.\<close>

lemma lookup_put:
  assumes "put r m = Ok m'"
  shows "lookup m' = (lookup m)(key r \<mapsto> r)"
proof
  fix k
  show "lookup m' k = ((lookup m)(key r \<mapsto> r)) k"
  proof (cases "k = key r")
    case True
    with get_put [OF assms, of k] put_rows [OF assms] show ?thesis
      by (auto simp: lookup_def dest: get_bound split: option.splits)
  next
    case False
    have "rows m' ! j = rows m ! j" if "get k m = Some j" for j
    proof -
      from that have j: "j < length (rows m)" "key (rows m ! j) = k" by (auto dest: get_bound)
      then have "get (key r) m \<noteq> Some j" using False get_bound [of "key r" m j] by auto
      with j put_rows [OF assms] show ?thesis by (auto simp: nth_append split: option.splits)
    qed
    with False get_put [OF assms, of k] show ?thesis by (auto simp: lookup_def map_option_case split: option.splits)
  qed
qed

lemma unique_put:
  assumes "unique m" and "put r m = Ok m'"
  shows "unique m'"
proof (cases "get (key r) m")
  case None
  with put_rows [OF assms(2)] have "rows m' = rows m @ [r]" by simp
  with None assms(1) show ?thesis
    by (auto simp: unique_def get_first find_index_None)
next
  case (Some i)
  from get_bound [OF Some] have "key (rows m ! i) = key r" and "i < length (rows m)" by auto
  then have "map key ((rows m)[i := r]) = map key (rows m)"
    by (simp add: map_update list_update_same_conv)
  with Some put_rows [OF assms(2)] assms(1) show ?thesis by (simp add: unique_def)
qed

lemma put_length:
  "put r m = Ok m' \<Longrightarrow> length (rows m) \<le> length (rows m') \<and> length (rows m') \<le> Suc (length (rows m))
     \<and> (length (rows m) \<le> cap \<longrightarrow> length (rows m') \<le> cap)"
  using put_rows [of r m m'] put_full [of r m]
  by (cases "get (key r) m"; cases "length (rows m) < cap") auto

text \<open>An index of a row stays the index of the row of that name.\<close>

lemma put_keeps_key: "put r m = Ok m' \<Longrightarrow> i < length (rows m) \<Longrightarrow> key (rows m' ! i) = key (rows m ! i)"
  using put_rows [of r m m'] get_bound [of "key r" m]
  by (auto simp: nth_append nth_list_update split: option.splits)

end

end
