(* ===== verification/Prefixmap.thy ===== *)
theory Prefixmap
  imports Tables Common
begin

text \<open>
  \<open>auth/prefixmap.c\<close>: bit maps of /24 networks. The byte at each offset is a number below 256; a
  prefix of the map file sets one bit for each /24 network it covers, and the lookup of an address
  tests the bit of its network.
\<close>

type_synonym files = "string \<Rightarrow> string list option"

section \<open>Operations\<close>

definition set_net :: "nat \<Rightarrow> (nat \<Rightarrow> nat) \<Rightarrow> nat \<Rightarrow> nat" where
  "set_net n mp = mp (drop_bit 3 n := mp (drop_bit 3 n) OR push_bit (n AND 7) 1)"

definition set_nets :: "nat \<Rightarrow> nat \<Rightarrow> (nat \<Rightarrow> nat) \<Rightarrow> nat \<Rightarrow> nat" where
  "set_nets ipstart cnt mp = fold (\<lambda>i. set_net (ipstart + i)) [0..<cnt] mp"

text \<open>
  \<open>1 << (32 - atol(pfx))\<close> is a shift of a signed int: prefixes 0 and 1 and those above 32 have no
  defined value.
\<close>

definition parse_prefix :: "string \<Rightarrow> string \<Rightarrow> (nat \<Rightarrow> nat) \<Rightarrow> (nat \<Rightarrow> nat) outcome" where
  "parse_prefix ip pfx mp =
     (case inet_aton ip of None \<Rightarrow> Undef
      | Some a \<Rightarrow>
          (let l = atol pfx in
           if l < 2 \<or> 32 < l then Undef
           else Ok (set_nets (drop_bit 8 a) (drop_bit 8 (2 ^ nat (32 - l))) mp)))"

definition prefix_line :: "string \<Rightarrow> (string \<times> string) option" where
  "prefix_line buf =
     (let fmt = [FCls (\<lambda>c. isdigit_c c \<or> c = CHR ''.'') (Some 15), FSkip (\<lambda>c. c = CHR ''/''),
                 FCls isdigit_c (Some 2)];
          vs = sscanf fmt buf
      in if sscanf_ret fmt buf < 2 then None else Some (sv vs 0 [], sv vs 1 []))"

fun load_lines :: "string list \<Rightarrow> (nat \<Rightarrow> nat) \<Rightarrow> (nat \<Rightarrow> nat) outcome" where
  "load_lines [] mp = Ok mp"
| "load_lines (l # ls) mp =
     (case prefix_line l of
        None \<Rightarrow> load_lines ls mp
      | Some (ip, pfx) \<Rightarrow> obind (parse_prefix ip pfx mp) (load_lines ls))"

definition load_prefixmap :: "files \<Rightarrow> string \<Rightarrow> (nat \<Rightarrow> nat) outcome" where
  "load_prefixmap fs filename =
     (case fs filename of None \<Rightarrow> Die ''Cant open file''
      | Some ls \<Rightarrow> load_lines ls (\<lambda>_. 0))"

definition getpfxmap :: "string \<Rightarrow> master_t \<Rightarrow> nat option" where
  "getpfxmap name m = find_index (\<lambda>p. strcmp (pm_name p) name = 0) (m_pfxmaps m)"

definition parsecfg_map :: "files \<Rightarrow> string \<Rightarrow> master_t \<Rightarrow> master_t outcome" where
  "parsecfg_map fs buf m =
     (let fmt = [FLit ''pfxmap'', FSkip blank, FCls (\<lambda>c. \<not> blank c) (Some 128), FSkip blank, FStr (Some 1024)];
          vs = sscanf fmt buf;
          name = sv vs 0 []; path = sv vs 1 []
      in if 128 \<le> length name \<or> 1024 \<le> length path then Undef
         else if sscanf_ret fmt buf \<noteq> 2 then Die ''Prefixmap config syntax error''
         else (case getpfxmap name m of
             Some i \<Rightarrow> obind (load_prefixmap fs path) (\<lambda>mp.
               Ok (m\<lparr>m_pfxmaps := (m_pfxmaps m)[i := (m_pfxmaps m ! i)\<lparr>pm_map := mp\<rparr>]\<rparr>))
           | None \<Rightarrow>
               if MAX_PFXMAPS \<le> length (m_pfxmaps m) then Undef
               else obind (strcpy_to 32 name) (\<lambda>name.
                    obind (load_prefixmap fs path) (\<lambda>mp.
                    if MAX_PFXMAPS \<le> length (m_pfxmaps m) + 1 then Die ''Too many prefixmaps''
                    else Ok (m\<lparr>m_pfxmaps := m_pfxmaps m @ [\<lparr>pm_name = name, pm_map = mp\<rparr>]\<rparr>)))))"

definition pfx_iplookup :: "nat \<Rightarrow> pfxmap \<Rightarrow> bool" where
  "pfx_iplookup a pm = (pm_map pm (drop_bit 11 a) AND push_bit (drop_bit 8 a AND 7) 1 \<noteq> 0)"

section \<open>The networks a map holds\<close>

definition net_in :: "(nat \<Rightarrow> nat) \<Rightarrow> nat \<Rightarrow> bool" where
  "net_in mp n \<longleftrightarrow> bit (mp (n div 8)) (n mod 8)"

lemma and_7: "n AND 7 = n mod (8 :: nat)"
  using take_bit_eq_mask [of 3 n] by (simp add: take_bit_eq_mod mask_eq_exp_minus_1)

lemma and_bit: "x AND 2 ^ k \<noteq> 0 \<longleftrightarrow> bit (x :: nat) k"
  by (simp add: and_exp_eq_0_iff_not_bit)

lemma set_net_in: "net_in (set_net n mp) k \<longleftrightarrow> net_in mp k \<or> k = n"
proof -
  have d: "drop_bit 3 n = n div 8" by (simp add: drop_bit_eq_div)
  have b: "bit ((2 :: nat) ^ i) j \<longleftrightarrow> i = j" for i j
    by (auto simp: bit_exp_iff)
  show ?thesis
    unfolding net_in_def set_net_def and_7 d
    by (auto simp: bit_or_iff b) (metis div_mult_mod_eq)+
qed

lemma set_nets_Suc: "set_nets s (Suc c) mp = set_net (s + c) (set_nets s c mp)"
  by (simp add: set_nets_def)

lemma set_nets_in: "net_in (set_nets s c mp) k \<longleftrightarrow> net_in mp k \<or> s \<le> k \<and> k < s + c"
  by (induction c) (auto simp: set_nets_Suc set_net_in set_nets_def [of s 0])

lemma set_nets_outside: "s + c \<le> 8 * k \<Longrightarrow> set_nets s c mp k = mp k"
  by (induction c) (auto simp: set_nets_Suc set_net_def drop_bit_eq_div set_nets_def [of s 0])

lemma lookup_net: "pfx_iplookup a pm \<longleftrightarrow> net_in (pm_map pm) (a div 256)"
proof -
  have "drop_bit 11 a = a div 256 div 8" by (simp add: drop_bit_eq_div flip: div_mult2_eq)
  moreover have "drop_bit 8 a AND 7 = a div 256 mod 8" by (simp only: and_7) (simp add: drop_bit_eq_div)
  ultimately show ?thesis
    using and_bit [of "pm_map pm (a div 256 div 8)" "a div 256 mod 8"]
    by (simp add: pfx_iplookup_def net_in_def)
qed

text \<open>The /24 networks that one line of a map file names.\<close>

definition line_covers :: "string \<Rightarrow> nat \<Rightarrow> bool" where
  "line_covers l n \<longleftrightarrow>
     (case prefix_line l of None \<Rightarrow> False
      | Some (ip, pfx) \<Rightarrow>
          (case inet_aton ip of None \<Rightarrow> False
           | Some a \<Rightarrow> a div 256 \<le> n \<and> n < a div 256 + 2 ^ nat (32 - atol pfx) div 256))"

lemma load_line_step:
  "load_lines (l # ls) mp = Ok mp' \<Longrightarrow>
   \<exists>mp1. load_lines ls mp1 = Ok mp' \<and> (\<forall>n. net_in mp1 n \<longleftrightarrow> net_in mp n \<or> line_covers l n)
     \<and> (\<forall>k \<ge> PFX_MAPSIZE. mp1 k = mp k)"
proof -
  assume l: "load_lines (l # ls) mp = Ok mp'"
  show ?thesis
  proof (cases "prefix_line l")
    case None
    with l show ?thesis by (auto simp: line_covers_def)
  next
    case (Some x)
    obtain ip pfx where x: "x = (ip, pfx)" by (cases x)
    with l Some obtain a where a: "inet_aton ip = Some a" and lo: "\<not> atol pfx < 2" and hi: "\<not> 32 < atol pfx"
      and r: "load_lines ls (set_nets (drop_bit 8 a) (drop_bit 8 (2 ^ nat (32 - atol pfx))) mp) = Ok mp'"
      by (auto simp: parse_prefix_def Let_def split: option.splits if_splits)
    have "(2 :: nat) ^ nat (32 - atol pfx) \<le> 2 ^ 30" using lo by (intro power_increasing) auto
    then have c: "2 ^ nat (32 - atol pfx) div 256 \<le> (2 ^ 30 div 256 :: nat)" by (rule div_le_mono)
    have s: "a div 256 < 2 ^ 24" using inet_aton_less [OF a] by auto
    have "a div 256 + 2 ^ nat (32 - atol pfx) div 256 \<le> 8 * k" if "PFX_MAPSIZE \<le> k" for k
      using c s that by (simp add: PFX_MAPSIZE_def)
    with r Some x a show ?thesis
      by (intro exI [of _ "set_nets (drop_bit 8 a) (drop_bit 8 (2 ^ nat (32 - atol pfx))) mp"])
        (auto simp: set_nets_in line_covers_def drop_bit_eq_div set_nets_outside)
  qed
qed

lemma load_lines_in:
  "load_lines ls mp = Ok mp' \<Longrightarrow>
   (\<forall>n. net_in mp' n \<longleftrightarrow> net_in mp n \<or> (\<exists>l \<in> set ls. line_covers l n))
     \<and> (\<forall>k \<ge> PFX_MAPSIZE. mp' k = mp k)"
proof (induction ls arbitrary: mp)
  case Nil
  then show ?case by simp
next
  case (Cons l ls)
  from load_line_step [OF Cons.prems] obtain mp1 where m: "load_lines ls mp1 = Ok mp'"
      "\<forall>n. net_in mp1 n \<longleftrightarrow> net_in mp n \<or> line_covers l n" "\<forall>k \<ge> PFX_MAPSIZE. mp1 k = mp k"
    by blast
  from Cons.IH [OF m(1)] m(2,3) show ?case by simp
qed

section \<open>Properties\<close>

text \<open>C23: an address is found in a loaded map exactly when a line of the map file covers its /24
  network, and loading writes no byte past the end of the map, not even for prefixes that start
  near the top of the address space.\<close>

theorem prefixmap_lookup:
  assumes "fs f = Some ls" and "load_prefixmap fs f = Ok mp"
  shows "(pfx_iplookup a \<lparr>pm_name = nm, pm_map = mp\<rparr> \<longleftrightarrow> (\<exists>l \<in> set ls. line_covers l (a div 256)))
    \<and> (\<forall>k \<ge> PFX_MAPSIZE. mp k = 0)"
  using load_lines_in [of ls "\<lambda>_. 0" mp] assms
  by (simp add: load_prefixmap_def lookup_net net_in_def)

theorem prefixmap_lookup_witness:
  "\<exists>mp. load_prefixmap [''m'' \<mapsto> [''10.1.2.0/23'']] ''m'' = Ok mp
     \<and> pfx_iplookup 0x0A010305 \<lparr>pm_name = ''m'', pm_map = mp\<rparr>
     \<and> \<not> pfx_iplookup 0x0A010405 \<lparr>pm_name = ''m'', pm_map = mp\<rparr>"
proof -
  have p: "prefix_line ''10.1.2.0/23'' = Some (''10.1.2.0'', ''23'')"
    and l: "atol ''23'' = 23"
    by code_simp+
  moreover have i: "inet_aton ''10.1.2.0'' = Some 0x0A010200"
    by (simp add: inet_aton_def addr_part_def isdigit_c_def code_def)
  ultimately obtain mp where m: "load_prefixmap [''m'' \<mapsto> [''10.1.2.0/23'']] ''m'' = Ok mp"
    by (simp add: load_prefixmap_def parse_prefix_def)
  have "pfx_iplookup a \<lparr>pm_name = ''m'', pm_map = mp\<rparr> \<longleftrightarrow> line_covers ''10.1.2.0/23'' (a div 256)" for a
    using prefixmap_lookup [of "[''m'' \<mapsto> [''10.1.2.0/23'']]" "''m''" "[''10.1.2.0/23'']" mp a "''m''"] m by simp
  with m p i l show ?thesis by (simp add: line_covers_def)
qed

text \<open>The fourth map, for which the array still has room, ends the daemon: only three maps
  can be configured.\<close>

theorem fourth_prefixmap_dies:
  assumes "length (m_pfxmaps m) = 3" and "getpfxmap ''d'' m = None" and "fs ''f'' = Some []"
  shows "parsecfg_map fs ''pfxmap d f'' m = Die ''Too many prefixmaps'' \<and> length (m_pfxmaps m) < MAX_PFXMAPS"
proof -
  let ?fmt = "[FLit ''pfxmap'', FSkip blank, FCls (\<lambda>c. \<not> blank c) (Some 128), FSkip blank, FStr (Some 1024)]"
  have "scan ?fmt ''pfxmap d f'' = ([SV ''d'', SV ''f''], False)"
    by (simp add: at_most_def isspace_c_def code_def)
  with assms show ?thesis
    by (simp add: parsecfg_map_def sscanf_def sscanf_ret_def sv_def MAX_PFXMAPS_def load_prefixmap_def
        strcpy_to_def)
qed

definition three_maps :: "pfxmap list" where
  "three_maps = [\<lparr>pm_name = ''a'', pm_map = \<lambda>_. 0\<rparr>, \<lparr>pm_name = ''b'', pm_map = \<lambda>_. 0\<rparr>,
     \<lparr>pm_name = ''c'', pm_map = \<lambda>_. 0\<rparr>]"

theorem fourth_prefixmap_dies_witness:
  "\<exists>m. length (m_pfxmaps m) = 3 \<and>
     parsecfg_map [''f'' \<mapsto> []] ''pfxmap d f'' m = Die ''Too many prefixmaps''"
proof -
  define m where "m = zero_master\<lparr>m_pfxmaps := three_maps\<rparr>"
  have "length (m_pfxmaps m) = 3" and "getpfxmap ''d'' m = None"
    by (simp_all add: m_def three_maps_def getpfxmap_def code_def)
  with fourth_prefixmap_dies [of m "[''f'' \<mapsto> []]"] show ?thesis by auto
qed

end
