(* ===== verification/Access.thy ===== *)
theory Access
  imports Tables Common Wildmat Prefixmap
begin

text \<open>
  \<open>access.c\<close>: the parser of the access configuration and the lookups in its tables. A
  configuration file is the list of the lines \<open>fgets\<close> returns; a parser that reads on
  (\<open>profile_copycfg\<close>, \<open>vhost_copycfg\<close>) takes the lines that follow and returns those it
  leaves. The file system is a map from names to such lists. Every copy into a fixed buffer and
  every use of a table's counter is checked: outside its bounds the outcome is \<open>Undef\<close>. The
  messages of \<open>die\<close> are cut to their fixed part.
\<close>

section \<open>Lookups\<close>

definition getalias :: "string \<Rightarrow> master_t \<Rightarrow> nat option" where
  "getalias name m = find_index (\<lambda>r. strcmp (al_name r) name = 0) (m_aliases m)"

definition get_args :: "string \<Rightarrow> master_t \<Rightarrow> nat option" where
  "get_args name m = find_index (\<lambda>r. strcmp (ar_name r) name = 0) (m_args m)"

definition getprofile :: "string \<Rightarrow> master_t \<Rightarrow> nat option" where
  "getprofile name m = find_index (\<lambda>r. strcmp (p_Name r) name = 0) (m_profiles m)"

definition getwildmatptr :: "string \<Rightarrow> master_t \<Rightarrow> nat option" where
  "getwildmatptr name m = find_index (\<lambda>r. strcmp (w_name r) name = 0) (m_wildmats m)"

definition getwildmat :: "string option \<Rightarrow> master_t \<Rightarrow> string option" where
  "getwildmat name m =
     (if nullstr name then Some ''*''
      else map_option (\<lambda>i. w_pattern (m_wildmats m ! i))
             (find_index (\<lambda>r. strcmp (w_name r) (the name) = 0) (m_wildmats m)))"

definition getauth :: "string \<Rightarrow> master_t \<Rightarrow> nat option" where
  "getauth username m = find_index (\<lambda>r. uwildmat_simple username (au_mask r)) (m_auths m)"

definition getauthmask :: "string \<Rightarrow> master_t \<Rightarrow> nat option" where
  "getauthmask msk m = find_index (\<lambda>r. strcmp (au_mask r) msk = 0) (m_auths m)"

definition getvhost :: "string \<Rightarrow> master_t \<Rightarrow> nat option" where
  "getvhost ip m = find_index (\<lambda>r. strcmp (v_ipaddress r) ip = 0) (m_vhosts m)"

definition getacl :: "nat \<Rightarrow> master_t \<Rightarrow> nat option" where
  "getacl ipaddr m = find_index (\<lambda>a. acl_start a \<le> ipaddr \<and> ipaddr \<le> acl_end a) (m_acls m)"

definition getacl_real :: "nat \<Rightarrow> nat \<Rightarrow> master_t \<Rightarrow> nat option" where
  "getacl_real ipaddr sz m = find_index (\<lambda>a. ipaddr = acl_start a \<and> sz = acl_size a) (m_acls m)"

section \<open>One-line statements\<close>

text \<open>
  The row writes: the row of the name, or the one at the counter, which is written before the
  counter is compared with the size of the array.
\<close>

definition put_alias :: "alias_t \<Rightarrow> master_t \<Rightarrow> master_t outcome" where
  "put_alias r m =
     (case getalias (al_name r) m of
        Some i \<Rightarrow> Ok (m\<lparr>m_aliases := (m_aliases m)[i := r]\<rparr>)
      | None \<Rightarrow> if MAX_ALIASES \<le> length (m_aliases m) then Undef
                else Ok (m\<lparr>m_aliases := m_aliases m @ [r]\<rparr>))"

definition put_args :: "args_t \<Rightarrow> master_t \<Rightarrow> master_t outcome" where
  "put_args r m =
     (case get_args (ar_name r) m of
        Some i \<Rightarrow> Ok (m\<lparr>m_args := (m_args m)[i := r]\<rparr>)
      | None \<Rightarrow> if MAX_ARGS \<le> length (m_args m) then Undef
                else Ok (m\<lparr>m_args := m_args m @ [r]\<rparr>))"

definition put_wildmat :: "wildmat_t \<Rightarrow> master_t \<Rightarrow> master_t outcome" where
  "put_wildmat r m =
     (case getwildmatptr (w_name r) m of
        Some i \<Rightarrow> Ok (m\<lparr>m_wildmats := (m_wildmats m)[i := r]\<rparr>)
      | None \<Rightarrow> if MAX_WILDMATS \<le> length (m_wildmats m) then Undef
                else Ok (m\<lparr>m_wildmats := m_wildmats m @ [r]\<rparr>))"

definition put_auth :: "auth_t \<Rightarrow> master_t \<Rightarrow> master_t outcome" where
  "put_auth r m =
     (case getauthmask (au_mask r) m of
        Some i \<Rightarrow> Ok (m\<lparr>m_auths := (m_auths m)[i := r]\<rparr>)
      | None \<Rightarrow> if MAX_AUTHS \<le> length (m_auths m) then Undef
                else Ok (m\<lparr>m_auths := m_auths m @ [r]\<rparr>))"

abbreviation nonblank :: "char \<Rightarrow> bool" where
  "nonblank c \<equiv> \<not> blank c"

abbreviation noneol :: "char \<Rightarrow> bool" where
  "noneol c \<equiv> \<not> eol c"

definition parsecfg_alias :: "string \<Rightarrow> master_t \<Rightarrow> master_t outcome" where
  "parsecfg_alias buf m =
     (let fmt = [FLit ''alias'', FSkip blank, FCls nonblank (Some 256), FSkip blank,
                 FCls nonblank (Some 256), FSkip blank, FCls noneol (Some 256)];
          vs = sscanf fmt buf;
          name = sv vs 0 []; lib = sv vs 1 []; args = sv vs 2 []
      in if MAX_STRING \<le> length name \<or> MAX_STRING \<le> length lib \<or> MAX_STRING \<le> length args then Undef
         else if sscanf_ret fmt buf < 2 then Die ''Alias config syntax error''
         else put_alias \<lparr>al_name = name, al_lib = lib, al_args = args\<rparr> m)"

definition parsecfg_args :: "string \<Rightarrow> master_t \<Rightarrow> master_t outcome" where
  "parsecfg_args buf m =
     (let fmt = [FLit ''args'', FSkip blank, FCls nonblank (Some 256), FSkip blank,
                 FCls noneol (Some 256)];
          vs = sscanf fmt buf;
          name = sv vs 0 []; args = sv vs 1 []
      in if MAX_STRING \<le> length name \<or> MAX_STRING \<le> length args then Undef
         else if sscanf_ret fmt buf < 2 then Die ''Alias config syntax error''
         else put_args \<lparr>ar_name = name, ar_args = args\<rparr> m)"

definition parsecfg_wildmat :: "string \<Rightarrow> master_t \<Rightarrow> master_t outcome" where
  "parsecfg_wildmat buf m =
     (let fmt = [FLit ''wildmat'', FSkip blank, FCls nonblank (Some 128), FSkip blank, FStr (Some 1024)];
          vs = sscanf fmt buf;
          name = sv vs 0 []; val = sv vs 1 []
      in if 128 \<le> length name \<or> 1024 \<le> length val then Undef
         else if sscanf_ret fmt buf \<noteq> 2 then Die ''Wildmat config syntax error''
         else obind (strcpy_to 32 name) (\<lambda>name. put_wildmat \<lparr>w_pattern = val, w_name = name\<rparr> m))"

definition parsecfg_auth :: "string \<Rightarrow> master_t \<Rightarrow> master_t outcome" where
  "parsecfg_auth buf m =
     (let fmt = [FLit ''auth'', FSkip blank, FStr (Some 255), FStr (Some 31), FStr (Some 31)];
          vs = sscanf fmt buf;
          msk = sv vs 0 []; al = sv vs 1 []; profile = sv vs 2 []
      in if sscanf_ret fmt buf \<le> 0 then Die ''Parse error''
         else (case getalias (if al = [] then ''auth_default'' else al) m of
             None \<Rightarrow> Die ''Undefined Alias''
           | Some a \<Rightarrow>
               (case getprofile (if profile = [] then ''default'' else profile) m of
                  None \<Rightarrow> Die ''Undefined Profile''
                | Some p \<Rightarrow>
                    (case getauthmask msk m of
                       Some i \<Rightarrow> put_auth \<lparr>au_mask = msk, au_auth = a, au_profile = p\<rparr> m
                     | None \<Rightarrow> obind (strcpy_to 128 msk)
                         (\<lambda>msk. put_auth \<lparr>au_mask = msk, au_auth = a, au_profile = p\<rparr> m)))))"

section \<open>Address ranges\<close>

text \<open>
  \<open>prefix_size\<close> is \<open>ipaddrs\<close>: the shift of a signed 1 by a negative count, or into the sign
  bit, is undefined.
\<close>

definition prefix_size :: "string \<Rightarrow> nat outcome" where
  "prefix_size pfx =
     (let l = atol pfx in
      if l = 0 then Ok 0xFFFFFFFF
      else if l < 2 \<or> 32 < l then Undef
      else Ok (2 ^ nat (32 - l) - 1))"

definition acl_clear :: "acl_t \<Rightarrow> acl_t" where
  "acl_clear a = a\<lparr>acl_read := False, acl_stats := False, acl_post := False, acl_apost := False,
     acl_deny := False, acl_auth := False, acl_unlimit := False\<rparr>"

definition acl_flag :: "string \<Rightarrow> acl_t \<Rightarrow> acl_t option" where
  "acl_flag p a =
     (if strcaseeq p ''read'' then Some (a\<lparr>acl_read := True\<rparr>)
      else if strcaseeq p ''stats'' then Some (a\<lparr>acl_stats := True\<rparr>)
      else if strcaseeq p ''post'' then Some (a\<lparr>acl_post := True\<rparr>)
      else if strcaseeq p ''apost'' then Some (a\<lparr>acl_apost := True\<rparr>)
      else if strcaseeq p ''deny'' then Some (a\<lparr>acl_deny := True\<rparr>)
      else if strcaseeq p ''auth'' then Some (a\<lparr>acl_auth := True\<rparr>)
      else if strcaseeq p ''unlimit'' then Some (a\<lparr>acl_unlimit := True\<rparr>)
      else None)"

fun acl_flags :: "string list \<Rightarrow> acl_t \<Rightarrow> acl_t outcome" where
  "acl_flags [] a = Ok a"
| "acl_flags (p # ps) a =
     (case acl_flag p a of None \<Rightarrow> Die ''ACL Syntax Error'' | Some b \<Rightarrow> acl_flags ps b)"

definition blank_acl :: acl_t where
  "blank_acl = \<lparr>acl_start = 0, acl_end = 0, acl_size = 0, acl_profile = None, acl_read = False,
     acl_post = False, acl_apost = False, acl_deny = False, acl_auth = False, acl_stats = False,
     acl_unlimit = False\<rparr>"

text \<open>The part of \<open>parsecfg_acl\<close> after the line is split and the range is known.\<close>

definition acl_entry :: "nat \<Rightarrow> nat \<Rightarrow> string \<Rightarrow> string \<Rightarrow> master_t \<Rightarrow> master_t outcome" where
  "acl_entry start sz acs profile m =
     (if profile \<noteq> [] \<and> getprofile profile m = None then Die ''Undefined profile''
      else
        (let prof = getprofile (if profile = [] then ''default'' else profile) m;
             old = getacl_real start sz m;
             base = (case old of Some i \<Rightarrow> m_acls m ! i | None \<Rightarrow> blank_acl);
             toks = strtok '','' acs
         in if old = None \<and> MAX_ACLS \<le> length (m_acls m) then Undef
            else if toks = [] then Undef
            else obind (acl_flags toks (acl_clear (base\<lparr>acl_profile := prof\<rparr>))) (\<lambda>a.
              let b = a\<lparr>acl_start := start, acl_end := start + sz, acl_size := sz\<rparr>
              in Ok (case old of
                       Some i \<Rightarrow> m\<lparr>m_acls := (m_acls m)[i := b]\<rparr>
                     | None \<Rightarrow> m\<lparr>m_acls := m_acls m @ [b]\<rparr>))))"

definition acl_format :: "conv list" where
  "acl_format = [FLit ''acl'', FSkip blank, FCls (\<lambda>c. isdigit_c c \<or> c = CHR ''.'') (Some 15),
     FSkip (\<lambda>c. c = CHR ''/''), FCls isdigit_c (Some 2), FWs, FStr (Some 64), FSkip blank, FStr (Some 32)]"

definition parsecfg_acl :: "string \<Rightarrow> master_t \<Rightarrow> master_t outcome" where
  "parsecfg_acl buf m =
     (let vs = sscanf acl_format buf;
          ip = sv vs 0 []; pfx = sv vs 1 []; acs = sv vs 2 []; profile = sv vs 3 []
      in if 64 \<le> length acs \<or> 32 \<le> length profile then Undef
         else if sscanf_ret acl_format buf < 3 then Die ''Wrong ACL entry''
         else (case inet_aton ip of
             None \<Rightarrow> Undef
           | Some start \<Rightarrow> obind (prefix_size pfx) (\<lambda>sz. acl_entry start sz acs profile m)))"

section \<open>Profiles\<close>

definition int_ok :: "int \<Rightarrow> bool" where
  "int_ok i \<longleftrightarrow> - (2 ^ 31) \<le> i \<and> i < 2 ^ 31"

definition cdiv :: "int \<Rightarrow> int \<Rightarrow> int" where
  \<comment> \<open>C's division, towards zero\<close>
  "cdiv a b = (if 0 \<le> a then a div b else - ((- a) div b))"

definition bps_of :: "string \<Rightarrow> int \<Rightarrow> nat outcome" where
  \<comment> \<open>\<open>atoi(val) * k / 8\<close> assigned to an unsigned int\<close>
  "bps_of val k = (let i = atoi val * k in if int_ok i then Ok (u32 (cdiv i 8)) else Undef)"

text \<open>
  The \<open>do ... while\<close> of \<open>parsecfg_limits\<close> over the remaining tokens: a pair that lacks its
  second number, or no token at all, hands a null pointer to \<open>atoi\<close>; the array is not checked.
\<close>

fun limit_loop :: "nat \<Rightarrow> string list \<Rightarrow> limits_t list \<Rightarrow> limits_t list outcome" where
  "limit_loop num (g # k # toks) acc =
     (if MAX_DAYLIMITS \<le> num then Undef
      else let acc' = acc @ [\<lparr>l_gb = atoi g, l_kbit = atoi k\<rparr>] in
           if toks = [] then Ok acc' else limit_loop (num + 1) toks acc')"
| "limit_loop num _ acc = Undef"

definition parsecfg_limits :: "string \<Rightarrow> profile_t \<Rightarrow> profile_t outcome" where
  "parsecfg_limits args pf =
     obind (limit_loop 0 (strtok '',: '' args) []) (\<lambda>ls. Ok (pf\<lparr>p_Limits := ls\<rparr>))"

definition profile_option :: "string \<Rightarrow> string \<Rightarrow> master_t \<Rightarrow> profile_t \<Rightarrow> profile_t outcome" where
  "profile_option key val m pf =
     (if strcaseeq key ''ReadPat'' then
        (if getwildmat (Some val) m = None then Die ''Unknown wildmat''
         else Ok (pf\<lparr>p_ReadPat := val\<rparr>))
      else if strcaseeq key ''PostPat'' then
        (if getwildmat (Some val) m = None then Die ''Unknown wildmat''
         else Ok (pf\<lparr>p_PostPat := val\<rparr>))
      else if strcaseeq key ''Banner'' then Ok pf
      else if strcaseeq key ''ReplaceBanner'' then Ok pf
      else if strcaseeq key ''MaxConnections'' then Ok (pf\<lparr>p_MaxConnections := atoi val\<rparr>)
      else if strcaseeq key ''MaxUserConcurrent'' then Ok (pf\<lparr>p_MaxUserConcurrent := atoi val\<rparr>)
      else if strcaseeq key ''MaxHostConcurrent'' then Ok (pf\<lparr>p_MaxHostConcurrent := atoi val\<rparr>)
      else if strcaseeq key ''ASMaxConns'' then Ok (pf\<lparr>p_ASMaxConns := atoi val\<rparr>)
      else if strcaseeq key ''ASMaxHosts'' then Ok (pf\<lparr>p_ASMaxHosts := atoi val\<rparr>)
      else if strcaseeq key ''Slave'' then Ok (pf\<lparr>p_Slave := atoi val\<rparr>)
      else if strcaseeq key ''MaxUsers'' then Ok (pf\<lparr>p_MaxUsers := atoi val\<rparr>)
      else if strcaseeq key ''MaxSessionTime'' then Ok (pf\<lparr>p_MaxSessionTime := atoi val\<rparr>)
      else if strcaseeq key ''MaxSessionBytes'' then Ok (pf\<lparr>p_MaxSessionBytes := u64 (atol val)\<rparr>)
      else if strcaseeq key ''MaxUserBPS'' then Ok (pf\<lparr>p_MaxUserBPS := u32 (atoi val)\<rparr>)
      else if strcaseeq key ''MaxUserKbit'' then
        obind (bps_of val 1000) (\<lambda>b. Ok (pf\<lparr>p_MaxUserBPS := b\<rparr>))
      else if strcaseeq key ''MaxUserMbit'' then
        obind (bps_of val 1000000) (\<lambda>b. Ok (pf\<lparr>p_MaxUserBPS := b\<rparr>))
      else if strcaseeq key ''MaxProfileBPS'' then Ok (pf\<lparr>p_MaxProfileBPS := u32 (atoi val)\<rparr>)
      else if strcaseeq key ''MaxProfileKbit'' then
        obind (bps_of val 1000) (\<lambda>b. Ok (pf\<lparr>p_MaxProfileBPS := b\<rparr>))
      else if strcaseeq key ''MaxProfileMbit'' then
        obind (bps_of val 1000000) (\<lambda>b. Ok (pf\<lparr>p_MaxProfileBPS := b\<rparr>))
      else if strcaseeq key ''XComplaintsTo'' then Ok (pf\<lparr>p_XComplaintsTo := val\<rparr>)
      else if strcaseeq key ''Organization'' then Ok (pf\<lparr>p_Organization := val\<rparr>)
      else if strcaseeq key ''ForceOrganization'' then Ok (pf\<lparr>p_ForceOrganization := atoi val\<rparr>)
      else if strcaseeq key ''AddNNTPPostingHost'' then Ok (pf\<lparr>p_AddNNTPPostingHost := atoi val\<rparr>)
      else if strcaseeq key ''MaxCross'' then Ok (pf\<lparr>p_MaxCross := atoi val\<rparr>)
      else if strcaseeq key ''NoControl'' then Ok (pf\<lparr>p_NoControl := atoi val\<rparr>)
      else if strcaseeq key ''ArticleSearch'' then Ok (pf\<lparr>p_ArticleSearch := atoi val\<rparr>)
      else if strcaseeq key ''Hostname'' then Ok (pf\<lparr>p_Hostname := val\<rparr>)
      else if strcaseeq key ''FooterFile'' then Ok (pf\<lparr>p_FooterFile := val\<rparr>)
      else if strcaseeq key ''UserRLFactorU'' then Ok (pf\<lparr>p_UserRLFactorU := atof val\<rparr>)
      else if strcaseeq key ''UserRLFactorD'' then Ok (pf\<lparr>p_UserRLFactorD := atof val\<rparr>)
      else if strcaseeq key ''ProfileRLFactorD'' then Ok (pf\<lparr>p_ProfileRLFactorD := atof val\<rparr>)
      else if strcaseeq key ''ProfileRLFactorU'' then Ok (pf\<lparr>p_ProfileRLFactorU := atof val\<rparr>)
      else if strcaseeq key ''ClientReadTimeout'' then Ok (pf\<lparr>p_ClientReadTimeout := atoi val\<rparr>)
      else if strcaseeq key ''Limits'' then parsecfg_limits val pf
      else if strcaseeq key ''Accounting'' then
        (if getalias val m = None then Die ''Unknown Accounting''
         else Ok (pf\<lparr>p_Accounting := getalias val m\<rparr>))
      else if strcaseeq key ''AccountingPrefix'' then Ok (pf\<lparr>p_AccountingPrefix := val\<rparr>)
      else if strcaseeq key ''Disabled'' then Ok (pf\<lparr>p_Disabled := val\<rparr>)
      else if strcaseeq key ''Retention'' then Ok (pf\<lparr>p_Retention := u32 (atoi val)\<rparr>)
      else if strcaseeq key ''XHeaderSSLUpload'' then Ok (pf\<lparr>p_XHeaderSSLUpload := val\<rparr>)
      else if strcaseeq key ''AllowSSL'' then Ok (pf\<lparr>p_AllowSSL := atoi val\<rparr>)
      else if strcaseeq key ''PrefixMap'' then
        (if getpfxmap val m = None then Die ''Unknown prefixmap''
         else Ok (pf\<lparr>p_PrefixMap := getpfxmap val m\<rparr>))
      else if strcaseeq key ''FailProfile'' then
        (if getprofile val m = None then Die ''Unknown failprofile''
         else Ok (pf\<lparr>p_FailProfile := getprofile val m\<rparr>))
      else Die ''Unknown profile option'')"

text \<open>The lines of a block up to \<open>end\<close> or the end of the file, each split into key and value.\<close>

definition option_line :: "string \<Rightarrow> (string \<times> string) option" where
  "option_line buf =
     (let fmt = [FSkip blank, FStr (Some 64), FSkip blank, FCls noneol (Some 192),
                 FSkip (\<lambda>c. c = TAB \<or> eol c)];
          vs = sscanf fmt buf
      in if sscanf_ret fmt buf \<noteq> 2 then None else Some (sv vs 0 [], sv vs 1 []))"

definition is_comment :: "string \<Rightarrow> bool" where
  "is_comment buf \<longleftrightarrow> buf = [] \<or> hd buf = CHR '';'' \<or> hd buf = CHR ''#''"

fun profile_lines :: "string list \<Rightarrow> master_t \<Rightarrow> profile_t \<Rightarrow> (profile_t \<times> string list) outcome" where
  "profile_lines [] m pf = Ok (pf, [])"
| "profile_lines (l # ls) m pf =
     obind (chop l) (\<lambda>buf.
       if is_comment buf then profile_lines ls m pf
       else if strncaseeq buf ''end'' 3 then Ok (pf, ls)
       else (case option_line buf of
           None \<Rightarrow> Die ''Error on line''
         | Some (key, val) \<Rightarrow> obind (profile_option key val m pf) (\<lambda>pf'. profile_lines ls m pf')))"

fun footer_lines :: "string list \<Rightarrow> string \<Rightarrow> string outcome" where
  "footer_lines [] acc = Ok acc"
| "footer_lines (l # ls) acc =
     obind (striprn l) (\<lambda>t. footer_lines ls (take (MAX_FOOTER - 1) (acc @ t @ CRLF)))"

definition cfg_load_footer :: "files \<Rightarrow> profile_t \<Rightarrow> profile_t outcome" where
  "cfg_load_footer fs pf =
     (if p_FooterFile pf = [] then Ok pf
      else (case fs (p_FooterFile pf) of
          None \<Rightarrow> Die ''Can't open FooterFile''
        | Some ls \<Rightarrow> obind (footer_lines ls []) (\<lambda>f. Ok (pf\<lparr>p_Footer := f, p_FooterSize := length f\<rparr>))))"

definition RL_INITVAL :: real where
  "RL_INITVAL = 100000"

definition profile_defaults :: "cfg_t \<Rightarrow> profile_t \<Rightarrow> profile_t" where
  "profile_defaults cfg pf =
     (let d = (\<lambda>f. if f = 0 then 14 / 10 else f :: real) in
      pf\<lparr>p_UserRLFactorD := d (p_UserRLFactorD pf), p_UserRLFactorU := d (p_UserRLFactorU pf),
         p_ProfileRLFactorD := d (p_ProfileRLFactorD pf), p_ProfileRLFactorU := d (p_ProfileRLFactorU pf),
         p_ClientReadTimeout :=
           (if p_ClientReadTimeout pf = 0 then cf_ClientReadTimeout cfg else p_ClientReadTimeout pf),
         p_rl := (p_rl pf)\<lparr>rl_sleep := RL_INITVAL\<rparr>\<rparr>)"

definition profile_copycfg ::
  "files \<Rightarrow> cfg_t \<Rightarrow> string list \<Rightarrow> master_t \<Rightarrow> profile_t \<Rightarrow> (profile_t \<times> string list) outcome" where
  "profile_copycfg fs cfg ls m pf =
     obind (profile_lines ls m pf) (\<lambda>(pf1, rest).
       let pf2 = profile_defaults cfg pf1 in
       if p_Hostname pf2 = [] then Die ''Hostname not defined for profile''
       else obind (cfg_load_footer fs pf2) (\<lambda>pf3. Ok (pf3, rest)))"

definition reset_counters :: "profile_t \<Rightarrow> profile_t" where
  "reset_counters pf = pf\<lparr>p_connections := 0, p_numusers := 0, p_realusers := 0, p_bytes := 0, p_articles := 0\<rparr>"

definition parsecfg_profile ::
  "files \<Rightarrow> cfg_t \<Rightarrow> string \<Rightarrow> string list \<Rightarrow> master_t \<Rightarrow> (master_t \<times> string list) outcome" where
  "parsecfg_profile fs cfg buf ls m =
     (let fmt = [FStr None, FWs, FStr None];
          vs = sscanf fmt buf;
          key = sv vs 0 []; val = sv vs 1 []
      in if 256 \<le> length key \<or> 256 \<le> length val then Undef
         else if sscanf_ret fmt buf \<noteq> 2 then Die ''Profile Syntax error''
         else (case getprofile val m of
             Some i \<Rightarrow> obind (profile_copycfg fs cfg ls m (m_profiles m ! i)) (\<lambda>(pf, rest).
               Ok (m\<lparr>m_profiles := (m_profiles m)[i := pf]\<rparr>, rest))
           | None \<Rightarrow>
               if MAX_PROFILES \<le> length (m_profiles m) then Undef
               else obind (if val = ''default'' then Ok zero_profile
                      else (case getprofile ''default'' m of
                          None \<Rightarrow> Die ''Could not retrieve default profile''
                        | Some d \<Rightarrow> Ok (reset_counters (m_profiles m ! d)))) (\<lambda>base.
                 obind (strcpy_to 32 val) (\<lambda>name.
                 obind (profile_copycfg fs cfg ls m (base\<lparr>p_Name := name\<rparr>)) (\<lambda>(pf, rest).
                   Ok (m\<lparr>m_profiles := m_profiles m @ [pf]\<rparr>, rest))))))"

section \<open>Virtual hosts\<close>

definition vhost_option :: "string \<Rightarrow> string \<Rightarrow> vhost_t \<Rightarrow> vhost_t outcome" where
  "vhost_option key val vh =
     (if strcaseeq key ''Banner'' then Ok (vh\<lparr>v_Banner := val\<rparr>)
      else if strcaseeq key ''ReplaceBanner'' then Ok (vh\<lparr>v_ReplaceBanner := atoi val\<rparr>)
      else if strcaseeq key ''AddSuffix'' then obind (strcpy_to 64 val) (\<lambda>s. Ok (vh\<lparr>v_AddSuffix := s\<rparr>))
      else if strcaseeq key ''SSLKeyfile'' then obind (strcpy_to 128 val) (\<lambda>s. Ok (vh\<lparr>v_SSLKeyFile := s\<rparr>))
      else if strcaseeq key ''SSLCAList'' then obind (strcpy_to 128 val) (\<lambda>s. Ok (vh\<lparr>v_SSLCAList := s\<rparr>))
      else if strcaseeq key ''SSLPassword'' then obind (strcpy_to 64 val) (\<lambda>s. Ok (vh\<lparr>v_SSLPassword := s\<rparr>))
      else Die ''Unknown vhost option'')"

fun vhost_lines :: "string list \<Rightarrow> vhost_t \<Rightarrow> (vhost_t \<times> string list) outcome" where
  "vhost_lines [] vh = Ok (vh, [])"
| "vhost_lines (l # ls) vh =
     obind (chop l) (\<lambda>buf.
       if is_comment buf then vhost_lines ls vh
       else if strncaseeq buf ''end'' 3 then Ok (vh, ls)
       else (case option_line buf of
           None \<Rightarrow> Die ''Error on line''
         | Some (key, val) \<Rightarrow> obind (vhost_option key val vh) (vhost_lines ls)))"

text \<open>\<open>ssl\<close> stands for \<open>ssl_init_ctx\<close>: key file, password, CA list.\<close>

type_synonym ssl_init = "string \<Rightarrow> string \<Rightarrow> string \<Rightarrow> nat option"

definition vhost_copycfg ::
  "cfg_t \<Rightarrow> ssl_init \<Rightarrow> string list \<Rightarrow> vhost_t \<Rightarrow> (vhost_t \<times> string list) outcome" where
  "vhost_copycfg cfg ssl ls vh =
     obind (vhost_lines ls vh) (\<lambda>(v, rest).
       Ok (v\<lparr>v_ssl_ctx := (if cf_EnableSSL cfg then ssl (v_SSLKeyFile v) (v_SSLPassword v) (v_SSLCAList v)
                           else None)\<rparr>, rest))"

definition parsecfg_vhost ::
  "cfg_t \<Rightarrow> ssl_init \<Rightarrow> string \<Rightarrow> string list \<Rightarrow> master_t \<Rightarrow> (master_t \<times> string list) outcome" where
  "parsecfg_vhost cfg ssl buf ls m =
     (let fmt = [FStr None, FWs, FStr None];
          vs = sscanf fmt buf;
          key = sv vs 0 []; val = sv vs 1 []
      in if 256 \<le> length key \<or> 256 \<le> length val then Undef
         else if sscanf_ret fmt buf \<noteq> 2 then Die ''Vhost Syntax error''
         else (case getvhost val m of
             Some i \<Rightarrow> obind (vhost_copycfg cfg ssl ls (m_vhosts m ! i)) (\<lambda>(v, rest).
               Ok (m\<lparr>m_vhosts := (m_vhosts m)[i := v]\<rparr>, rest))
           | None \<Rightarrow>
               if MAX_VHOSTS \<le> length (m_vhosts m) then Undef
               else obind (if val = ''default'' then Ok zero_vhost
                      else (case getvhost ''default'' m of
                          None \<Rightarrow> Die ''Could not retrieve default vhost''
                        | Some d \<Rightarrow> Ok (m_vhosts m ! d))) (\<lambda>base.
                 obind (vhost_copycfg cfg ssl ls (base\<lparr>v_ipaddress := val\<rparr>)) (\<lambda>(v, rest).
                   Ok (m\<lparr>m_vhosts := m_vhosts m @ [v]\<rparr>, rest)))))"

section \<open>Files and includes\<close>

text \<open>
  \<open>check_path\<close> of \<open>config.c\<close> on a buffer of \<open>n\<close> bytes: for a relative name it writes 256 bytes
  to the buffer, padded with zeros.
\<close>

definition check_path :: "cfg_t \<Rightarrow> nat \<Rightarrow> string \<Rightarrow> string outcome" where
  "check_path cfg n filename =
     (if chr_at filename 0 = CHR ''/'' then Ok filename
      else let tmp = cf_BasePath cfg @ ''/'' @ filename in
           if MAX_STRING \<le> length tmp \<or> n < MAX_STRING then Undef else Ok tmp)"

definition acs_statement ::
  "files \<Rightarrow> cfg_t \<Rightarrow> ssl_init \<Rightarrow> string \<Rightarrow> string list \<Rightarrow> master_t \<Rightarrow> (master_t \<times> string list) outcome" where
  "acs_statement fs cfg ssl buf ls m =
     (if strncaseeq buf ''profile'' 7 then parsecfg_profile fs cfg buf ls m
      else if strncaseeq buf ''wildmat'' 7 then
        (if cf_RemoteConfig cfg then Ok (m, ls) else obind (parsecfg_wildmat buf m) (\<lambda>m. Ok (m, ls)))
      else if strncaseeq buf ''alias'' 5 then obind (parsecfg_alias buf m) (\<lambda>m. Ok (m, ls))
      else if strncaseeq buf ''acl'' 3 then obind (parsecfg_acl buf m) (\<lambda>m. Ok (m, ls))
      else if strncaseeq buf ''auth'' 4 then obind (parsecfg_auth buf m) (\<lambda>m. Ok (m, ls))
      else if strncaseeq buf ''args'' 4 then obind (parsecfg_args buf m) (\<lambda>m. Ok (m, ls))
      else if strncaseeq buf ''pfxmap'' 3 then obind (parsecfg_map fs buf m) (\<lambda>m. Ok (m, ls))
      else if strncaseeq buf ''vhost'' 5 then parsecfg_vhost cfg ssl buf ls m
      else Die ''Syntax error'')"

text \<open>The name of an included file: \<open>acfile\<close> keeps its value when the line has no name.\<close>

definition include_name :: "cfg_t \<Rightarrow> string \<Rightarrow> string \<Rightarrow> string outcome" where
  "include_name cfg acfile buf =
     (let vs = sscanf [FStr None, FWs, FStr None] buf; name = sv vs 1 acfile in
      if 128 \<le> length name then Undef else check_path cfg 128 name)"

definition is_include :: "string \<Rightarrow> bool" where
  "is_include buf \<longleftrightarrow> strncaseeq buf ''include'' 7"

text \<open>
  The lines of a file and of the files it includes; a file that includes itself is read for ever,
  the value \<open>None\<close>.
\<close>

partial_function (option) read_acs ::
  "files \<Rightarrow> cfg_t \<Rightarrow> ssl_init \<Rightarrow> string \<Rightarrow> string list \<Rightarrow> master_t \<Rightarrow> master_t outcome option" where
  "read_acs fs cfg ssl acfile lines m =
     (case lines of
        [] \<Rightarrow> Some (Ok m)
      | l # ls \<Rightarrow>
          (case chop l of
             Undef \<Rightarrow> Some Undef
           | Die e \<Rightarrow> Some (Die e)
           | Ok buf \<Rightarrow>
               if is_comment buf then read_acs fs cfg ssl acfile ls m
               else if is_include buf then
                 (case include_name cfg acfile buf of
                    Undef \<Rightarrow> Some Undef
                  | Die e \<Rightarrow> Some (Die e)
                  | Ok name \<Rightarrow>
                      (case fs name of
                         None \<Rightarrow> Some (Die ''Can't open profile config'')
                       | Some inc \<Rightarrow> Option.bind (read_acs fs cfg ssl name inc m)
                           (\<lambda>r. case r of Ok m' \<Rightarrow> read_acs fs cfg ssl acfile ls m'
                                | Die e \<Rightarrow> Some (Die e) | Undef \<Rightarrow> Some Undef)))
               else
                 (case acs_statement fs cfg ssl buf ls m of
                    Ok (m', rest) \<Rightarrow> read_acs fs cfg ssl acfile rest m'
                  | Die e \<Rightarrow> Some (Die e)
                  | Undef \<Rightarrow> Some Undef)))"

declare read_acs.simps [code]

definition read_acs_file ::
  "files \<Rightarrow> cfg_t \<Rightarrow> ssl_init \<Rightarrow> string \<Rightarrow> master_t \<Rightarrow> master_t outcome option" where
  "read_acs_file fs cfg ssl acfile m =
     (case fs acfile of None \<Rightarrow> Some (Die ''Can't open profile config'')
      | Some ls \<Rightarrow> read_acs fs cfg ssl acfile ls m)"

text \<open>
  The checks after loading. \<open>authmod\<close> and \<open>acctmod\<close> say which modules are compiled in
  (\<open>find_auth_mod\<close>, \<open>find_acct_mod\<close> search a generated table). A profile without an
  accounting alias makes the last loop follow a null pointer.
\<close>

definition check_modules :: "(string \<Rightarrow> bool) \<Rightarrow> (string \<Rightarrow> bool) \<Rightarrow> master_t \<Rightarrow> master_t outcome" where
  "check_modules authmod acctmod m =
     (if getprofile ''default'' m = None then Die ''Profile \"default\" not defined''
      else if getalias ''auth_default'' m = None then Die ''Alias not defined''
      else if getalias ''acct_default'' m = None then Die ''Alias not defined''
      else if list_ex (\<lambda>a. \<not> authmod (al_lib (m_aliases m ! au_auth a))) (m_auths m)
      then Die ''Unknown authorization module''
      else (case find_index (\<lambda>p. case p_Accounting p of None \<Rightarrow> True
                               | Some a \<Rightarrow> \<not> acctmod (al_lib (m_aliases m ! a))) (m_profiles m) of
              None \<Rightarrow> Ok m
            | Some i \<Rightarrow> if p_Accounting (m_profiles m ! i) = None then Undef
                        else Die ''Unknown accounting module''))"

text \<open>\<open>wmats\<close> stands for \<open>rconf_getwmats\<close>, which fetches the wildmats over HTTP.\<close>

definition load_access_conf ::
  "files \<Rightarrow> cfg_t \<Rightarrow> ssl_init \<Rightarrow> (master_t \<Rightarrow> master_t outcome) \<Rightarrow> (string \<Rightarrow> bool) \<Rightarrow> (string \<Rightarrow> bool) \<Rightarrow>
   master_t \<Rightarrow> master_t outcome option" where
  "load_access_conf fs cfg ssl wmats authmod acctmod m =
     (case (if cf_RemoteConfig cfg then wmats m else Ok m) of
        Die e \<Rightarrow> Some (Die e)
      | Undef \<Rightarrow> Some Undef
      | Ok m1 \<Rightarrow>
          if 128 \<le> length (cf_AccessFile cfg) then Some Undef
          else map_option (\<lambda>r. obind r (check_modules authmod acctmod))
                 (read_acs_file fs cfg ssl (cf_AccessFile cfg) m1))"

section \<open>The tables are keyed tables\<close>

interpretation al: keyed_table m_aliases al_name MAX_ALIASES getalias put_alias
  by unfold_locales (auto simp: getalias_def put_alias_def split: option.splits)

interpretation ar: keyed_table m_args ar_name MAX_ARGS get_args put_args
  by unfold_locales (auto simp: get_args_def put_args_def split: option.splits)

interpretation wm: keyed_table m_wildmats w_name MAX_WILDMATS getwildmatptr put_wildmat
  by unfold_locales (auto simp: getwildmatptr_def put_wildmat_def split: option.splits)

interpretation au: keyed_table m_auths au_mask MAX_AUTHS getauthmask put_auth
  by unfold_locales (auto simp: getauthmask_def put_auth_def split: option.splits)

section \<open>References between the tables\<close>

definition ref_ok :: "nat \<Rightarrow> nat option \<Rightarrow> bool" where
  "ref_ok n r \<longleftrightarrow> (case r of None \<Rightarrow> True | Some i \<Rightarrow> i < n)"

definition profile_ok :: "master_t \<Rightarrow> profile_t \<Rightarrow> bool" where
  "profile_ok m p \<longleftrightarrow> ref_ok (length (m_aliases m)) (p_Accounting p)
     \<and> ref_ok (length (m_pfxmaps m)) (p_PrefixMap p) \<and> ref_ok (length (m_profiles m)) (p_FailProfile p)
     \<and> length (p_Limits p) \<le> MAX_DAYLIMITS"

definition auth_ok :: "master_t \<Rightarrow> auth_t \<Rightarrow> bool" where
  "auth_ok m a \<longleftrightarrow> au_auth a < length (m_aliases m) \<and> au_profile a < length (m_profiles m)"

definition acl_ok :: "master_t \<Rightarrow> acl_t \<Rightarrow> bool" where
  "acl_ok m a \<longleftrightarrow> ref_ok (length (m_profiles m)) (acl_profile a) \<and> acl_end a = acl_start a + acl_size a"

definition acs_wf :: "master_t \<Rightarrow> bool" where
  "acs_wf m \<longleftrightarrow> (\<forall>p \<in> set (m_profiles m). profile_ok m p) \<and> (\<forall>a \<in> set (m_auths m). auth_ok m a)
     \<and> (\<forall>a \<in> set (m_acls m). acl_ok m a)
     \<and> length (m_aliases m) \<le> MAX_ALIASES \<and> length (m_args m) \<le> MAX_ARGS
     \<and> length (m_wildmats m) \<le> MAX_WILDMATS \<and> length (m_auths m) \<le> MAX_AUTHS
     \<and> length (m_profiles m) \<le> MAX_PROFILES \<and> length (m_acls m) \<le> MAX_ACLS
     \<and> length (m_vhosts m) \<le> MAX_VHOSTS \<and> length (m_pfxmaps m) \<le> MAX_PFXMAPS"

definition same_or_longer :: "master_t \<Rightarrow> master_t \<Rightarrow> bool" where
  "same_or_longer m m' \<longleftrightarrow> length (m_aliases m) \<le> length (m_aliases m')
     \<and> length (m_pfxmaps m) \<le> length (m_pfxmaps m') \<and> length (m_profiles m) \<le> length (m_profiles m')"

lemma ref_ok_mono: "ref_ok n r \<Longrightarrow> n \<le> k \<Longrightarrow> ref_ok k r"
  by (auto simp: ref_ok_def split: option.splits)

lemma ref_ok_find [intro]: "ref_ok (length xs) (find_index P xs)"
  by (auto simp: ref_ok_def split: option.splits)

lemma ok_mono:
  assumes "same_or_longer m m'"
  shows "profile_ok m p \<Longrightarrow> profile_ok m' p" and "auth_ok m a \<Longrightarrow> auth_ok m' a"
    and "acl_ok m c \<Longrightarrow> acl_ok m' c"
  using assms by (auto simp: profile_ok_def auth_ok_def acl_ok_def same_or_longer_def intro: ref_ok_mono)

lemma set_update_or: "x \<in> set (xs[i := y]) \<Longrightarrow> x = y \<or> x \<in> set xs"
  using set_update_subset_insert by fastforce

text \<open>Each statement of the configuration keeps the references in bounds.\<close>

lemma acs_wf_put_alias:
  assumes "acs_wf m" and "put_alias r m = Ok m'"
  shows "acs_wf m'"
proof -
  from assms(2) have m': "same_or_longer m m'" "m_profiles m' = m_profiles m" "m_auths m' = m_auths m"
      "m_acls m' = m_acls m" "m_args m' = m_args m" "m_wildmats m' = m_wildmats m"
      "m_vhosts m' = m_vhosts m" "m_pfxmaps m' = m_pfxmaps m"
    by (auto simp: put_alias_def same_or_longer_def split: option.splits if_splits)
  with assms al.put_length [OF assms(2)] show ?thesis
    by (auto simp: acs_wf_def intro: ok_mono)
qed

lemma acs_wf_put_args: "acs_wf m \<Longrightarrow> put_args r m = Ok m' \<Longrightarrow> acs_wf m'"
  by (auto simp: acs_wf_def profile_ok_def auth_ok_def acl_ok_def put_args_def split: option.splits if_splits)

lemma acs_wf_put_wildmat: "acs_wf m \<Longrightarrow> put_wildmat r m = Ok m' \<Longrightarrow> acs_wf m'"
  by (auto simp: acs_wf_def profile_ok_def auth_ok_def acl_ok_def put_wildmat_def split: option.splits if_splits)

lemma acs_wf_put_auth: "acs_wf m \<Longrightarrow> auth_ok m r \<Longrightarrow> put_auth r m = Ok m' \<Longrightarrow> acs_wf m'"
  by (auto simp: acs_wf_def profile_ok_def auth_ok_def acl_ok_def put_auth_def
      split: option.splits if_splits dest!: set_update_or)

lemma acs_wf_alias: "acs_wf m \<Longrightarrow> parsecfg_alias buf m = Ok m' \<Longrightarrow> acs_wf m'"
  by (auto simp: parsecfg_alias_def Let_def intro: acs_wf_put_alias split: if_splits)

lemma acs_wf_args: "acs_wf m \<Longrightarrow> parsecfg_args buf m = Ok m' \<Longrightarrow> acs_wf m'"
  by (auto simp: parsecfg_args_def Let_def intro: acs_wf_put_args split: if_splits)

lemma acs_wf_wildmat: "acs_wf m \<Longrightarrow> parsecfg_wildmat buf m = Ok m' \<Longrightarrow> acs_wf m'"
  by (auto simp: parsecfg_wildmat_def Let_def intro: acs_wf_put_wildmat split: if_splits)

lemma acs_wf_auth:
  assumes "acs_wf m" and "parsecfg_auth buf m = Ok m'"
  shows "acs_wf m'"
proof -
  from assms(2) obtain a p msk where "a < length (m_aliases m)" "p < length (m_profiles m)"
      and "put_auth \<lparr>au_mask = msk, au_auth = a, au_profile = p\<rparr> m = Ok m'"
    by (auto simp: parsecfg_auth_def Let_def getalias_def getprofile_def split: if_splits option.splits)
  with assms(1) show ?thesis by (intro acs_wf_put_auth [OF assms(1)]) (auto simp: auth_ok_def)
qed

lemma if_eqE: "(if c then x else y) = z \<Longrightarrow> (x = z \<Longrightarrow> P) \<Longrightarrow> (y = z \<Longrightarrow> P) \<Longrightarrow> P"
  by (cases c) auto

lemma acl_flag_keeps: "acl_flag p a = Some b \<Longrightarrow> acl_profile b = acl_profile a"
  unfolding acl_flag_def by (elim if_eqE) clarsimp+

lemma acl_flags_keeps: "acl_flags ps a = Ok b \<Longrightarrow> acl_profile b = acl_profile a"
proof (induction ps arbitrary: a)
  case Nil
  then show ?case by simp
next
  case (Cons p ps)
  then obtain c where c: "acl_flag p a = Some c" "acl_flags ps c = Ok b" by (cases "acl_flag p a") simp_all
  from Cons.IH [OF c(2)] acl_flag_keeps [OF c(1)] show ?case by simp
qed

lemma acl_entry_cases:
  assumes "acl_entry start sz acs profile m = Ok m'"
  obtains b where "acl_start b = start" "acl_end b = start + sz" "acl_size b = sz"
    "ref_ok (length (m_profiles m)) (acl_profile b)"
    "case getacl_real start sz m of Some i \<Rightarrow> m' = m\<lparr>m_acls := (m_acls m)[i := b]\<rparr>
     | None \<Rightarrow> length (m_acls m) < MAX_ACLS \<and> m' = m\<lparr>m_acls := m_acls m @ [b]\<rparr>"
proof -
  let ?prof = "getprofile (if profile = [] then ''default'' else profile) m"
  let ?base = "case getacl_real start sz m of Some i \<Rightarrow> m_acls m ! i | None \<Rightarrow> blank_acl"
  from assms obtain a where f: "acl_flags (strtok '','' acs) (acl_clear (?base\<lparr>acl_profile := ?prof\<rparr>)) = Ok a"
    and room: "\<not> (getacl_real start sz m = None \<and> MAX_ACLS \<le> length (m_acls m))"
    and m': "m' = (let b = a\<lparr>acl_start := start, acl_end := start + sz, acl_size := sz\<rparr> in
        case getacl_real start sz m of Some i \<Rightarrow> m\<lparr>m_acls := (m_acls m)[i := b]\<rparr>
        | None \<Rightarrow> m\<lparr>m_acls := m_acls m @ [b]\<rparr>)"
    unfolding acl_entry_def Let_def by (auto split: if_splits)
  from acl_flags_keeps [OF f] have "acl_profile a = ?prof" by (simp add: acl_clear_def)
  then have "ref_ok (length (m_profiles m)) (acl_profile a)" by (simp add: getprofile_def ref_ok_find)
  with room m' show thesis
    by (intro that [of "a\<lparr>acl_start := start, acl_end := start + sz, acl_size := sz\<rparr>"])
      (auto split: option.splits)
qed

lemma acs_wf_acl_entry:
  assumes "acs_wf m" and "acl_entry start sz acs profile m = Ok m'"
  shows "acs_wf m'"
proof -
  from assms(2) obtain b where b: "acl_end b = acl_start b + acl_size b"
      "ref_ok (length (m_profiles m)) (acl_profile b)"
    and m': "case getacl_real start sz m of Some i \<Rightarrow> m' = m\<lparr>m_acls := (m_acls m)[i := b]\<rparr>
     | None \<Rightarrow> length (m_acls m) < MAX_ACLS \<and> m' = m\<lparr>m_acls := m_acls m @ [b]\<rparr>"
    by (elim acl_entry_cases) auto
  then have "m_profiles m' = m_profiles m" "m_auths m' = m_auths m" "m_aliases m' = m_aliases m"
      "m_args m' = m_args m" "m_wildmats m' = m_wildmats m" "m_vhosts m' = m_vhosts m"
      "m_pfxmaps m' = m_pfxmaps m"
    and "\<forall>c \<in> set (m_acls m'). c = b \<or> c \<in> set (m_acls m)"
    and "length (m_acls m) \<le> MAX_ACLS \<longrightarrow> length (m_acls m') \<le> MAX_ACLS"
    by (auto split: option.splits dest: set_update_or)
  with assms(1) b show ?thesis
    by (auto simp: acs_wf_def acl_ok_def profile_ok_def auth_ok_def)
qed

lemma acs_wf_acl: "acs_wf m \<Longrightarrow> parsecfg_acl buf m = Ok m' \<Longrightarrow> acs_wf m'"
  by (auto simp: parsecfg_acl_def Let_def intro: acs_wf_acl_entry split: if_splits option.splits)

lemma parse_prefix_frame: "parsecfg_map fs buf m = Ok m' \<Longrightarrow>
   same_or_longer m m' \<and> m_profiles m' = m_profiles m \<and> m_auths m' = m_auths m \<and> m_acls m' = m_acls m
     \<and> m_aliases m' = m_aliases m \<and> m_args m' = m_args m \<and> m_wildmats m' = m_wildmats m
     \<and> m_vhosts m' = m_vhosts m
     \<and> (length (m_pfxmaps m) \<le> MAX_PFXMAPS \<longrightarrow> length (m_pfxmaps m') \<le> MAX_PFXMAPS)"
  unfolding parsecfg_map_def Let_def
  by (elim if_eqE) (auto simp: same_or_longer_def split: option.splits if_splits)

lemma acs_wf_map: "acs_wf m \<Longrightarrow> parsecfg_map fs buf m = Ok m' \<Longrightarrow> acs_wf m'"
  by (frule parse_prefix_frame) (auto simp: acs_wf_def intro: ok_mono)

text \<open>Options change neither the name nor the counters of a profile.\<close>

definition same_identity :: "profile_t \<Rightarrow> profile_t \<Rightarrow> bool" where
  "same_identity p q \<longleftrightarrow> p_Name q = p_Name p \<and> p_connections q = p_connections p
     \<and> p_numusers q = p_numusers p \<and> p_realusers q = p_realusers p \<and> p_bytes q = p_bytes p
     \<and> p_rbytes q = p_rbytes p \<and> p_articles q = p_articles p \<and> p_postbytes q = p_postbytes p
     \<and> p_postarticles q = p_postarticles p"

lemma limit_loop_length:
  "limit_loop n ts acc = Ok ls \<Longrightarrow> length acc = n \<Longrightarrow> length ls \<le> MAX_DAYLIMITS"
  by (induction n ts acc rule: limit_loop.induct) (auto simp: Let_def split: if_splits)

lemma profile_option_keeps:
  "profile_option key val m pf = Ok pf' \<Longrightarrow> profile_ok m pf \<Longrightarrow> profile_ok m pf' \<and> same_identity pf pf'"
  unfolding profile_option_def
  by (elim if_eqE; clarsimp simp: same_identity_def profile_ok_def parsecfg_limits_def getalias_def
      getprofile_def getpfxmap_def ref_ok_find limit_loop_length)

lemma same_identity_refl: "same_identity p p"
  by (simp add: same_identity_def)

lemma same_identity_trans: "same_identity p q \<Longrightarrow> same_identity q r \<Longrightarrow> same_identity p r"
  by (simp add: same_identity_def)

lemma profile_lines_keeps:
  "profile_lines ls m pf = Ok (pf', rest) \<Longrightarrow> profile_ok m pf \<Longrightarrow>
   profile_ok m pf' \<and> same_identity pf pf' \<and> length rest \<le> length ls"
proof (induction ls m pf arbitrary: pf' rest rule: profile_lines.induct)
  case (1 m pf)
  then show ?case by (simp add: same_identity_refl)
next
  case (2 l ls m pf)
  from "2.prems"(1) obtain buf where buf: "chop l = Ok buf" by auto
  consider (comment) "is_comment buf" | (stop) "\<not> is_comment buf" "strncaseeq buf ''end'' 3"
    | (opt) "\<not> is_comment buf" "\<not> strncaseeq buf ''end'' 3" by blast
  then show ?case
  proof cases
    case comment
    with "2.prems"(1) buf have "profile_lines ls m pf = Ok (pf', rest)" by simp
    from "2.IH"(1) [OF comment this "2.prems"(2)] show ?thesis by simp
  next
    case stop
    with "2.prems" buf show ?thesis by (simp add: same_identity_refl)
  next
    case opt
    with "2.prems"(1) buf obtain key val pf1 where o: "option_line buf = Some (key, val)"
        "profile_option key val m pf = Ok pf1" "profile_lines ls m pf1 = Ok (pf', rest)"
      by (auto split: option.splits)
    from profile_option_keeps [OF o(2) "2.prems"(2)] have k: "profile_ok m pf1" "same_identity pf pf1" by auto
    from "2.IH"(2) [of buf "(key, val)" key val pf1] opt o k(1)
    have "profile_ok m pf' \<and> same_identity pf1 pf' \<and> length rest \<le> length ls" by simp
    with k(2) show ?thesis by (auto intro: same_identity_trans)
  qed
qed

lemma profile_copycfg_keeps:
  assumes "profile_copycfg fs cfg ls m pf = Ok (pf', rest)" and "profile_ok m pf"
  shows "profile_ok m pf' \<and> same_identity pf pf' \<and> length rest \<le> length ls"
proof -
  from assms(1) obtain pf1 where p1: "profile_lines ls m pf = Ok (pf1, rest)"
      "cfg_load_footer fs (profile_defaults cfg pf1) = Ok pf'"
    by (auto simp: profile_copycfg_def Let_def split: if_splits)
  from profile_lines_keeps [OF p1(1) assms(2)]
  have k: "profile_ok m pf1" "same_identity pf pf1" "length rest \<le> length ls" by auto
  have "profile_ok m (profile_defaults cfg pf1)" "same_identity pf (profile_defaults cfg pf1)"
    using k by (simp_all add: profile_defaults_def profile_ok_def same_identity_def Let_def)
  with p1(2) k(3) show ?thesis
    by (auto simp: cfg_load_footer_def profile_ok_def same_identity_def split: if_splits option.splits)
qed

lemma profile_ok_zero: "profile_ok m zero_profile"
  by (simp add: profile_ok_def zero_profile_def ref_ok_def)

text \<open>What a profile block does: one row changes, or one is added; nothing else does.\<close>

lemma parsecfg_profile_cases:
  assumes "parsecfg_profile fs cfg buf ls m = Ok (m', rest)" and "\<forall>p \<in> set (m_profiles m). profile_ok m p"
  obtains (old) i pf where "i < length (m_profiles m)" "m' = m\<lparr>m_profiles := (m_profiles m)[i := pf]\<rparr>"
      "profile_ok m pf" "same_identity (m_profiles m ! i) pf" "length rest \<le> length ls"
  | (new) base pf where "length (m_profiles m) < MAX_PROFILES" "m' = m\<lparr>m_profiles := m_profiles m @ [pf]\<rparr>"
      "profile_ok m pf" "same_identity base pf" "length rest \<le> length ls"
      "getprofile (p_Name pf) m = None"
      "p_Name pf \<noteq> ''default'' \<Longrightarrow> \<exists>d. getprofile ''default'' m = Some d
         \<and> base = (reset_counters (m_profiles m ! d))\<lparr>p_Name := p_Name pf\<rparr>"
proof -
  let ?fmt = "[FStr None, FWs, FStr None]"
  let ?val = "sv (sscanf ?fmt buf) 1 []"
  show thesis
  proof (cases "getprofile ?val m")
    case (Some i)
    with assms(1) obtain pf where pf: "profile_copycfg fs cfg ls m (m_profiles m ! i) = Ok (pf, rest)"
        "m' = m\<lparr>m_profiles := (m_profiles m)[i := pf]\<rparr>"
      by (auto simp: parsecfg_profile_def Let_def split: if_splits)
    have i: "i < length (m_profiles m)" using Some by (auto simp: getprofile_def)
    with assms(2) have "profile_ok m (m_profiles m ! i)" by simp
    from profile_copycfg_keeps [OF pf(1) this] show thesis by (intro old [OF i pf(2)]) auto
  next
    case None
    with assms(1) obtain base pf where pf: "profile_copycfg fs cfg ls m (base\<lparr>p_Name := ?val\<rparr>) = Ok (pf, rest)"
        "m' = m\<lparr>m_profiles := m_profiles m @ [pf]\<rparr>" "length (m_profiles m) < MAX_PROFILES"
        "if ?val = ''default'' then base = zero_profile
         else (\<exists>d. getprofile ''default'' m = Some d \<and> base = reset_counters (m_profiles m ! d))"
      by (auto simp: parsecfg_profile_def Let_def split: if_splits option.splits)
    have "profile_ok m (base\<lparr>p_Name := ?val\<rparr>)"
    proof (cases "?val = ''default''")
      case True
      with pf(4) have "base = zero_profile" by simp
      then show ?thesis using profile_ok_zero by (simp add: profile_ok_def)
    next
      case False
      with pf(4) obtain d where d: "getprofile ''default'' m = Some d" "base = reset_counters (m_profiles m ! d)"
        by auto
      then have "d < length (m_profiles m)" by (auto simp: getprofile_def)
      with assms(2) have "profile_ok m (m_profiles m ! d)" by simp
      with d show ?thesis by (simp add: profile_ok_def reset_counters_def)
    qed
    from profile_copycfg_keeps [OF pf(1) this]
    have k: "profile_ok m pf" "same_identity (base\<lparr>p_Name := ?val\<rparr>) pf" "length rest \<le> length ls" by auto
    then have "p_Name pf = ?val" by (simp add: same_identity_def)
    with pf(4) None show thesis
      by (intro new [OF pf(3,2) k]) (auto split: if_splits)
  qed
qed

lemma acs_wf_profile:
  assumes "acs_wf m" and "parsecfg_profile fs cfg buf ls m = Ok (m', rest)"
  shows "acs_wf m'"
proof -
  from assms(1) have "\<forall>p \<in> set (m_profiles m). profile_ok m p" by (simp add: acs_wf_def)
  from assms(2) this show ?thesis
  proof (cases rule: parsecfg_profile_cases)
    case (old i pf)
    then have "same_or_longer m m'" by (simp add: same_or_longer_def)
    with old assms(1) show ?thesis
      by (auto simp: acs_wf_def intro: ok_mono dest!: set_update_or)
  next
    case (new base pf)
    then have "same_or_longer m m'" by (simp add: same_or_longer_def)
    with new assms(1) show ?thesis by (auto simp: acs_wf_def intro: ok_mono)
  qed
qed

lemma parsecfg_vhost_frame:
  assumes "parsecfg_vhost cfg ssl buf ls m = Ok (m', rest)"
  shows "m' = m\<lparr>m_vhosts := m_vhosts m'\<rparr>
    \<and> (length (m_vhosts m) \<le> MAX_VHOSTS \<longrightarrow> length (m_vhosts m') \<le> MAX_VHOSTS)"
  using assms
  by (auto simp: parsecfg_vhost_def Let_def split: if_splits option.splits)

lemma acs_wf_vhosts: "acs_wf m \<Longrightarrow> length vs \<le> MAX_VHOSTS \<Longrightarrow> acs_wf (m\<lparr>m_vhosts := vs\<rparr>)"
  by (auto simp: acs_wf_def profile_ok_def auth_ok_def acl_ok_def)

lemma acs_wf_vhost: "acs_wf m \<Longrightarrow> parsecfg_vhost cfg ssl buf ls m = Ok (m', rest) \<Longrightarrow> acs_wf m'"
  using parsecfg_vhost_frame [of cfg ssl buf ls m m' rest] acs_wf_vhosts [of m "m_vhosts m'"]
  by (simp add: acs_wf_def)

lemma acs_wf_statement:
  assumes "acs_wf m" and "acs_statement fs cfg ssl buf ls m = Ok (m', rest)"
  shows "acs_wf m'"
  using assms(2,1) unfolding acs_statement_def
  by (elim if_eqE)
    (auto dest: acs_wf_profile [OF assms(1)] acs_wf_wildmat [OF assms(1)]
      acs_wf_alias [OF assms(1)] acs_wf_acl [OF assms(1)] acs_wf_auth [OF assms(1)]
      acs_wf_args [OF assms(1)] acs_wf_map [OF assms(1)] acs_wf_vhost [OF assms(1)])

text \<open>The access configuration leaves the servers, the active file and the slots alone.\<close>

definition outside_access :: "master_t \<Rightarrow> master_t \<Rightarrow> bool" where
  "outside_access m m' \<longleftrightarrow> m_servers m' = m_servers m \<and> m_lservers m' = m_lservers m \<and> m_balance_pos m' = m_balance_pos m
     \<and> m_active m' = m_active m \<and> m_clients m' = m_clients m \<and> m_users m' = m_users m
     \<and> m_connections m' = m_connections m \<and> m_numusers m' = m_numusers m"

lemma outside_refl: "outside_access m m" and outside_trans: "outside_access a b \<Longrightarrow> outside_access b c \<Longrightarrow> outside_access a c"
  by (simp_all add: outside_access_def)

lemma put_outside:
  "put_alias r1 m = Ok m' \<Longrightarrow> outside_access m m'" "put_args r2 m = Ok m' \<Longrightarrow> outside_access m m'"
  "put_wildmat r3 m = Ok m' \<Longrightarrow> outside_access m m'" "put_auth r4 m = Ok m' \<Longrightarrow> outside_access m m'"
  by (auto simp: put_alias_def put_args_def put_wildmat_def put_auth_def outside_access_def split: option.splits if_splits)

lemma statement_outside:
  assumes "acs_wf m" and "acs_statement fs cfg ssl buf ls m = Ok (m', rest)"
  shows "outside_access m m'"
proof -
  have profile: "parsecfg_profile fs cfg buf ls m = Ok (m', rest) \<Longrightarrow> outside_access m m'"
  proof -
    assume p: "parsecfg_profile fs cfg buf ls m = Ok (m', rest)"
    have "\<forall>p \<in> set (m_profiles m). profile_ok m p" using assms(1) by (simp add: acs_wf_def)
    with p show ?thesis by (cases rule: parsecfg_profile_cases) (simp_all add: outside_access_def)
  qed
  have vhost: "parsecfg_vhost cfg ssl buf ls m = Ok (m', rest) \<Longrightarrow> outside_access m m'"
  proof -
    assume "parsecfg_vhost cfg ssl buf ls m = Ok (m', rest)"
    then obtain vs where "m' = m\<lparr>m_vhosts := vs\<rparr>" using parsecfg_vhost_frame by blast
    then show ?thesis by (simp add: outside_access_def)
  qed
  have rows: "parsecfg_wildmat buf m = Ok m' \<Longrightarrow> outside_access m m'" "parsecfg_alias buf m = Ok m' \<Longrightarrow> outside_access m m'"
    "parsecfg_auth buf m = Ok m' \<Longrightarrow> outside_access m m'" "parsecfg_args buf m = Ok m' \<Longrightarrow> outside_access m m'"
    by (auto simp: parsecfg_wildmat_def parsecfg_alias_def parsecfg_auth_def parsecfg_args_def Let_def
        dest: put_outside split: if_splits option.splits)
  have acl: "parsecfg_acl buf m = Ok m' \<Longrightarrow> outside_access m m'"
    by (auto simp: parsecfg_acl_def acl_entry_def Let_def outside_access_def split: if_splits option.splits)
  have map: "parsecfg_map fs buf m = Ok m' \<Longrightarrow> outside_access m m'"
    unfolding parsecfg_map_def Let_def by (elim if_eqE) (auto simp: outside_access_def split: option.splits if_splits)
  show ?thesis using assms(2) unfolding acs_statement_def
    by (elim if_eqE) (auto dest: profile vhost rows acl map simp: outside_refl)
qed

lemma run_then_Ok:
  "Option.bind x (\<lambda>r. case r of Ok a \<Rightarrow> g a | Die e \<Rightarrow> Some (Die e) | Undef \<Rightarrow> Some Undef) = Some (Ok v)
   \<longleftrightarrow> (\<exists>a. x = Some (Ok a) \<and> g a = Some (Ok v))"
  by (cases x) (auto split: outcome.splits)

lemma read_acs_keeps:
  assumes "read_acs fs cfg ssl f ls m = Some r"
  shows "acs_wf m \<longrightarrow> (\<forall>m'. r = Ok m' \<longrightarrow> acs_wf m' \<and> outside_access m m')"
proof (rule read_acs.raw_induct [OF _ assms, where P = "\<lambda>fs cfg ssl f ls m r. acs_wf m \<longrightarrow> (\<forall>m'. r = Ok m' \<longrightarrow> acs_wf m' \<and> outside_access m m')"])
  fix rd :: "files \<Rightarrow> cfg_t \<Rightarrow> ssl_init \<Rightarrow> string \<Rightarrow> string list \<Rightarrow> master_t \<Rightarrow> master_t outcome option"
    and fs cfg ssl f ls m r
  assume IH: "\<And>fs cfg ssl f ls m r. rd fs cfg ssl f ls m = Some r \<Longrightarrow> acs_wf m \<longrightarrow> (\<forall>m'. r = Ok m' \<longrightarrow> acs_wf m' \<and> outside_access m m')"
  assume body: "(case ls of
        [] \<Rightarrow> Some (Ok m)
      | l # ls \<Rightarrow>
          (case chop l of
             Undef \<Rightarrow> Some Undef
           | Die e \<Rightarrow> Some (Die e)
           | Ok buf \<Rightarrow>
               if is_comment buf then rd fs cfg ssl f ls m
               else if is_include buf then
                 (case include_name cfg f buf of
                    Undef \<Rightarrow> Some Undef
                  | Die e \<Rightarrow> Some (Die e)
                  | Ok name \<Rightarrow>
                      (case fs name of
                         None \<Rightarrow> Some (Die ''Can't open profile config'')
                       | Some inc \<Rightarrow> Option.bind (rd fs cfg ssl name inc m)
                           (\<lambda>r. case r of Ok m' \<Rightarrow> rd fs cfg ssl f ls m'
                                | Die e \<Rightarrow> Some (Die e) | Undef \<Rightarrow> Some Undef)))
               else
                 (case acs_statement fs cfg ssl buf ls m of
                    Ok (m', rest) \<Rightarrow> rd fs cfg ssl f rest m'
                  | Die e \<Rightarrow> Some (Die e)
                  | Undef \<Rightarrow> Some Undef))) = Some r"
  show "acs_wf m \<longrightarrow> (\<forall>m'. r = Ok m' \<longrightarrow> acs_wf m' \<and> outside_access m m')"
  proof (intro impI allI)
    fix m'
    have IH': "rd fs cfg ssl f ls m = Some (Ok m1) \<Longrightarrow> acs_wf m \<Longrightarrow> acs_wf m1 \<and> outside_access m m1" for fs cfg ssl f ls m m1
      using IH by blast
    assume "acs_wf m" and r: "r = Ok m'"
    then show "acs_wf m' \<and> outside_access m m'"
      using body unfolding r
      by (auto split: list.splits outcome.splits if_splits option.splits prod.splits
          simp: run_then_Ok outside_refl dest!: IH' dest: acs_wf_statement statement_outside intro: outside_trans)
  qed
qed

lemma read_acs_wf: "read_acs fs cfg ssl f ls m = Some r \<Longrightarrow> acs_wf m \<longrightarrow> (\<forall>m'. r = Ok m' \<longrightarrow> acs_wf m')"
  using read_acs_keeps by blast

lemma load_access_conf_result:
  assumes "acs_wf m" and "\<not> cf_RemoteConfig cfg"
    and "load_access_conf fs cfg ssl wmats authmod acctmod m = Some (Ok m')"
  shows "acs_wf m' \<and> outside_access m m' \<and> (\<exists>i. getprofile ''default'' m' = Some i)
    \<and> (\<forall>a \<in> set (m_auths m'). authmod (al_lib (m_aliases m' ! au_auth a)))
    \<and> (\<forall>p \<in> set (m_profiles m'). \<exists>a. p_Accounting p = Some a \<and> a < length (m_aliases m')
         \<and> acctmod (al_lib (m_aliases m' ! a)))"
proof -
  from assms(2,3) obtain r where r: "read_acs_file fs cfg ssl (cf_AccessFile cfg) m = Some (Ok r)"
      "check_modules authmod acctmod r = Ok m'"
    by (auto simp: load_access_conf_def split: if_splits)
  from r(1) obtain ls where "read_acs fs cfg ssl (cf_AccessFile cfg) ls m = Some (Ok r)"
    by (auto simp: read_acs_file_def split: option.splits)
  from read_acs_keeps [OF this] assms(1) have wf: "acs_wf r" "outside_access m r" by simp_all
  from r(2) have eq: "m' = r" and 1: "getprofile ''default'' r \<noteq> None"
    and 2: "\<forall>a \<in> set (m_auths r). authmod (al_lib (m_aliases r ! au_auth a))"
    and 3: "\<forall>p \<in> set (m_profiles r). \<exists>a. p_Accounting p = Some a \<and> acctmod (al_lib (m_aliases r ! a))"
    by (auto simp: check_modules_def list_ex_iff find_index_None split: if_splits option.splits)
  from wf(1) have "\<forall>p \<in> set (m_profiles r). ref_ok (length (m_aliases r)) (p_Accounting p)"
    by (simp add: acs_wf_def profile_ok_def)
  with 1 2 3 wf show ?thesis by (fastforce simp: eq ref_ok_def)
qed

section \<open>Properties\<close>

text \<open>An alias line that is accepted is an update of the map from alias names to modules:
  the lookup of its name gives its row and every other lookup what it gave before.\<close>

theorem alias_line_updates:
  assumes "parsecfg_alias buf m = Ok m'"
  shows "let fmt = [FLit ''alias'', FSkip blank, FCls nonblank (Some 256), FSkip blank,
                    FCls nonblank (Some 256), FSkip blank, FCls noneol (Some 256)];
             vs = sscanf fmt buf;
             r = \<lparr>al_name = sv vs 0 [], al_lib = sv vs 1 [], al_args = sv vs 2 []\<rparr>
         in (\<lambda>k. map_option ((!) (m_aliases m')) (getalias k m')) =
            (\<lambda>k. map_option ((!) (m_aliases m)) (getalias k m))(al_name r \<mapsto> r)"
proof -
  let ?vs = "sscanf [FLit ''alias'', FSkip blank, FCls nonblank (Some 256), FSkip blank,
      FCls nonblank (Some 256), FSkip blank, FCls noneol (Some 256)] buf"
  let ?r = "\<lparr>al_name = sv ?vs 0 [], al_lib = sv ?vs 1 [], al_args = sv ?vs 2 []\<rparr>"
  from assms have "put_alias ?r m = Ok m'"
    by (simp add: parsecfg_alias_def Let_def split: if_splits)
  from al.lookup_put [OF this] show ?thesis
    by (simp add: al.lookup_def [abs_def])
qed

theorem alias_line_updates_witness:
  "\<exists>m'. parsecfg_alias ''alias auth_default auth_passwd /etc/p'' zero_master = Ok m' \<and>
     map_option ((!) (m_aliases m')) (getalias ''auth_default'' m') =
       Some \<lparr>al_name = ''auth_default'', al_lib = ''auth_passwd'', al_args = ''/etc/p''\<rparr>"
proof -
  let ?fmt = "[FLit ''alias'', FSkip blank, FCls nonblank (Some 256), FSkip blank,
      FCls nonblank (Some 256), FSkip blank, FCls noneol (Some 256)]"
  have s: "scan ?fmt ''alias auth_default auth_passwd /etc/p'' =
      ([SV ''auth_default'', SV ''auth_passwd'', SV ''/etc/p''], False)"
    by (simp add: at_most_def)
  then have "\<exists>m'. parsecfg_alias ''alias auth_default auth_passwd /etc/p'' zero_master = Ok m'"
    by (simp add: parsecfg_alias_def sscanf_def sscanf_ret_def sv_def MAX_STRING_def put_alias_def getalias_def
        zero_master_def MAX_ALIASES_def)
  then obtain m' where m': "parsecfg_alias ''alias auth_default auth_passwd /etc/p'' zero_master = Ok m'" ..
  from alias_line_updates [OF m'] s
  have "(\<lambda>k. map_option ((!) (m_aliases m')) (getalias k m')) =
      (\<lambda>k. map_option ((!) (m_aliases zero_master)) (getalias k zero_master))
        (''auth_default'' \<mapsto> \<lparr>al_name = ''auth_default'', al_lib = ''auth_passwd'', al_args = ''/etc/p''\<rparr>)"
    by (simp add: sscanf_def sv_def)
  from fun_cong [OF this, of "''auth_default''"] m' show ?thesis by auto
qed

lemma scan_acl:
  assumes "2 \<le> l" "l \<le> 32" and "acs \<noteq> []" "\<forall>c \<in> set acs. \<not> isspace_c c" "length acs < 64"
  shows "scan acl_format (''acl '' @ inet_ntoa start @ ''/'' @ nat_str l @ '' '' @ acs) =
    ([SV (inet_ntoa start), SV (nat_str l), SV acs], True)"
proof -
  have hd: "isdigit_c (hd (nat_str l)) \<and> hd (nat_str l) \<noteq> CHR ''/''"
    using nat_str_digits [of l] by (cases "nat_str l") (auto simp: isdigit_c_def code_def)
  have ip: "\<not> (hd (inet_ntoa start) = SP \<or> hd (inet_ntoa start) = TAB)"
    using inet_ntoa_chars(1,2) [of start] by (cases "inet_ntoa start") (auto simp: isdigit_c_def code_def)
  have len: "length (nat_str l) \<le> 2" using assms(2) by (intro nat_str_length) auto
  have sp: "\<not> isspace_c (hd acs)" using assms(3,4) by (cases acs) auto
  let ?P = "\<lambda>c. isdigit_c c \<or> c = CHR ''.''"
  let ?f5 = "[FCls isdigit_c (Some 2), FWs, FStr (Some 64), FSkip blank, FStr (Some 32)]"
  have e: "scan [FSkip blank, FStr (Some 32)] [] = ([], True)" by simp
  have "scan [FStr (Some 64), FSkip blank, FStr (Some 32)] (acs @ []) = ([SV acs], True)"
    using assms(3-5) by (subst scan_word) (auto simp: e)
  then have "scan [FWs, FStr (Some 64), FSkip blank, FStr (Some 32)] (SP # acs) = ([SV acs], True)"
    using sp by (subst scan_ws) (auto simp: isspace_c_def)
  then have 5: "scan ?f5 (nat_str l @ SP # acs) = ([SV (nat_str l), SV acs], True)"
    using nat_str_digits [of l] len by (subst scan_class) (auto simp: isdigit_c_def code_def)
  have "scan (FSkip (\<lambda>c. c = CHR ''/'') # ?f5) (CHR ''/'' # nat_str l @ SP # acs) =
      scan ?f5 (nat_str l @ SP # acs)"
    by (rule scan_skip) (use hd in auto)
  then have "scan (FCls ?P (Some 15) # FSkip (\<lambda>c. c = CHR ''/'') # ?f5)
      (inet_ntoa start @ CHR ''/'' # nat_str l @ SP # acs) =
      ([SV (inet_ntoa start), SV (nat_str l), SV acs], True)"
    using inet_ntoa_chars [of start] 5 by (subst scan_class) (auto simp: isdigit_c_def code_def)
  moreover have "scan (FSkip blank # FCls ?P (Some 15) # FSkip (\<lambda>c. c = CHR ''/'') # ?f5)
      (SP # inet_ntoa start @ CHR ''/'' # nat_str l @ SP # acs) =
      scan (FCls ?P (Some 15) # FSkip (\<lambda>c. c = CHR ''/'') # ?f5)
      (inet_ntoa start @ CHR ''/'' # nat_str l @ SP # acs)"
    by (rule scan_skip) (use ip inet_ntoa_chars(2) [of start] in auto)
  ultimately show ?thesis by (simp add: acl_format_def)
qed

definition sample_access :: "string list" where
  "sample_access = [''alias auth_default auth_ignore'', ''alias acct_default acct_none'', ''profile default'',
     '' Hostname news.example.org'', '' Accounting acct_default'', ''end'', ''auth * auth_default default'']"

definition sample_load :: "master_t outcome option" where
  "sample_load = load_access_conf [''/a'' \<mapsto> sample_access] (zero_cfg\<lparr>cf_AccessFile := ''/a''\<rparr>) (\<lambda>_ _ _. None)
     Ok (\<lambda>_. True) (\<lambda>_. True) zero_master"

lemma sample_loads: "\<exists>m'. sample_load = Some (Ok m')"
proof -
  have "case sample_load of Some (Ok m') \<Rightarrow> True | _ \<Rightarrow> False" by code_simp
  then show ?thesis by (auto split: option.splits outcome.splits)
qed

lemma acs_wf_zero: "acs_wf zero_master"
  by (simp add: acs_wf_def zero_master_def)

lemma parse_acl_scanned:
  assumes "scan acl_format buf = ([SV ip, SV pfx, SV acs], e)" and "length acs < 64"
    and "inet_aton ip = Some start" and "prefix_size pfx = Ok sz"
  shows "parsecfg_acl buf m = acl_entry start sz acs [] m"
  using assms by (simp add: parsecfg_acl_def sscanf_def sscanf_ret_def sv_def)



text \<open>The address of an access line is not reduced to its network: a line that names a host
  inside a network covers as many addresses from that host on.\<close>

theorem acl_host_bits_shift_range:
  "\<exists>m'. parsecfg_acl ''acl 10.0.0.5/8 read'' zero_master = Ok m'
     \<and> getacl 0x0A000001 m' = None \<and> getacl 0x0B000001 m' = Some 0"
proof -
  let ?buf = "''acl '' @ inet_ntoa 0x0A000005 @ ''/'' @ nat_str 8 @ '' '' @ ''read''"
  have ip: "inet_ntoa 0x0A000005 = ''10.0.0.5''" and l: "nat_str 8 = ''8''"
    by (simp_all add: inet_ntoa_def nat_str.simps char_of_def bit_0)
  have "strtok '','' ''read'' = [''read'']" by (simp add: strtok.simps)
  moreover have "acl_flag ''read'' a = Some (a\<lparr>acl_read := True\<rparr>)" for a
    by (simp add: acl_flag_def)
  ultimately have "\<exists>m'. acl_entry 0x0A000005 (2 ^ (32 - 8) - 1) ''read'' [] zero_master = Ok m'"
    by (simp add: acl_entry_def getacl_real_def zero_master_def MAX_ACLS_def)
  then obtain m' where m': "acl_entry 0x0A000005 (2 ^ (32 - 8) - 1) ''read'' [] zero_master = Ok m'" ..
  then obtain b where "acl_start b = 0x0A000005" "acl_end b = 0x0A000005 + (2 ^ (32 - 8) - 1)"
      and "m_acls m' = [b]"
    by (elim acl_entry_cases) (auto simp: getacl_real_def zero_master_def)
  then have "getacl 0x0A000001 m' = None \<and> getacl 0x0B000001 m' = Some 0"
    by (simp add: getacl_def)
  moreover have "scan acl_format ?buf = ([SV (inet_ntoa 0x0A000005), SV (nat_str 8), SV ''read''], True)"
    by (rule scan_acl) (auto simp: isspace_c_def code_def)
  from parse_acl_scanned [OF this _ inet_aton_ntoa]
  have "parsecfg_acl ?buf zero_master = acl_entry 0x0A000005 (2 ^ (32 - 8) - 1) ''read'' [] zero_master"
    using atol_nat_str [of 8] by (simp add: prefix_size_def)
  with m' have "parsecfg_acl ''acl 10.0.0.5/8 read'' zero_master = Ok m'" by (simp add: ip l)
  ultimately show ?thesis by blast
qed



text \<open>A new profile is a copy of the default profile with its counters cleared, but the
  counters of posted bytes and articles are copied along.\<close>

theorem new_profile_copies_post_counters:
  assumes "acs_wf m" and "parsecfg_profile fs cfg buf ls m = Ok (m', rest)"
    and "length (m_profiles m') = Suc (length (m_profiles m))"
    and "p_Name (last (m_profiles m')) \<noteq> ''default''"
  shows "\<exists>d. getprofile ''default'' m = Some d
    \<and> p_bytes (last (m_profiles m')) = 0 \<and> p_connections (last (m_profiles m')) = 0
    \<and> p_postbytes (last (m_profiles m')) = p_postbytes (m_profiles m ! d)
    \<and> p_postarticles (last (m_profiles m')) = p_postarticles (m_profiles m ! d)
    \<and> p_rbytes (last (m_profiles m')) = p_rbytes (m_profiles m ! d)"
proof -
  from assms(1) have "\<forall>p \<in> set (m_profiles m). profile_ok m p" by (simp add: acs_wf_def)
  from assms(2) this show ?thesis
  proof (cases rule: parsecfg_profile_cases)
    case (old i pf)
    with assms(3) show ?thesis by simp
  next
    case (new base pf)
    with assms(4) obtain d where d: "getprofile ''default'' m = Some d"
        "base = (reset_counters (m_profiles m ! d))\<lparr>p_Name := p_Name pf\<rparr>" by auto
    with new(2,4) show ?thesis by (simp add: same_identity_def reset_counters_def)
  qed
qed

definition one_profile :: master_t where
  "one_profile = zero_master\<lparr>m_profiles := [zero_profile\<lparr>p_Name := ''default'', p_Hostname := ''h'', p_bytes := 5, p_postbytes := 7\<rparr>]\<rparr>"

theorem new_profile_copies_post_counters_witness:
  "\<exists>m' rest. parsecfg_profile Map.empty zero_cfg ''profile gold'' [''end''] one_profile = Ok (m', rest)
     \<and> p_bytes (last (m_profiles m')) = 0 \<and> p_postbytes (last (m_profiles m')) = 7"
proof -
  let ?r = "parsecfg_profile Map.empty zero_cfg ''profile gold'' [''end''] one_profile"
  have "case ?r of Ok (m', rest) \<Rightarrow> length (m_profiles m') = 2 \<and> p_Name (last (m_profiles m')) = ''gold'' | _ \<Rightarrow> False"
    by code_simp
  then obtain m' rest where r: "?r = Ok (m', rest)" "length (m_profiles m') = 2"
      "p_Name (last (m_profiles m')) = ''gold''"
    by (auto split: outcome.splits)
  have "acs_wf one_profile"
    by (simp add: one_profile_def acs_wf_def zero_master_def profile_ok_def zero_profile_def ref_ok_def MAX_PROFILES_def)
  from new_profile_copies_post_counters [OF this r(1)] r show ?thesis
    by (auto simp: one_profile_def getprofile_def)
qed

lemma read_acs_self_include:
  assumes "fs ''/a'' = Some (''include /a'' # ls)"
    and "read_acs fs' cfg ssl f ls' m = Some r"
  shows "fs' = fs \<longrightarrow> f = ''/a'' \<longrightarrow> ls' \<noteq> ''include /a'' # ls"
proof (rule read_acs.raw_induct [OF _ assms(2),
    where P = "\<lambda>fs' cfg ssl f ls' m r. fs' = fs \<longrightarrow> f = ''/a'' \<longrightarrow> ls' \<noteq> ''include /a'' # ls"],
    intro impI notI)
  fix rd :: "files \<Rightarrow> cfg_t \<Rightarrow> ssl_init \<Rightarrow> string \<Rightarrow> string list \<Rightarrow> master_t \<Rightarrow> master_t outcome option"
    and fs' cfg ssl f ls' m r
  assume IH: "\<And>fs' cfg ssl f ls' m r. rd fs' cfg ssl f ls' m = Some r \<Longrightarrow>
      fs' = fs \<longrightarrow> f = ''/a'' \<longrightarrow> ls' \<noteq> ''include /a'' # ls"
  assume body: "(case ls' of
        [] \<Rightarrow> Some (Ok m)
      | l # ls \<Rightarrow>
          (case chop l of
             Undef \<Rightarrow> Some Undef
           | Die e \<Rightarrow> Some (Die e)
           | Ok buf \<Rightarrow>
               if is_comment buf then rd fs' cfg ssl f ls m
               else if is_include buf then
                 (case include_name cfg f buf of
                    Undef \<Rightarrow> Some Undef
                  | Die e \<Rightarrow> Some (Die e)
                  | Ok name \<Rightarrow>
                      (case fs' name of
                         None \<Rightarrow> Some (Die ''Can't open profile config'')
                       | Some inc \<Rightarrow> Option.bind (rd fs' cfg ssl name inc m)
                           (\<lambda>r. case r of Ok m' \<Rightarrow> rd fs' cfg ssl f ls m'
                                | Die e \<Rightarrow> Some (Die e) | Undef \<Rightarrow> Some Undef)))
               else
                 (case acs_statement fs' cfg ssl buf ls m of
                    Ok (m', rest) \<Rightarrow> rd fs' cfg ssl f rest m'
                  | Die e \<Rightarrow> Some (Die e)
                  | Undef \<Rightarrow> Some Undef))) = Some r"
  assume eq: "fs' = fs" "f = ''/a''" "ls' = ''include /a'' # ls"
  have "chop ''include /a'' = Ok ''include /a''" and "\<not> is_comment ''include /a''" and "is_include ''include /a''"
    and "sscanf [FStr None, FWs, FStr None] ''include /a'' = [SV ''include'', SV ''/a'']"
    by code_simp+
  moreover from this(4) have "include_name cfg ''/a'' ''include /a'' = Ok ''/a''"
    by (simp add: include_name_def check_path_def sv_def chr_at_def)
  ultimately have "\<exists>x. rd fs cfg ssl ''/a'' (''include /a'' # ls) m = Some x"
    using body assms(1) by (simp add: eq bind_eq_Some_conv) blast
  with IH show False by blast
qed

text \<open>A configuration file that includes itself never finishes loading.\<close>

theorem self_include_never_returns:
  assumes "fs ''/a'' = Some (''include /a'' # ls)"
  shows "read_acs_file fs cfg ssl ''/a'' m = None"
  using read_acs_self_include [of fs ls fs cfg ssl "''/a''" "''include /a'' # ls" m] assms
  by (cases "read_acs fs cfg ssl ''/a'' (''include /a'' # ls) m") (auto simp: read_acs_file_def)

theorem self_include_never_returns_witness:
  "read_acs_file [''/a'' \<mapsto> [''include /a'']] zero_cfg (\<lambda>_ _ _. None) ''/a'' zero_master = None"
  by (rule self_include_never_returns) simp

end
