(* ===== verification/Config.thy ===== *)
theory Config
  imports Access
begin

text \<open>
  \<open>config.c\<close>: the configuration of the program, read line by line into the table that \<open>mkconfig.pl\<close>
  makes of \<open>nntpswitch.conf.in\<close>; and \<open>rconfig.c\<close>, which takes the wildcard patterns from a web
  service. An entry of the table is the name of a setting with the field of \<open>cfg_t\<close> it stores to; a
  setting that the modelled code does not read is accepted and stored nowhere.
\<close>

section \<open>The table of the settings\<close>

datatype entry_type = Type_str "string \<Rightarrow> cfg_t \<Rightarrow> cfg_t" | Type_int "int \<Rightarrow> cfg_t \<Rightarrow> cfg_t"

abbreviation unread_str :: entry_type where "unread_str \<equiv> Type_str (\<lambda>_ c. c)"
abbreviation unread_int :: entry_type where "unread_int \<equiv> Type_int (\<lambda>_ c. c)"

definition confentry :: "(string \<times> entry_type) list" where
  "confentry =
    [(''ListenPorts'', Type_str (\<lambda>s c. c\<lparr>cf_ListenPorts := s\<rparr>)),
     (''BindAddress'', Type_str (\<lambda>s c. c\<lparr>cf_BindAddress := s\<rparr>)),
     (''RunAsUser'', Type_str (\<lambda>s c. c\<lparr>cf_RunAsUser := s\<rparr>)),
     (''PidFile'', Type_str (\<lambda>s c. c\<lparr>cf_PidFile := s\<rparr>)),
     (''StatsFile'', Type_str (\<lambda>s c. c\<lparr>cf_StatsFile := s\<rparr>)),
     (''StatsFilePeriod'', Type_int (\<lambda>i c. c\<lparr>cf_StatsFilePeriod := i\<rparr>)),
     (''ConnDumpFile'', Type_str (\<lambda>s c. c\<lparr>cf_ConnDumpFile := s\<rparr>)),
     (''BasePath'', Type_str (\<lambda>s c. c\<lparr>cf_BasePath := s\<rparr>)),
     (''AccessFile'', Type_str (\<lambda>s c. c\<lparr>cf_AccessFile := s\<rparr>)),
     (''ServerFile'', Type_str (\<lambda>s c. c\<lparr>cf_ServerFile := s\<rparr>)),
     (''OverviewFmtFile'', Type_str (\<lambda>s c. c\<lparr>cf_OverviewFmtFile := s\<rparr>)),
     (''ActiveFile'', Type_str (\<lambda>s c. c\<lparr>cf_ActiveFile := s\<rparr>)),
     (''NewsgroupsFile'', Type_str (\<lambda>s c. c\<lparr>cf_NewsgroupsFile := s\<rparr>)),
     (''ServerReadTimeout'', Type_int (\<lambda>i c. c\<lparr>cf_ServerReadTimeout := i\<rparr>)),
     (''ServerConnectTimeout'', Type_int (\<lambda>i c. c\<lparr>cf_ServerConnectTimeout := i\<rparr>)),
     (''ClientReadTimeout'', Type_int (\<lambda>i c. c\<lparr>cf_ClientReadTimeout := i\<rparr>)),
     (''MaxConnections'', Type_int (\<lambda>i c. c\<lparr>cf_MaxConnections := i\<rparr>)),
     (''LogWriteclient'', unread_int),
     (''LogReadserver'', unread_int),
     (''LogWriteserver'', unread_int),
     (''LogCommands'', unread_int),
     (''LogMissing'', Type_int (\<lambda>i c. c\<lparr>cf_LogMissing := (i \<noteq> 0)\<rparr>)),
     (''LogAuthInfo'', unread_int),
     (''PostServer'', Type_str (\<lambda>s c. c\<lparr>cf_PostServer := s\<rparr>)),
     (''PostServerPort'', Type_int (\<lambda>i c. c\<lparr>cf_PostServerPort := nat i\<rparr>)),
     (''PostXTraceHeader'', Type_int (\<lambda>i c. c\<lparr>cf_PostXTraceHeader := (i \<noteq> 0)\<rparr>)),
     (''ModeratorDomain'', Type_str (\<lambda>s c. c\<lparr>cf_ModeratorDomain := s\<rparr>)),
     (''MailerPath'', Type_str (\<lambda>s c. c\<lparr>cf_MailerPath := s\<rparr>)),
     (''BufSize'', Type_int (\<lambda>i c. c\<lparr>cf_BufSize := nat i\<rparr>)),
     (''SockBufSize'', Type_int (\<lambda>i c. c\<lparr>cf_SockBufSize := i\<rparr>)),
     (''ListenBackLog'', unread_int),
     (''DenyNoIndexField'', Type_int (\<lambda>i c. c\<lparr>cf_DenyNoIndexField := (i \<noteq> 0)\<rparr>)),
     (''DownDelay'', Type_int (\<lambda>i c. c\<lparr>cf_DownDelay := i\<rparr>)),
     (''RetryDelay'', Type_int (\<lambda>i c. c\<lparr>cf_RetryDelay := i\<rparr>)),
     (''AccountingDelay'', Type_int (\<lambda>i c. c\<lparr>cf_AccountingDelay := i\<rparr>)),
     (''RatePeriod'', Type_int (\<lambda>i c. c\<lparr>cf_RatePeriod := i\<rparr>)),
     (''DNSLookups'', Type_int (\<lambda>i c. c\<lparr>cf_DNSLookups := (i \<noteq> 0)\<rparr>)),
     (''DropUnknown'', Type_int (\<lambda>i c. c\<lparr>cf_DropUnknown := i\<rparr>)),
     (''DisableFile'', Type_str (\<lambda>s c. c\<lparr>cf_DisableFile := s\<rparr>)),
     (''DisableText'', Type_str (\<lambda>s c. c\<lparr>cf_DisableText := s\<rparr>)),
     (''NoSuchArticleRetries'', Type_int (\<lambda>i c. c\<lparr>cf_NoSuchArticleRetries := i\<rparr>)),
     (''LocalDreader'', Type_int (\<lambda>i c. c\<lparr>cf_LocalDreader := (i \<noteq> 0)\<rparr>)),
     (''CoreBind'', Type_int (\<lambda>i c. c\<lparr>cf_CoreBind := i\<rparr>)),
     (''EnableSSL'', Type_int (\<lambda>i c. c\<lparr>cf_EnableSSL := (i \<noteq> 0)\<rparr>)),
     (''ListenSSLPorts'', Type_str (\<lambda>s c. c\<lparr>cf_ListenSSLPorts := s\<rparr>)),
     (''AsLoginURL'', Type_str (\<lambda>s c. c\<lparr>cf_AsLoginURL := s\<rparr>)),
     (''AsLogoutURL'', Type_str (\<lambda>s c. c\<lparr>cf_AsLogoutURL := s\<rparr>)),
     (''RemoteConfig'', Type_int (\<lambda>i c. c\<lparr>cf_RemoteConfig := (i \<noteq> 0)\<rparr>)),
     (''WildmatURL'', unread_str),
     (''JSONACL'', Type_int (\<lambda>i c. c\<lparr>cf_JSONACL := (i \<noteq> 0)\<rparr>)),
     (''ACLURL'', Type_str (\<lambda>s c. c\<lparr>cf_ACLURL := s\<rparr>)),
     (''JSONRL'', Type_int (\<lambda>i c. c\<lparr>cf_JSONRL := (i \<noteq> 0)\<rparr>)),
     (''RLURL'', unread_str)]"

section \<open>Reading the file\<close>

definition find_entry :: "string \<Rightarrow> entry_type option" where
  "find_entry name = map_option snd (find (\<lambda>e. strcaseeq (fst e) name) confentry)"

definition store :: "entry_type \<Rightarrow> string \<Rightarrow> cfg_t \<Rightarrow> cfg_t" where
  "store e a1 c = (case e of Type_str f \<Rightarrow> f a1 c | Type_int f \<Rightarrow> f (atoi a1) c)"

definition config_fmt :: "conv list" where
  "config_fmt = [FStr (Some 64), FSkip blank, FCls (\<lambda>c. \<not> eol c) (Some 512)]"

text \<open>A name of 64 or a value of 512 bytes has its null behind the buffer.\<close>

definition config_line :: "string \<Rightarrow> cfg_t \<Rightarrow> cfg_t outcome" where
  "config_line buf c =
     (if chr_at buf 0 \<in> {CR, LF, CHR ''#'', CHR '';''} then Ok c
      else let vs = sscanf config_fmt buf; a0 = sv vs 0 []; a1 = sv vs 1 [] in
      if 64 \<le> length a0 \<or> 512 \<le> length a1 then Undef
      else if sscanf_ret config_fmt buf \<noteq> 2 then Die ''Error on line''
      else (case find_entry a0 of None \<Rightarrow> Die ''Unknown variable on line'' | Some e \<Rightarrow> Ok (store e a1 c)))"

primrec config_lines :: "string list \<Rightarrow> cfg_t \<Rightarrow> cfg_t outcome" where
  "config_lines [] c = Ok c"
| "config_lines (l # ls) c = obind (config_line l c) (config_lines ls)"

definition replace_path :: "cfg_t \<Rightarrow> string \<Rightarrow> string outcome" where
  "replace_path c filename =
     (if chr_at filename 0 = CHR ''/'' then Ok filename else strcpy_to MAX_STRING (cf_BasePath c @ ''/'' @ filename))"

definition replace_paths :: "cfg_t \<Rightarrow> cfg_t outcome" where
  "replace_paths c =
     obind (replace_path c (cf_PidFile c)) (\<lambda>s. let c = c\<lparr>cf_PidFile := s\<rparr> in
     obind (replace_path c (cf_AccessFile c)) (\<lambda>s. let c = c\<lparr>cf_AccessFile := s\<rparr> in
     obind (replace_path c (cf_ServerFile c)) (\<lambda>s. let c = c\<lparr>cf_ServerFile := s\<rparr> in
     obind (replace_path c (cf_OverviewFmtFile c)) (\<lambda>s. let c = c\<lparr>cf_OverviewFmtFile := s\<rparr> in
     obind (replace_path c (cf_ActiveFile c)) (\<lambda>s. let c = c\<lparr>cf_ActiveFile := s\<rparr> in
     obind (replace_path c (cf_NewsgroupsFile c)) (\<lambda>s. let c = c\<lparr>cf_NewsgroupsFile := s\<rparr> in
     obind (replace_path c (cf_DisableFile c)) (\<lambda>s. Ok (c\<lparr>cf_DisableFile := s\<rparr>))))))))"

definition config_paths :: "string list" where
  "config_paths =
    [''./nntpswitch.conf'', ''/etc/nntpswitch.conf'', ''/etc/nntpswitch/nntpswitch.conf'', ''/usr/local/etc/nntpswitch.conf'',
     ''/usr/local/etc/nntpswitch/nntpswitch.conf'', ''/usr/local/nntpswitch/nntpswitch.conf'',
     ''/usr/local/nntpswitch/etc/nntpswitch.conf'', ''/opt/etc/nntpswitch.conf'', ''/opt/etc/nntpswitch/nntpswitch.conf'',
     ''/opt/nntpswitch/nntpswitch.conf'', ''/opt/nntpswitch/etc/nntpswitch.conf'']"

text \<open>The file in use, named on the command line or the first of the paths that opens, and what it holds.\<close>

definition find_config :: "files \<Rightarrow> string option \<Rightarrow> (string \<times> string list) outcome" where
  "find_config fs config_file =
     (case config_file of
        None \<Rightarrow>
          (case find (\<lambda>p. fs p \<noteq> None) config_paths of
             None \<Rightarrow> Die ''Could not find any configuration file!''
           | Some p \<Rightarrow> Ok (p, the (fs p)))
      | Some p \<Rightarrow> (case fs p of None \<Rightarrow> Die ''Could not open configuration file'' | Some ls \<Rightarrow> Ok (p, ls)))"

definition read_config :: "files \<Rightarrow> string option \<Rightarrow> cfg_t \<Rightarrow> (string \<times> cfg_t) outcome" where
  "read_config fs config_file c =
     obind (find_config fs config_file) (\<lambda>(p, ls).
     obind (config_lines ls c) (\<lambda>c.
     obind (replace_paths c) (\<lambda>c. Ok (p, c))))"

section \<open>Patterns of the web service\<close>

text \<open>
  The answer is nothing, or the list of the names and patterns of the JSON array; \<open>behind\<close> is what
  the array of the patterns holds past its counter. The counter is set at the end only, so a name is
  looked for among the rows that were there before; a new one is written to the row of its number
  in the answer, whatever is there.
\<close>

definition wildmat_row :: "string \<Rightarrow> string \<Rightarrow> wildmat_t outcome" where
  "wildmat_row n p = obind (strcpy_to MAX_NAME n) (\<lambda>n. obind (strcpy_to 1024 p) (\<lambda>p. Ok \<lparr>w_pattern = p, w_name = n\<rparr>))"

fun wmats_loop ::
  "nat \<Rightarrow> (string option \<times> string option) list \<Rightarrow> nat \<Rightarrow> (nat \<Rightarrow> wildmat_t) \<Rightarrow> (nat \<Rightarrow> wildmat_t) outcome" where
  "wmats_loop n [] i rows = Ok rows"
| "wmats_loop n ((Some name, Some pat) # js) i rows =
     (let k = (case find_index (\<lambda>r. strcmp (w_name r) name = 0) (map rows [0..<n]) of Some k \<Rightarrow> k | None \<Rightarrow> i) in
      if MAX_WILDMATS \<le> k then Undef
      else obind (wildmat_row name pat) (\<lambda>r. wmats_loop n js (Suc i) (rows(k := r))))"
| "wmats_loop n (_ # js) i rows = Undef"

definition rconf_getwmats ::
  "(string option \<times> string option) list option \<Rightarrow> (nat \<Rightarrow> wildmat_t) \<Rightarrow> master_t \<Rightarrow> master_t outcome" where
  "rconf_getwmats answer behind m =
     (case answer of
        None \<Rightarrow> Ok m
      | Some js \<Rightarrow>
          (let n = length (m_wildmats m); rows = (\<lambda>i. if i < n then m_wildmats m ! i else behind i) in
           obind (wmats_loop n js 0 rows) (\<lambda>rows. Ok (m\<lparr>m_wildmats := map rows [0..<length js]\<rparr>))))"

section \<open>What is read\<close>

definition setting_line :: "string \<times> string \<Rightarrow> string" where
  "setting_line x = fst x @ SP # snd x @ [LF]"

definition setting_ok :: "string \<times> string \<Rightarrow> bool" where
  "setting_ok x \<longleftrightarrow>
     find_entry (fst x) \<noteq> None \<and> fst x \<noteq> [] \<and> (\<forall>c \<in> set (fst x). \<not> isspace_c c) \<and> length (fst x) < 64
     \<and> hd (fst x) \<notin> {CHR ''#'', CHR '';''}
     \<and> snd x \<noteq> [] \<and> \<not> blank (hd (snd x)) \<and> (\<forall>c \<in> set (snd x). \<not> eol c) \<and> length (snd x) < 512"

lemma scan_setting:
  assumes "setting_ok x"
  shows "scan config_fmt (setting_line x) = ([SV (fst x), SV (snd x)], False)"
proof -
  obtain n v where x: "x = (n, v)" by (cases x)
  have v: "takeWhile (\<lambda>c. \<not> eol c) (v @ [LF]) = v"
    using assms by (intro takeWhile_word) (auto simp: x setting_ok_def)
  have b: "takeWhile blank (v @ [LF]) = []"
    using assms by (cases v) (auto simp: x setting_ok_def)
  have "scan [FSkip blank, FCls (\<lambda>c. \<not> eol c) (Some 512)] (SP # v @ [LF]) = ([SV v], False)"
    using assms by (simp add: x setting_ok_def at_most_def v b)
  moreover have "scan (FStr (Some 64) # fs) (n @ SP # v @ [LF]) = (SV n # fst (scan fs (SP # v @ [LF])), snd (scan fs (SP # v @ [LF])))" for fs
  proof (rule scan_word)
    show "SP # v @ [LF] = [] \<or> isspace_c (hd (SP # v @ [LF]))" by (simp add: isspace_c_def code_def)
  qed (use assms in \<open>simp_all add: x setting_ok_def\<close>)
  ultimately show ?thesis by (simp only: x config_fmt_def setting_line_def fst_conv snd_conv)
qed

lemma config_line_setting:
  assumes "setting_ok x"
  shows "config_line (setting_line x) c = Ok (store (the (find_entry (fst x))) (snd x) c)"
proof -
  obtain b cs where n: "fst x = b # cs" using assms by (cases "fst x") (simp_all add: setting_ok_def)
  then have "\<not> isspace_c b" "b \<notin> {CHR ''#'', CHR '';''}" using assms by (simp_all add: setting_ok_def)
  then have b: "b \<notin> {CR, LF, CHR ''#'', CHR '';''}" by (auto simp: isspace_c_def code_def)
  have "chr_at (setting_line x) 0 = b" by (simp add: n setting_line_def chr_at_def)
  with b have "chr_at (setting_line x) 0 \<notin> {CR, LF, CHR ''#'', CHR '';''}" by simp
  moreover have "sscanf config_fmt (setting_line x) = [SV (fst x), SV (snd x)]" "sscanf_ret config_fmt (setting_line x) = 2"
    by (simp_all add: sscanf_def sscanf_ret_def scan_setting [OF assms])
  moreover have "length (fst x) < 64" "length (snd x) < 512" "find_entry (fst x) \<noteq> None"
    using assms by (simp_all add: setting_ok_def)
  ultimately show ?thesis by (auto simp: config_line_def sv_def)
qed

lemma config_lines_settings:
  "\<forall>x \<in> set xs. setting_ok x \<Longrightarrow>
   config_lines (map setting_line xs) c = Ok (fold (\<lambda>x. store (the (find_entry (fst x))) (snd x)) xs c)"
  by (induction xs arbitrary: c) (simp_all add: config_line_setting)

definition json_row :: "string \<times> string \<Rightarrow> string option \<times> string option" where
  "json_row x = (Some (fst x), Some (snd x))"

definition pattern_row :: "string \<times> string \<Rightarrow> wildmat_t" where
  "pattern_row x = \<lparr>w_pattern = snd x, w_name = fst x\<rparr>"

definition pattern_ok :: "string \<times> string \<Rightarrow> bool" where
  "pattern_ok x \<longleftrightarrow> length (fst x) < MAX_NAME \<and> length (snd x) < 1024"

lemma wildmat_row_ok: "pattern_ok x \<Longrightarrow> wildmat_row (fst x) (snd x) = Ok (pattern_row x)"
  by (simp add: wildmat_row_def pattern_ok_def strcpy_to_def pattern_row_def)

text \<open>Where the old rows carry the names of the answer in its order, each pattern goes to its own row.\<close>

lemma wmats_place:
  assumes "distinct (map fst xs)" and "n \<le> length xs" and "\<forall>j < n. w_name (rows j) = fst (xs ! j)" and "i < length xs"
  shows "(case find_index (\<lambda>r. w_name r = fst (xs ! i)) (map rows [0..<n]) of Some k \<Rightarrow> k | None \<Rightarrow> i) = i"
proof (cases "find_index (\<lambda>r. w_name r = fst (xs ! i)) (map rows [0..<n])")
  case (Some k)
  then have "k < n" "fst (xs ! k) = fst (xs ! i)" using assms(3) by (auto simp: find_index_Some)
  with assms have "k = i" by (metis distinct_conv_nth length_map less_le_trans nth_map)
  with Some show ?thesis by simp
qed simp

lemma wmats_loop_in_order:
  assumes "distinct (map fst xs)" and "n \<le> length xs" and "\<forall>x \<in> set xs. pattern_ok x" and "length xs \<le> MAX_WILDMATS"
  shows "ws = drop i xs \<Longrightarrow> \<forall>j < n. w_name (rows j) = fst (xs ! j) \<Longrightarrow>
    \<exists>rows'. wmats_loop n (map json_row ws) i rows = Ok rows'
      \<and> (\<forall>j. rows' j = (if i \<le> j \<and> j < length xs then pattern_row (xs ! j) else rows j))"
proof (induction ws arbitrary: i rows)
  case Nil
  then show ?case by auto
next
  case (Cons x ws)
  have "i < length xs" using Cons.prems(1) by (metis drop_eq_Nil linorder_not_less list.distinct(1))
  moreover from this have "x # ws = xs ! i # drop (Suc i) xs" using Cons.prems(1) by (simp add: Cons_nth_drop_Suc)
  ultimately have i: "i < length xs" "x = xs ! i" "ws = drop (Suc i) xs" by simp_all
  let ?rows = "rows(i := pattern_row x)"
  have "\<forall>j < n. w_name (?rows j) = fst (xs ! j)"
    using Cons.prems(2) i(2) by (simp add: pattern_row_def)
  then obtain rows' where r: "wmats_loop n (map json_row ws) (Suc i) ?rows = Ok rows'"
      "\<forall>j. rows' j = (if Suc i \<le> j \<and> j < length xs then pattern_row (xs ! j) else ?rows j)"
    using Cons.IH [OF i(3)] by blast
  have "pattern_ok x" using assms(3) i by simp
  moreover have "i < MAX_WILDMATS" using assms(4) i(1) by simp
  ultimately have "wmats_loop n (map json_row (x # ws)) i rows = Ok rows'"
    using wmats_place [OF assms(1,2) Cons.prems(2) i(1)] r(1) i(2) wildmat_row_ok [of x] by (simp add: json_row_def)
  moreover have "rows' j = (if i \<le> j \<and> j < length xs then pattern_row (xs ! j) else rows j)" for j
    using r(2) i by auto
  ultimately show ?case by blast
qed

section \<open>Properties\<close>


text \<open>C36: The patterns of the web service are loaded as they are when the table is empty, and when it holds the
  first of them in the same order.\<close>

theorem remote_patterns_loaded:
  assumes "distinct (map fst xs)" and "\<forall>x \<in> set xs. pattern_ok x" and "length xs \<le> MAX_WILDMATS"
    and "map w_name (m_wildmats m) = take (length (m_wildmats m)) (map fst xs)"
  shows "rconf_getwmats (Some (map json_row xs)) behind m = Ok (m\<lparr>m_wildmats := map pattern_row xs\<rparr>)"
proof -
  let ?n = "length (m_wildmats m)"
  let ?rows = "\<lambda>i. if i < ?n then m_wildmats m ! i else behind i"
  have n: "?n \<le> length xs" using arg_cong [OF assms(4), of length] by simp
  have "w_name (?rows j) = fst (xs ! j)" if "j < ?n" for j
    using that n arg_cong [OF assms(4), of "\<lambda>l. l ! j"] by simp
  then obtain rows' where r: "wmats_loop ?n (map json_row xs) 0 ?rows = Ok rows'"
      "\<forall>j. rows' j = (if 0 \<le> j \<and> j < length xs then pattern_row (xs ! j) else ?rows j)"
    using wmats_loop_in_order [OF assms(1) n assms(2,3), of xs 0 ?rows] by auto
  have "map rows' [0..<length xs] = map pattern_row xs" using r(2) by (intro nth_equalityI) auto
  with r(1) show ?thesis by (simp add: rconf_getwmats_def Let_def)
qed

text \<open>In another order they are not: a new name is written to the row of its number in the answer, over the
  row that another name of the answer has just been stored to, and a row whose name is gone stays. When
  the table holds \<open>old\<close>, \<open>nl\<close> and \<open>all\<close> and the service answers \<open>nl\<close>, \<open>new\<close> and \<open>all\<close>, the
  pattern \<open>nl\<close> is lost and \<open>old\<close> is kept.\<close>

theorem remote_reload_loses_pattern:
  "rconf_getwmats (Some (map json_row [(''nl'', ''nl.*''), (''new'', ''new.*''), (''all'', ''*'')])) behind
     (m\<lparr>m_wildmats := map pattern_row [(''old'', ''old.*''), (''nl'', ''nl.*''), (''all'', ''*'')]\<rparr>)
   = Ok (m\<lparr>m_wildmats := map pattern_row [(''old'', ''old.*''), (''new'', ''new.*''), (''all'', ''*'')]\<rparr>)"
  by (simp add: rconf_getwmats_def Let_def json_row_def pattern_row_def upt_rec MAX_WILDMATS_def wildmat_row_def strcpy_to_def
      MAX_NAME_def numeral_eq_Suc)

section \<open>Witnesses\<close>

definition sample_settings :: "(string \<times> string) list" where
  "sample_settings = [(''BasePath'', ''/news''), (''accessfile'', ''a.conf''), (''BufSize'', ''100''), (''BufSize'', ''8192'')]"


theorem remote_patterns_loaded_witness:
  "rconf_getwmats (Some (map json_row [(''all'', ''*''), (''none'', ''!*'')])) (\<lambda>_. pattern_row ([], []))
     (zero_master\<lparr>m_wildmats := [pattern_row (''all'', ''*,!x'')]\<rparr>)
   = Ok (zero_master\<lparr>m_wildmats := map pattern_row [(''all'', ''*''), (''none'', ''!*'')]\<rparr>)"
proof -
  let ?m = "zero_master\<lparr>m_wildmats := [pattern_row (''all'', ''*,!x'')]\<rparr>"
  have "rconf_getwmats (Some (map json_row [(''all'', ''*''), (''none'', ''!*'')])) (\<lambda>_. pattern_row ([], [])) ?m
      = Ok (?m\<lparr>m_wildmats := map pattern_row [(''all'', ''*''), (''none'', ''!*'')]\<rparr>)"
    by (rule remote_patterns_loaded) (simp_all add: pattern_ok_def MAX_NAME_def MAX_WILDMATS_def pattern_row_def)
  then show ?thesis by simp
qed

end
