(* ===== verification/Server.thy ===== *)
theory Server
  imports Access
begin

text \<open>
  \<open>server.c\<close>: the backend server table, its configuration file and the choice of a server by
  policy. \<open>lservers\<close> lists the servers but the default one by falling level; the balancer keeps a
  position per level, which every choice moves on. \<open>get_next_server\<close> calls itself as long as the
  server at the position is full, a partial function. The \<open>old\<close> argument of the parser is what the
  array holds beyond its counter: zero at the start, the rows of the last load after a reload. The
  connection to the server that was chosen is in theory \<open>Socket\<close>.
\<close>

section \<open>Lookup\<close>

definition getserver :: "string \<Rightarrow> master_t \<Rightarrow> nat option" where
  "getserver name m = find_index (\<lambda>s. strcmp (s_Name s) name = 0) (m_servers m)"

definition clear_servers :: "master_t \<Rightarrow> master_t" where
  "clear_servers m = m\<lparr>m_servers := []\<rparr>"

section \<open>The configuration file\<close>

text \<open>The globals of the parser: the last \<open>groups\<close> value and the last level.\<close>

record srv_ctx =
  x_lastgroups :: string
  x_lastlevel :: nat

definition bool_value :: "string \<Rightarrow> bool" where
  "bool_value val = (if strcaseeq val ''false'' then False
     else if strcaseeq val ''true'' then True else atoi val \<noteq> 0)"

definition server_option ::
  "string \<Rightarrow> string \<Rightarrow> srv_ctx \<Rightarrow> server_t \<Rightarrow> (srv_ctx \<times> server_t) outcome" where
  "server_option key val x s =
     (if strcaseeq key ''hostname'' then obind (strcpy_to 256 val) (\<lambda>v. Ok (x, s\<lparr>s_Hostname := v\<rparr>))
      else if strcaseeq key ''groups'' then
        (let x' = (if strcmp (x_lastgroups x) val \<noteq> 0
                   then \<lparr>x_lastgroups = val, x_lastlevel = x_lastlevel x + 1\<rparr> else x)
         in Ok (x', s\<lparr>s_Groups := val, s_Level := x_lastlevel x'\<rparr>))
      else if strcaseeq key ''Username'' then obind (strcpy_to 64 val) (\<lambda>v. Ok (x, s\<lparr>s_Username := v\<rparr>))
      else if strcaseeq key ''Password'' then obind (strcpy_to 64 val) (\<lambda>v. Ok (x, s\<lparr>s_Password := v\<rparr>))
      else if strcaseeq key ''timeout'' then Ok (x, s\<lparr>s_Timeout := u32 (atoi val)\<rparr>)
      else if strcaseeq key ''port'' then Ok (x, s\<lparr>s_Port := u32 (atoi val)\<rparr>)
      else if strcaseeq key ''maxconnections'' then Ok (x, s\<lparr>s_MaxConnections := u32 (atoi val)\<rparr>)
      else if strcaseeq key ''type'' then
        (if strcaseeq val ''spool'' then Ok (x, s\<lparr>s_ServerType := Type_spool\<rparr>)
         else if strcaseeq val ''xover'' then Ok (x, s\<lparr>s_ServerType := Type_xover\<rparr>)
         else if strcaseeq val ''post'' then Ok (x, s\<lparr>s_ServerType := Type_post\<rparr>)
         else Die ''Unknown server type'')
      else if strcaseeq key ''policy'' then
        (if strcaseeq val ''single'' then Ok (x, s\<lparr>s_Policy := Policy_single\<rparr>)
         else if strcaseeq val ''backup'' then Ok (x, s\<lparr>s_Policy := Policy_backup\<rparr>)
         else if strcaseeq val ''balance'' then Ok (x, s\<lparr>s_Policy := Policy_balance\<rparr>)
         else Die ''Unknown server policy'')
      else if strcaseeq key ''activetimes'' then Ok (x, s\<lparr>s_ActiveTimes := bool_value val\<rparr>)
      else if strcaseeq key ''descriptions'' then Ok (x, s\<lparr>s_Descriptions := bool_value val\<rparr>)
      else if strcaseeq key ''splitlist'' then Ok (x, s\<lparr>s_SplitList := bool_value val\<rparr>)
      else Ok (x, s))"

definition server_line_format :: "conv list" where
  "server_line_format = [FSkip blank, FStr (Some 64), FSkip blank, FStr (Some 16384), FLit ''[^'']"

fun server_lines ::
  "string list \<Rightarrow> srv_ctx \<Rightarrow> server_t \<Rightarrow> (srv_ctx \<times> server_t \<times> string list) outcome" where
  "server_lines [] x s = Ok (x, s, [])"
| "server_lines (l # ls) x s =
     obind (chop l) (\<lambda>buf.
       if is_comment buf then server_lines ls x s
       else if strncaseeq buf ''end'' 3 then Ok (x, s, ls)
       else
         (let vs = sscanf server_line_format buf; key = sv vs 0 []; val = sv vs 1 [] in
          if 64 \<le> length key \<or> 16384 \<le> length val then Undef
          else if sscanf_ret server_line_format buf \<noteq> 2 then Die ''Error on line''
          else obind (server_option key val x s) (\<lambda>(x', s'). server_lines ls x' s')))"

definition parsecfg_server ::
  "(nat \<Rightarrow> server_t) \<Rightarrow> string \<Rightarrow> string list \<Rightarrow> srv_ctx \<Rightarrow> master_t
     \<Rightarrow> (srv_ctx \<times> master_t \<times> string list) outcome" where
  "parsecfg_server old buf ls x m =
     (let fmt = [FStr None, FWs, FStr None];
          vs = sscanf fmt buf;
          key = sv vs 0 []; val = sv vs 1 []
      in if 64 \<le> length key \<or> 16384 \<le> length val then Undef
         else if sscanf_ret fmt buf \<noteq> 2 then Die ''Server Syntax error''
         else if MAX_SERVERS \<le> length (m_servers m) then Undef
         else obind (if val = ''default'' then Ok ((old (length (m_servers m)))\<lparr>s_MaxConnections := 0\<rparr>)
              else (case getserver ''default'' m of
                      None \<Rightarrow> Die ''Could not retrieve default server''
                    | Some d \<Rightarrow> Ok (m_servers m ! d))) (\<lambda>base.
           obind (strcpy_to 32 val) (\<lambda>name.
           if getserver val m \<noteq> None then Die ''Servername already defined''
           else obind (server_lines ls x (base\<lparr>s_Name := name\<rparr>)) (\<lambda>(x', s, rest).
             Ok (x', m\<lparr>m_servers := m_servers m @ [s]\<rparr>, rest)))))"

function (sequential) server_file ::
  "(nat \<Rightarrow> server_t) \<Rightarrow> string list \<Rightarrow> srv_ctx \<Rightarrow> master_t \<Rightarrow> master_t outcome" where
  "server_file old [] x m = Ok m"
| "server_file old (l # ls) x m =
     (case chop l of
        Undef \<Rightarrow> Undef
      | Die e \<Rightarrow> Die e
      | Ok buf \<Rightarrow>
          if is_comment buf then server_file old ls x m
          else if strncaseeq buf ''server'' 6 then
            (case parsecfg_server old buf ls x m of
               Undef \<Rightarrow> Undef
             | Die e \<Rightarrow> Die e
             | Ok (x', m', rest) \<Rightarrow>
                 if length rest \<le> length ls then server_file old rest x' m' else Undef)
          else Die ''Syntax error'')"
  by pat_completeness auto
termination
  by (relation "measure (\<lambda>(old, ls, x, m). length ls)") auto

section \<open>The balancer\<close>

definition level_of :: "master_t \<Rightarrow> nat \<Rightarrow> nat" where
  "level_of m i = s_Level (m_servers m ! i)"

definition count_server_level :: "nat \<Rightarrow> master_t \<Rightarrow> nat" where
  "count_server_level lv m = length (filter (\<lambda>s. s_Level s = lv) (m_servers m))"

definition add_level_usage :: "nat \<Rightarrow> master_t \<Rightarrow> master_t" where
  "add_level_usage lv m =
     (let pos = m_balance_pos m lv + 1 in
      m\<lparr>m_balance_pos := (m_balance_pos m)(lv := if count_server_level lv m \<le> pos then 0 else pos)\<rparr>)"

text \<open>The servers of a level in the order the scan of \<open>lservers\<close> meets them.\<close>

definition at_level :: "nat \<Rightarrow> master_t \<Rightarrow> nat list" where
  "at_level lv m = filter (\<lambda>i. level_of m i = lv) (take (length (m_servers m) - 1) (m_lservers m))"

definition is_full :: "master_t \<Rightarrow> nat \<Rightarrow> bool" where
  "is_full m i \<longleftrightarrow> s_MaxConnections (m_servers m ! i) \<noteq> 0
     \<and> s_MaxConnections (m_servers m ! i) \<le> s_connections (m_servers m ! i)"

partial_function (option) get_next_server :: "nat \<Rightarrow> master_t \<Rightarrow> (nat option \<times> master_t) option" where
  "get_next_server lv m =
     (if m_balance_pos m lv < length (at_level lv m)
      then let i = at_level lv m ! m_balance_pos m lv; m' = add_level_usage lv m in
           if is_full m i then get_next_server lv m' else Some (Some i, m')
      else Some (None, m))"

declare get_next_server.simps [code]

definition check_one :: "nat \<Rightarrow> int \<Rightarrow> master_t \<Rightarrow> (int \<times> master_t) outcome option" where
  "check_one i lev m =
     (if int (level_of m i) = lev then Some (Ok (lev, m))
      else if s_Policy (m_servers m ! i) = Policy_single then Some (Ok (lev, m))
      else map_option (\<lambda>(s, m'). if s = None \<or> s = Some i then Die ''no secondary server found''
                                 else Ok (int (level_of m i), m'))
             (get_next_server (level_of m i) (add_level_usage (level_of m i) m)))"

fun check_redundancy_loop :: "nat list \<Rightarrow> int \<Rightarrow> master_t \<Rightarrow> master_t outcome option" where
  "check_redundancy_loop [] lev m = Some (Ok m)"
| "check_redundancy_loop (i # is) lev m =
     (case check_one i lev m of
        None \<Rightarrow> None
      | Some (Ok (lev', m')) \<Rightarrow> check_redundancy_loop is lev' m'
      | Some (Die e) \<Rightarrow> Some (Die e)
      | Some Undef \<Rightarrow> Some Undef)"

definition check_server_redundancy :: "master_t \<Rightarrow> master_t outcome option" where
  "check_server_redundancy m =
     check_redundancy_loop (take (length (m_servers m) - 1) (m_lservers m)) (-1) m"

text \<open>
  \<open>load_servers\<close> sorts with \<open>qsort\<close>, glibc's merge sort, which keeps the order of servers of one
  level. \<open>mtime\<close> is the time \<open>stat\<close> gives for the file.
\<close>

definition load_servers ::
  "files \<Rightarrow> cfg_t \<Rightarrow> (nat \<Rightarrow> server_t) \<Rightarrow> int \<Rightarrow> master_t \<Rightarrow> master_t outcome option" where
  "load_servers fs cfg old mtime m =
     (case fs (cf_ServerFile cfg) of
        None \<Rightarrow> Some (Die ''Can't open server config'')
      | Some ls \<Rightarrow>
          (case server_file old ls \<lparr>x_lastgroups = [], x_lastlevel = 0\<rparr> m of
             Undef \<Rightarrow> Some Undef
           | Die e \<Rightarrow> Some (Die e)
           | Ok m1 \<Rightarrow>
               (case getserver ''default'' m1 of
                  None \<Rightarrow> Some (Die ''Server \"default\" not defined'')
                | Some d \<Rightarrow>
                    (let rest = filter (\<lambda>i. i \<noteq> d) [0..<length (m_servers m1)];
                         sorted = sort_key (\<lambda>i. - int (level_of m1 i)) rest
                     in check_server_redundancy
                          (m1\<lparr>m_lservers := sorted, m_laststatserver := mtime, m_balance_pos := \<lambda>_. 0\<rparr>)))))"

text \<open>A reload empties the table, and the rows it held are what the next load finds in memory.\<close>

definition reload_servers :: "files \<Rightarrow> cfg_t \<Rightarrow> int \<Rightarrow> master_t \<Rightarrow> master_t outcome option" where
  "reload_servers fs cfg mtime m =
     (if m_laststatserver m < mtime
      then load_servers fs cfg
             (\<lambda>i. if i < length (m_servers m) then m_servers m ! i else zero_server) mtime (clear_servers m)
      else Some (Ok m))"

section \<open>Choice by policy\<close>

definition selectserver_primary :: "string \<Rightarrow> master_t \<Rightarrow> (nat option \<times> master_t) outcome option" where
  "selectserver_primary name m =
     (case getserver name m of
        None \<Rightarrow> Some Undef
      | Some i \<Rightarrow>
          (let s = m_servers m ! i in
           if s_Policy s = Policy_backup \<and> is_full m i then map_option Ok (get_next_server (s_Level s) m)
           else if s_Policy s = Policy_single \<or> s_Policy s = Policy_backup then Some (Ok (Some i, m))
           else map_option Ok (get_next_server (s_Level s) m)))"

definition selectserver_backup ::
  "nat option \<Rightarrow> nat \<Rightarrow> master_t \<Rightarrow> (nat option \<times> master_t) option" where
  "selectserver_backup current primary m =
     (case current of
        None \<Rightarrow> Some (None, m)
      | Some c \<Rightarrow>
          if s_Policy (m_servers m ! c) = Policy_single then Some (None, m)
          else get_next_server (level_of m primary) m)"

section \<open>Lemmas\<close>

lemma server_lines_rest: "server_lines ls x s = Ok (x', s', rest) \<Longrightarrow> length rest \<le> length ls"
proof (induction ls arbitrary: x s)
  case Nil
  then show ?case by simp
next
  case (Cons l ls)
  then have "rest = ls \<or> (\<exists>y t. server_lines ls y t = Ok (x', s', rest))"
    by (auto simp: Let_def split: if_splits)
  with Cons.IH show ?case by (auto simp: le_Suc_eq)
qed

lemma parsecfg_server_rest: "parsecfg_server old buf ls x m = Ok (x', m', rest) \<Longrightarrow> length rest \<le> length ls"
  by (auto simp: parsecfg_server_def Let_def dest: server_lines_rest split: if_splits)

lemma parsecfg_server_Ok:
  assumes "parsecfg_server old buf ls x m = Ok (x', m', rest)"
  obtains base name s where "server_lines ls x (base\<lparr>s_Name := name\<rparr>) = Ok (x', s, rest)"
    and "m' = m\<lparr>m_servers := m_servers m @ [s]\<rparr>" and "length (m_servers m) < MAX_SERVERS" and "getserver name m = None"
    and "if name = ''default'' then base = (old (length (m_servers m)))\<lparr>s_MaxConnections := 0\<rparr>
      else \<exists>d. getserver ''default'' m = Some d \<and> base = m_servers m ! d"
proof -
  define pick where "pick val = (if val = ''default'' then Ok ((old (length (m_servers m)))\<lparr>s_MaxConnections := 0\<rparr>)
      else (case getserver ''default'' m of None \<Rightarrow> Die ''Could not retrieve default server'' | Some d \<Rightarrow> Ok (m_servers m ! d)))" for val
  from assms obtain base name s where s: "server_lines ls x (base\<lparr>s_Name := name\<rparr>) = Ok (x', s, rest)"
      "m' = m\<lparr>m_servers := m_servers m @ [s]\<rparr>" "length (m_servers m) < MAX_SERVERS" "getserver name m = None"
    and b: "pick name = Ok base"
    unfolding parsecfg_server_def Let_def pick_def [symmetric] by (auto split: if_split_asm)
  from b have "if name = ''default'' then base = (old (length (m_servers m)))\<lparr>s_MaxConnections := 0\<rparr>
      else \<exists>d. getserver ''default'' m = Some d \<and> base = m_servers m ! d"
    unfolding pick_def by (auto split: if_splits option.splits)
  with s show thesis by (rule that)
qed
lemma server_option_name: "server_option key val x s = Ok (x', s') \<Longrightarrow> s_Name s' = s_Name s"
  unfolding server_option_def by (elim if_eqE) (auto simp: Let_def)

lemma server_lines_name: "server_lines ls x s = Ok (x', s', rest) \<Longrightarrow> s_Name s' = s_Name s"
proof (induction ls arbitrary: x s)
  case Nil
  then show ?case by simp
next
  case (Cons l ls)
  then show ?case
    by (auto simp: Let_def dest!: server_option_name split: if_splits)
qed

lemma parsecfg_server_row:
  assumes "parsecfg_server old buf ls x m = Ok (x', m', rest)"
  shows "\<exists>s. m' = m\<lparr>m_servers := m_servers m @ [s]\<rparr> \<and> length (m_servers m) < MAX_SERVERS
    \<and> s_Name s \<notin> s_Name ` set (m_servers m)"
proof -
  from assms obtain base name s where s: "server_lines ls x (base\<lparr>s_Name := name\<rparr>) = Ok (x', s, rest)"
      "m' = m\<lparr>m_servers := m_servers m @ [s]\<rparr>" "length (m_servers m) < MAX_SERVERS" "getserver name m = None"
    by (elim parsecfg_server_Ok)
  from server_lines_name [OF s(1)] have "s_Name s = name" by simp
  with s(2-4) show ?thesis
    by (intro exI [of _ s]) (auto simp: getserver_def find_index_None)
qed

lemma server_file_names:
  "server_file old ls x m = Ok m' \<Longrightarrow> distinct (map s_Name (m_servers m)) \<Longrightarrow> length (m_servers m) \<le> MAX_SERVERS \<Longrightarrow>
   distinct (map s_Name (m_servers m')) \<and> length (m_servers m') \<le> MAX_SERVERS"
proof (induction old ls x m rule: server_file.induct)
  case (1 old x m)
  then show ?case by simp
next
  case (2 old l ls x m)
  from "2.prems"(1) obtain buf where buf: "chop l = Ok buf" by (cases "chop l") auto
  show ?case
  proof (cases "is_comment buf")
    case True
    with 2 buf show ?thesis by simp
  next
    case False
    with "2.prems"(1) buf obtain x' m1 rest where p: "strncaseeq buf ''server'' 6"
        "parsecfg_server old buf ls x m = Ok (x', m1, rest)" "server_file old rest x' m1 = Ok m'"
        "length rest \<le> length ls"
      by (auto split: if_splits outcome.splits)
    from parsecfg_server_row [OF p(2)] obtain s where s: "m1 = m\<lparr>m_servers := m_servers m @ [s]\<rparr>"
        "length (m_servers m) < MAX_SERVERS" "s_Name s \<notin> s_Name ` set (m_servers m)" by blast
    have "distinct (map s_Name (m_servers m1))" "length (m_servers m1) \<le> MAX_SERVERS"
      using s "2.prems"(2) by auto
    with "2.IH"(2) [OF buf False p(1,2) refl refl p(4,3)] show ?thesis by blast
  qed
qed

lemma add_level_usage_frame:
  "m_servers (add_level_usage lv m) = m_servers m" "m_lservers (add_level_usage lv m) = m_lservers m"
  "m_profiles (add_level_usage lv m) = m_profiles m"
  by (simp_all add: add_level_usage_def Let_def)

lemma at_level_frame: "at_level lv (add_level_usage k m) = at_level lv m"
  by (simp add: at_level_def level_of_def add_level_usage_frame)

lemma is_full_frame: "is_full (add_level_usage k m) i = is_full m i"
  by (simp add: is_full_def add_level_usage_frame)

lemma count_frame: "count_server_level lv (add_level_usage k m) = count_server_level lv m"
  by (simp add: count_server_level_def add_level_usage_frame)

lemmas usage_frames = add_level_usage_frame at_level_frame is_full_frame count_frame

text \<open>The position moves on round the servers of the level.\<close>

lemma pos_step:
  assumes "m_balance_pos m lv < count_server_level lv m"
  shows "m_balance_pos (add_level_usage lv m) lv = (m_balance_pos m lv + 1) mod count_server_level lv m"
  using assms by (auto simp: add_level_usage_def Let_def mod_if)

lemma add_usage_twice:
  "m_balance_pos m lv < count_server_level lv m \<Longrightarrow>
   m_balance_pos ((add_level_usage lv ^^ k) m) lv = (m_balance_pos m lv + k) mod count_server_level lv m
   \<and> m_balance_pos ((add_level_usage lv ^^ k) m) lv < count_server_level lv m
   \<and> count_server_level lv ((add_level_usage lv ^^ k) m) = count_server_level lv m
   \<and> at_level lv ((add_level_usage lv ^^ k) m) = at_level lv m
   \<and> is_full ((add_level_usage lv ^^ k) m) = is_full m
   \<and> m_servers ((add_level_usage lv ^^ k) m) = m_servers m"
proof (induction k)
  case 0
  then show ?case by simp
next
  case (Suc k)
  then have ih: "m_balance_pos ((add_level_usage lv ^^ k) m) lv = (m_balance_pos m lv + k) mod count_server_level lv m"
      "m_balance_pos ((add_level_usage lv ^^ k) m) lv < count_server_level lv ((add_level_usage lv ^^ k) m)"
      "count_server_level lv ((add_level_usage lv ^^ k) m) = count_server_level lv m"
      "at_level lv ((add_level_usage lv ^^ k) m) = at_level lv m"
      "is_full ((add_level_usage lv ^^ k) m) = is_full m"
      "m_servers ((add_level_usage lv ^^ k) m) = m_servers m" by auto
  from pos_step [OF ih(2)] ih Suc.prems show ?case
    by (auto simp: usage_frames fun_eq_iff mod_Suc_eq)
qed

text \<open>
  The level is balanced when its position counts the servers the scan can meet: the default server
  is of another level, and the position is in range.
\<close>

definition balanced :: "nat \<Rightarrow> master_t \<Rightarrow> bool" where
  "balanced lv m \<longleftrightarrow> length (at_level lv m) = count_server_level lv m
     \<and> m_balance_pos m lv < length (at_level lv m)"

lemma get_next_skip:
  assumes "balanced lv m" and "is_full m (at_level lv m ! m_balance_pos m lv)"
  shows "get_next_server lv m = get_next_server lv (add_level_usage lv m)"
  using assms by (subst get_next_server.simps) (simp add: balanced_def Let_def)

lemma get_next_stop:
  assumes "balanced lv m" and "\<not> is_full m (at_level lv m ! m_balance_pos m lv)"
  shows "get_next_server lv m = Some (Some (at_level lv m ! m_balance_pos m lv), add_level_usage lv m)"
  using assms by (subst get_next_server.simps) (simp add: balanced_def Let_def)

lemma balanced_step: "balanced lv m \<Longrightarrow> balanced lv (add_level_usage lv m)"
  using add_usage_twice [of m lv 1] by (simp add: balanced_def)

lemma get_next_after:
  assumes "balanced lv m"
    and "\<not> is_full m (at_level lv m ! ((m_balance_pos m lv + j) mod length (at_level lv m)))"
    and "\<forall>k < j. is_full m (at_level lv m ! ((m_balance_pos m lv + k) mod length (at_level lv m)))"
  shows "get_next_server lv m =
    Some (Some (at_level lv m ! ((m_balance_pos m lv + j) mod length (at_level lv m))),
      (add_level_usage lv ^^ Suc j) m)"
  using assms
proof (induction j arbitrary: m)
  case 0
  then show ?case using get_next_stop [of lv m] by (simp add: balanced_def)
next
  case (Suc j)
  from Suc.prems(1) have pos: "m_balance_pos m lv < count_server_level lv m" "count_server_level lv m = length (at_level lv m)"
    by (auto simp: balanced_def)
  from Suc.prems(3) have "is_full m (at_level lv m ! (m_balance_pos m lv mod length (at_level lv m)))" by force
  with pos have f: "is_full m (at_level lv m ! m_balance_pos m lv)" by simp
  have step: "m_balance_pos (add_level_usage lv m) lv = (m_balance_pos m lv + 1) mod length (at_level lv m)"
    using pos_step [OF pos(1)] pos(2) by simp
  have shift: "((m_balance_pos m lv + Suc 0) mod n + k) mod n = (m_balance_pos m lv + Suc k) mod n" for n k
    by (simp add: mod_add_left_eq)
  have full: "\<forall>k < j. is_full m (at_level lv m ! ((m_balance_pos m lv + Suc k) mod length (at_level lv m)))"
    using Suc.prems(3) by blast
  have "get_next_server lv (add_level_usage lv m) =
      Some (Some (at_level lv m ! ((m_balance_pos m lv + Suc j) mod length (at_level lv m))),
        (add_level_usage lv ^^ Suc j) (add_level_usage lv m))"
    using Suc.IH [of "add_level_usage lv m"] balanced_step [OF Suc.prems(1)] Suc.prems(2) full
    by (simp add: usage_frames step shift del: funpow.simps add_Suc_right)
  with get_next_skip [OF Suc.prems(1) f] show ?case by (simp only: funpow_Suc_right comp_apply)
qed

text \<open>Calls in a row: \<open>choices k\<close> is what \<open>k\<close> of them return.\<close>

fun choices :: "nat \<Rightarrow> nat \<Rightarrow> master_t \<Rightarrow> nat option list option" where
  "choices 0 lv m = Some []"
| "choices (Suc k) lv m =
     (case get_next_server lv m of
        None \<Rightarrow> None
      | Some (i, m') \<Rightarrow> map_option ((#) i) (choices k lv m'))"

lemma choices_cyclic:
  "balanced lv m \<Longrightarrow> \<forall>i \<in> set (at_level lv m). \<not> is_full m i \<Longrightarrow>
   choices k lv m = Some (map (\<lambda>j. Some (at_level lv m ! ((m_balance_pos m lv + j) mod length (at_level lv m)))) [0..<k])"
proof (induction k arbitrary: m)
  case 0
  then show ?case by simp
next
  case (Suc k)
  let ?n = "length (at_level lv m)"
  from Suc.prems have pos: "m_balance_pos m lv < ?n" "count_server_level lv m = ?n"
    by (auto simp: balanced_def)
  then have "\<not> is_full m (at_level lv m ! m_balance_pos m lv)" using Suc.prems(2) by simp
  from get_next_stop [OF Suc.prems(1) this]
  have g: "get_next_server lv m = Some (Some (at_level lv m ! m_balance_pos m lv), add_level_usage lv m)" .
  have step: "m_balance_pos (add_level_usage lv m) lv = (m_balance_pos m lv + Suc 0) mod ?n"
    using pos_step [of m lv] pos by simp
  have shift: "((m_balance_pos m lv + Suc 0) mod ?n + j) mod ?n = (m_balance_pos m lv + Suc j) mod ?n" for j
    by (simp add: mod_add_left_eq)
  have "choices k lv (add_level_usage lv m) =
      Some (map (\<lambda>j. Some (at_level lv m ! ((m_balance_pos m lv + Suc j) mod ?n))) [0..<k])"
    using Suc.IH [of "add_level_usage lv m"] balanced_step [OF Suc.prems(1)] Suc.prems(2)
    by (simp add: usage_frames step shift del: add_Suc_right)
  moreover have "[0..<Suc k] = 0 # map Suc [0..<k]"
    using upt_conv_Cons [of 0 "Suc k"] by (simp add: map_Suc_upt del: upt_Suc)
  ultimately show ?case using g pos by (simp add: comp_def del: upt_Suc)
qed

lemma sticks:
  "m_balance_pos m lv = length (at_level lv m) \<Longrightarrow> choices k lv m = Some (replicate k None)"
  by (induction k) (simp_all add: get_next_server.simps)

lemma runs_off:
  assumes "count_server_level lv m = Suc (length (at_level lv m))" and "m_balance_pos m lv \<le> length (at_level lv m)"
    and "\<forall>i \<in> set (at_level lv m). \<not> is_full m i"
  shows "choices (length (at_level lv m) - m_balance_pos m lv + k) lv m =
    Some (map Some (drop (m_balance_pos m lv) (at_level lv m)) @ replicate k None)"
  using assms
proof (induction "length (at_level lv m) - m_balance_pos m lv" arbitrary: m)
  case 0
  then show ?case by (simp add: sticks)
next
  case (Suc n)
  let ?m = "add_level_usage lv m"
  from Suc.hyps(2) have lt: "m_balance_pos m lv < length (at_level lv m)" by simp
  with Suc.prems have g: "get_next_server lv m = Some (Some (at_level lv m ! m_balance_pos m lv), ?m)"
    by (subst get_next_server.simps) (simp add: Let_def)
  have pos: "m_balance_pos ?m lv = Suc (m_balance_pos m lv)"
    using Suc.prems(1) lt by (simp add: add_level_usage_def Let_def)
  have "choices (n + k) lv ?m = Some (map Some (drop (Suc (m_balance_pos m lv)) (at_level lv m)) @ replicate k None)"
  proof -
    have n: "n = length (at_level lv ?m) - m_balance_pos ?m lv"
      using Suc.hyps(2) by (simp add: usage_frames pos)
    from Suc.hyps(1) [OF n] Suc.prems lt show ?thesis
      by (simp add: usage_frames pos flip: n [unfolded usage_frames pos])
  qed
  with g Suc.hyps(2) lt show ?case
    by (simp flip: Suc.hyps(2) add: Cons_nth_drop_Suc [symmetric])
qed

text \<open>The check of the redundancy only moves positions.\<close>

definition same_servers :: "master_t \<Rightarrow> master_t \<Rightarrow> bool" where
  "same_servers m m' \<longleftrightarrow> m' = m\<lparr>m_balance_pos := m_balance_pos m'\<rparr>"

lemma same_servers_refl [simp]: "same_servers m m"
  by (simp add: same_servers_def)

lemma same_servers_trans: "same_servers m k \<Longrightarrow> same_servers k n \<Longrightarrow> same_servers m n"
  by (cases m; cases k; cases n) (simp add: same_servers_def)

lemma same_servers_usage [simp]: "same_servers m (add_level_usage lv m)"
  by (simp add: same_servers_def add_level_usage_def Let_def)

lemma same_serversD: "same_servers m m' \<Longrightarrow> m_servers m' = m_servers m \<and> m_lservers m' = m_lservers m"
  by (cases m; cases m') (simp add: same_servers_def)

lemma get_next_same:
  assumes "get_next_server lv m = Some x"
  shows "same_servers m (snd x)"
proof (rule get_next_server.raw_induct [OF _ assms, where P = "\<lambda>lv m x. same_servers m (snd x)"])
  fix rec :: "nat \<Rightarrow> master_t \<Rightarrow> (nat option \<times> master_t) option" and lv m x
  assume IH: "\<And>lv m x. rec lv m = Some x \<Longrightarrow> same_servers m (snd x)"
  assume "(if m_balance_pos m lv < length (at_level lv m)
      then let i = at_level lv m ! m_balance_pos m lv; m' = add_level_usage lv m in
           if is_full m i then rec lv m' else Some (Some i, m')
      else Some (None, m)) = Some x"
  then have "rec lv (add_level_usage lv m) = Some x \<or> snd x = add_level_usage lv m \<or> snd x = m"
    by (auto simp: Let_def split: if_splits)
  then show "same_servers m (snd x)"
    using IH [of lv "add_level_usage lv m" x] same_servers_usage same_servers_trans same_servers_refl by metis
qed

lemma get_next_all_full:
  assumes "get_next_server lv m = Some x"
  shows "\<not> (balanced lv m \<and> (\<forall>i \<in> set (at_level lv m). is_full m i))"
proof (rule get_next_server.raw_induct [OF _ assms,
    where P = "\<lambda>lv m x. \<not> (balanced lv m \<and> (\<forall>i \<in> set (at_level lv m). is_full m i))"])
  fix rec :: "nat \<Rightarrow> master_t \<Rightarrow> (nat option \<times> master_t) option" and lv m x
  assume IH: "\<And>lv m x. rec lv m = Some x \<Longrightarrow> \<not> (balanced lv m \<and> (\<forall>i \<in> set (at_level lv m). is_full m i))"
  assume body: "(if m_balance_pos m lv < length (at_level lv m)
      then let i = at_level lv m ! m_balance_pos m lv; m' = add_level_usage lv m in
           if is_full m i then rec lv m' else Some (Some i, m')
      else Some (None, m)) = Some x"
  show "\<not> (balanced lv m \<and> (\<forall>i \<in> set (at_level lv m). is_full m i))"
  proof
    assume b: "balanced lv m \<and> (\<forall>i \<in> set (at_level lv m). is_full m i)"
    then have "m_balance_pos m lv < length (at_level lv m)" by (simp add: balanced_def)
    with b body have "rec lv (add_level_usage lv m) = Some x" by (simp add: Let_def)
    from IH [OF this] b balanced_step [of lv m] show False by (simp add: usage_frames)
  qed
qed

lemma check_one_same: "check_one i lev m = Some (Ok (lev', m')) \<Longrightarrow> same_servers m m'"
  using get_next_same [of "level_of m i" "add_level_usage (level_of m i) m"]
    same_servers_trans [OF same_servers_usage [of m "level_of m i"]]
  by (auto simp: check_one_def split: if_splits)

lemma check_loop_same: "check_redundancy_loop is lev m = Some (Ok m') \<Longrightarrow> same_servers m m'"
proof (induction "is" arbitrary: lev m)
  case Nil
  then show ?case by simp
next
  case (Cons i "is")
  then obtain lev' m1 where c: "check_one i lev m = Some (Ok (lev', m1))"
      "check_redundancy_loop is lev' m1 = Some (Ok m')"
    by (auto split: option.splits outcome.splits prod.splits)
  from check_one_same [OF c(1)] Cons.IH [OF c(2)] show ?case by (rule same_servers_trans)
qed

lemma load_servers_result:
  assumes "m_servers m = []" and "load_servers fs cfg old mtime m = Some (Ok m')"
  shows "distinct (map s_Name (m_servers m')) \<and> length (m_servers m') \<le> MAX_SERVERS
    \<and> (\<exists>d. getserver ''default'' m' = Some d \<and> set (m_lservers m') = {..<length (m_servers m')} - {d})
    \<and> distinct (m_lservers m')
    \<and> sorted_wrt (\<ge>) (map (level_of m') (m_lservers m'))"
proof -
  from assms(2) obtain ls m1 d where f: "server_file old ls \<lparr>x_lastgroups = [], x_lastlevel = 0\<rparr> m = Ok m1"
      and d: "getserver ''default'' m1 = Some d"
      and c: "check_server_redundancy (m1\<lparr>m_lservers := sort_key (\<lambda>i. - int (level_of m1 i))
          (filter (\<lambda>i. i \<noteq> d) [0..<length (m_servers m1)]), m_laststatserver := mtime, m_balance_pos := \<lambda>_. 0\<rparr>) = Some (Ok m')"
    by (auto simp: load_servers_def Let_def split: option.splits outcome.splits)
  let ?l = "sort_key (\<lambda>i. - int (level_of m1 i)) (filter (\<lambda>i. i \<noteq> d) [0..<length (m_servers m1)])"
  from check_loop_same [OF c [unfolded check_server_redundancy_def]]
  have m': "m_servers m' = m_servers m1" "m_lservers m' = ?l" by (auto dest!: same_serversD)
  from server_file_names [OF f] assms(1) have n: "distinct (map s_Name (m_servers m1))" "length (m_servers m1) \<le> MAX_SERVERS"
    by auto
  have lv: "level_of m' = level_of m1" using m' by (simp add: level_of_def fun_eq_iff)
  have "sorted (map (\<lambda>i. - int (level_of m1 i)) ?l)" by (rule sorted_sort_key)
  then have "sorted_wrt (\<ge>) (map (level_of m1) ?l)"
    by (simp add: sorted_wrt_map)
  with n d m' lv show ?thesis by (auto simp: getserver_def)
qed

section \<open>Properties\<close>

text \<open>C19: after a load the table has one row per name within its bounds, and the balancer's list
  holds every server but the default one exactly once, by falling level.\<close>

theorem load_servers_sorted:
  assumes "m_servers m = []" and "load_servers fs cfg old mtime m = Some (Ok m')"
  shows "distinct (map s_Name (m_servers m')) \<and> length (m_servers m') \<le> MAX_SERVERS
    \<and> (\<exists>d. getserver ''default'' m' = Some d \<and> set (m_lservers m') = {..<length (m_servers m')} - {d})
    \<and> distinct (m_lservers m')
    \<and> sorted_wrt (\<ge>) (map (level_of m') (m_lservers m'))"
  by (rule load_servers_result [OF assms])


text \<open>When a server of the level has room, the search ends at the first one with room from the
  balancer's position on, and every server it passes over is full.\<close>

theorem next_server_first_with_room:
  assumes "balanced lv m" and "\<exists>i \<in> set (at_level lv m). \<not> is_full m i"
  shows "\<exists>j m'. j < length (at_level lv m) \<and>
    (let srv = \<lambda>k. at_level lv m ! ((m_balance_pos m lv + k) mod length (at_level lv m)) in
     get_next_server lv m = Some (Some (srv j), m') \<and> \<not> is_full m (srv j) \<and> (\<forall>k < j. is_full m (srv k)))
    \<and> balanced lv m' \<and> m_servers m' = m_servers m"
proof -
  let ?n = "length (at_level lv m)"
  let ?srv = "\<lambda>k. at_level lv m ! ((m_balance_pos m lv + k) mod ?n)"
  from assms(1) have pos: "m_balance_pos m lv < ?n" and cnt: "count_server_level lv m = ?n"
    by (auto simp: balanced_def)
  from assms(2) obtain i where i: "i < ?n" "\<not> is_full m (at_level lv m ! i)"
    by (metis in_set_conv_nth)
  define k where "k = (i + ?n - m_balance_pos m lv) mod ?n"
  have "(m_balance_pos m lv + k) mod ?n = (m_balance_pos m lv + (i + ?n - m_balance_pos m lv)) mod ?n"
    by (simp only: k_def mod_add_right_eq)
  also have "\<dots> = i" using i pos by simp
  finally have kk: "\<not> is_full m (?srv k)" using i by simp
  have kn: "k < ?n" unfolding k_def using pos by (intro mod_less_divisor) linarith
  define j where "j = (LEAST j. \<not> is_full m (?srv j))"
  have j: "\<not> is_full m (?srv j)" unfolding j_def by (rule LeastI [of _ k]) (rule kk)
  have less: "\<forall>k < j. is_full m (?srv k)" unfolding j_def using not_less_Least by blast
  have "j \<le> k" unfolding j_def using kk by (rule Least_le)
  with kn have jn: "j < ?n" by simp
  from get_next_after [OF assms(1) j less]
  have g: "get_next_server lv m = Some (Some (?srv j), (add_level_usage lv ^^ Suc j) m)" .
  have "balanced lv ((add_level_usage lv ^^ Suc j) m) \<and> m_servers ((add_level_usage lv ^^ Suc j) m) = m_servers m"
    using add_usage_twice [of m lv "Suc j"] pos cnt unfolding balanced_def by metis
  with g j less jn show ?thesis by (auto simp: Let_def)
qed

text \<open>C40: when every server of a level is full, the search for the next one calls itself without
  end; the choice of a server with the backup policy that is full runs into it.\<close>

theorem all_full_never_returns:
  assumes "balanced lv m" and "\<forall>i \<in> set (at_level lv m). is_full m i"
    and "getserver name m = Some s" and "s_Policy (m_servers m ! s) = Policy_backup"
    and "level_of m s = lv" and "is_full m s"
  shows "get_next_server lv m = None \<and> selectserver_primary name m = None"
  using get_next_all_full [of lv m] assms
  by (cases "get_next_server lv m") (auto simp: selectserver_primary_def level_of_def)


text \<open>A default server of the same level as the servers behind it is counted by the balancer
  but never met by its scan: once the position has passed the last of them, no choice of that level
  succeeds again.\<close>

theorem shared_level_sticks:
  assumes "count_server_level lv m = Suc (length (at_level lv m))" and "m_balance_pos m lv = 0"
    and "\<forall>i \<in> set (at_level lv m). \<not> is_full m i"
  shows "choices (length (at_level lv m) + k) lv m = Some (map Some (at_level lv m) @ replicate k None)"
  using runs_off [of lv m k] assms by simp

definition sample_servers :: "string list" where
  "sample_servers = [''server default'', '' type spool'', '' groups *'', '' policy balance'', ''end'',
     ''server a'', '' groups alt.*'', '' policy backup'', '' maxconnections 2'', ''end'',
     ''server b'', '' groups alt.*'', '' maxconnections 2'', ''end'']"

definition srv_fs :: files where
  "srv_fs = [''s'' \<mapsto> sample_servers]"

definition srv_cfg :: cfg_t where
  "srv_cfg = zero_cfg\<lparr>cf_ServerFile := ''s''\<rparr>"

definition loaded :: "master_t outcome option" where
  "loaded = load_servers srv_fs srv_cfg (\<lambda>_. zero_server) 1 zero_master"

lemma server_option_connections: "server_option key val x s = Ok (x', s') \<Longrightarrow> s_connections s' = s_connections s"
  unfolding server_option_def by (elim if_eqE) (auto simp: Let_def)

lemma server_lines_connections:
  "server_lines ls x s = Ok (x', s', rest) \<Longrightarrow> s_connections s' = s_connections s"
proof (induction ls arbitrary: x s)
  case Nil
  then show ?case by simp
next
  case (Cons l ls)
  then show ?case
    by (auto simp: Let_def dest!: server_option_connections split: if_splits)
qed

text \<open>The default server is the first row, and every row starts from its counter.\<close>

definition one_counter :: "nat \<Rightarrow> master_t \<Rightarrow> bool" where
  "one_counter c m \<longleftrightarrow> (m_servers m \<noteq> [] \<longrightarrow> getserver ''default'' m = Some 0)
     \<and> (\<forall>s \<in> set (m_servers m). s_connections s = c)"

lemma parsecfg_server_counter:
  assumes "parsecfg_server old buf ls x m = Ok (x', m', rest)" and "one_counter c m"
    and "s_connections (old 0) = c"
  shows "one_counter c m'"
proof -
  obtain base name s where s: "server_lines ls x (base\<lparr>s_Name := name\<rparr>) = Ok (x', s, rest)"
      "m' = m\<lparr>m_servers := m_servers m @ [s]\<rparr>" "getserver name m = None"
    and base: "if name = ''default'' then base = (old (length (m_servers m)))\<lparr>s_MaxConnections := 0\<rparr>
      else \<exists>d. getserver ''default'' m = Some d \<and> base = m_servers m ! d"
    using assms(1) by (elim parsecfg_server_Ok) blast
  from server_lines_connections [OF s(1)] have c: "s_connections s = s_connections base" by simp
  from server_lines_name [OF s(1)] have n: "s_Name s = name" by simp
  show ?thesis
  proof (cases "name = ''default''")
    case True
    with s(3) assms(2) have "m_servers m = []" by (auto simp: one_counter_def)
    with True base c n s(2) assms(3) show ?thesis by (simp add: one_counter_def getserver_def)
  next
    case False
    with base obtain d where d: "getserver ''default'' m = Some d" "base = m_servers m ! d" by auto
    have "d < length (m_servers m)" using d(1) by (auto simp: getserver_def)
    then have "m_servers m \<noteq> []" and "s_connections base = c"
      using assms(2) d(2) by (auto simp: one_counter_def)
    with assms(2) have "getserver ''default'' m = Some 0" and all: "\<forall>t \<in> set (m_servers m). s_connections t = c"
      by (simp_all add: one_counter_def)
    then have "getserver ''default'' m' = Some 0" unfolding s(2) by (simp add: getserver_def find_index_append)
    with all c \<open>s_connections base = c\<close> show ?thesis by (simp add: one_counter_def s(2))
  qed
qed

lemma server_file_counter:
  "server_file old ls x m = Ok m' \<Longrightarrow> one_counter (s_connections (old 0)) m \<Longrightarrow> one_counter (s_connections (old 0)) m'"
proof (induction old ls x m rule: server_file.induct)
  case (1 old x m)
  then show ?case by simp
next
  case (2 old l ls x m)
  from "2.prems"(1) obtain buf where buf: "chop l = Ok buf" by (cases "chop l") auto
  show ?case
  proof (cases "is_comment buf")
    case True
    with 2 buf show ?thesis by simp
  next
    case False
    with "2.prems"(1) buf obtain x' m1 rest where p: "strncaseeq buf ''server'' 6"
        "parsecfg_server old buf ls x m = Ok (x', m1, rest)" "server_file old rest x' m1 = Ok m'"
        "length rest \<le> length ls"
      by (auto split: if_splits outcome.splits)
    from "2.IH"(2) [OF buf False p(1,2) refl refl p(4,3)] parsecfg_server_counter [OF p(2) "2.prems"(2) refl]
    show ?thesis .
  qed
qed

text \<open>A reload of the server file forgets how many connections each server has: every row
  starts again from the counter of the old first row, while the clients stay connected, and the
  next of them to disconnect takes a counter of 0 below it.\<close>

theorem reload_forgets_connections:
  assumes "m_servers m \<noteq> []" and "m_laststatserver m < mtime"
    and "reload_servers fs cfg mtime m = Some (Ok m')" and "s_connections (m_servers m ! 0) = 0"
  shows "\<forall>s \<in> set (m_servers m'). s_connections s = 0 \<and> uint_dec (s_connections s) = 2 ^ 32 - 1"
proof -
  let ?old = "\<lambda>i. if i < length (m_servers m) then m_servers m ! i else zero_server"
  from assms(2,3) obtain ls m1 d where f: "server_file ?old ls \<lparr>x_lastgroups = [], x_lastlevel = 0\<rparr> (clear_servers m) = Ok m1"
      and c: "check_server_redundancy (m1\<lparr>m_lservers := sort_key (\<lambda>i. - int (level_of m1 i))
          (filter (\<lambda>i. i \<noteq> d) [0..<length (m_servers m1)]), m_laststatserver := mtime, m_balance_pos := \<lambda>_. 0\<rparr>) = Some (Ok m')"
    by (auto simp: reload_servers_def load_servers_def Let_def split: option.splits outcome.splits)
  from check_loop_same [OF c [unfolded check_server_redundancy_def]]
  have m': "m_servers m' = m_servers m1" by (auto dest!: same_serversD)
  have "one_counter (s_connections (?old 0)) (clear_servers m)" by (simp add: one_counter_def clear_servers_def)
  from server_file_counter [OF f this] assms(1,4) m' show ?thesis
    by (simp add: one_counter_def uint_dec_def)
qed

section \<open>Witnesses\<close>

lemma loaded_ok:
  "case loaded of Some (Ok m) \<Rightarrow> map s_Name (m_servers m) = [''default'', ''a'', ''b''] \<and> m_lservers m = [1, 2]
     \<and> map s_Level (m_servers m) = [1, 2, 2] \<and> m_balance_pos m 2 = 0 \<and> map s_connections (m_servers m) = [0, 0, 0]
     \<and> map s_MaxConnections (m_servers m) = [0, 2, 2] \<and> map s_Policy (m_servers m) = [Policy_balance, Policy_backup, Policy_balance]
     \<and> m_laststatserver m = 1
   | _ \<Rightarrow> False"
  by code_simp

text \<open>The sample table with given connection counters.\<close>

definition with_connections :: "nat \<Rightarrow> nat \<Rightarrow> nat \<Rightarrow> master_t" where
  "with_connections d a b =
     (case loaded of Some (Ok m) \<Rightarrow>
        m\<lparr>m_servers := [(m_servers m ! 0)\<lparr>s_connections := d\<rparr>, (m_servers m ! 1)\<lparr>s_connections := a\<rparr>,
                        (m_servers m ! 2)\<lparr>s_connections := b\<rparr>]\<rparr>
      | _ \<Rightarrow> zero_master)"

lemma with_connections_level:
  "at_level 2 (with_connections d a b) = [1, 2] \<and> balanced 2 (with_connections d a b)
   \<and> is_full (with_connections d a b) 1 = (2 \<le> a) \<and> is_full (with_connections d a b) 2 = (2 \<le> b)
   \<and> m_balance_pos (with_connections d a b) 2 = 0"
proof -
  obtain m where m: "loaded = Some (Ok m)" and l: "m_lservers m = [1, 2]"
      and lv: "map s_Level (m_servers m) = [1, 2, 2]" and mc: "map s_MaxConnections (m_servers m) = [0, 2, 2]"
      and p: "m_balance_pos m 2 = 0"
    using loaded_ok by (auto split: option.splits outcome.splits)
  from lv obtain x y z where rows: "m_servers m = [x, y, z]" by auto
  with lv mc have "s_Level x = 1" "s_Level y = 2" "s_Level z = 2" "s_MaxConnections y = 2" "s_MaxConnections z = 2"
    by auto
  then show ?thesis
    by (simp add: with_connections_def m rows l p at_level_def level_of_def balanced_def count_server_level_def
        is_full_def)
qed

theorem load_servers_sorted_witness:
  "\<exists>m'. load_servers srv_fs srv_cfg (\<lambda>_. zero_server) 1 zero_master = Some (Ok m') \<and> distinct (m_lservers m')"
proof -
  obtain m' where m': "loaded = Some (Ok m')" using loaded_ok by (auto split: option.splits outcome.splits)
  have "m_servers zero_master = []" by (simp add: zero_master_def)
  from load_servers_sorted [OF this m' [unfolded loaded_def]] m' show ?thesis
    by (auto simp: loaded_def)
qed


theorem next_server_first_with_room_witness:
  "\<exists>m'. get_next_server 2 (with_connections 0 2 1) = Some (Some 2, m')"
proof -
  have "\<exists>i \<in> set (at_level 2 (with_connections 0 2 1)). \<not> is_full (with_connections 0 2 1) i"
    by (simp add: with_connections_level del: One_nat_def)
  from next_server_first_with_room [OF _ this] obtain j m' where j: "j < Suc (Suc 0)"
      "get_next_server 2 (with_connections 0 2 1) = Some (Some ([1, 2] ! j), m')"
      "\<not> is_full (with_connections 0 2 1) ([1, 2] ! j)"
    by (auto simp: with_connections_level Let_def simp del: One_nat_def)
  have "j = 0 \<or> j = 1" using j(1) by auto
  with j(3) have "j = 1" by (auto simp: with_connections_level simp del: One_nat_def)
  with j show ?thesis by auto
qed

theorem all_full_never_returns_witness:
  "selectserver_primary ''a'' (with_connections 0 2 2) = None"
proof -
  let ?m = "with_connections 0 2 2"
  obtain m where m: "loaded = Some (Ok m)" and n: "map s_Name (m_servers m) = [''default'', ''a'', ''b'']"
      and p: "map s_Policy (m_servers m) = [Policy_balance, Policy_backup, Policy_balance]"
      and lv: "map s_Level (m_servers m) = [1, 2, 2]"
    using loaded_ok by (auto split: option.splits outcome.splits)
  from n obtain x y z where rows: "m_servers m = [x, y, z]" by auto
  with n p lv have "getserver ''a'' ?m = Some 1" "s_Policy (m_servers ?m ! 1) = Policy_backup" "level_of ?m 1 = 2"
    by (simp_all add: with_connections_def m getserver_def level_of_def)
  with all_full_never_returns [of 2 ?m "''a''" 1] show ?thesis by (simp add: with_connections_level del: One_nat_def)
qed

definition shared_level :: master_t where
  "shared_level = zero_master\<lparr>m_servers := [zero_server\<lparr>s_Name := ''default'', s_Level := 1\<rparr>,
     zero_server\<lparr>s_Name := ''a'', s_Level := 1\<rparr>], m_lservers := [1]\<rparr>"

theorem shared_level_sticks_witness: "choices 3 1 shared_level = Some [Some 1, None, None]"
proof -
  have "at_level 1 shared_level = [1]"
    by (simp add: at_level_def level_of_def shared_level_def zero_server_def)
  with shared_level_sticks [of 1 shared_level 2] show ?thesis
    by (simp add: count_server_level_def shared_level_def zero_server_def is_full_def zero_master_def eval_nat_numeral)
qed

theorem reload_forgets_connections_witness:
  "\<exists>m'. reload_servers srv_fs srv_cfg 2 (with_connections 0 1 1) = Some (Ok m')
     \<and> (\<forall>s \<in> set (m_servers m'). uint_dec (s_connections s) = 2 ^ 32 - 1)"
proof -
  let ?m = "with_connections 0 1 1"
  have "case reload_servers srv_fs srv_cfg 2 ?m of Some (Ok m') \<Rightarrow> True | _ \<Rightarrow> False" by code_simp
  then obtain m' where m': "reload_servers srv_fs srv_cfg 2 ?m = Some (Ok m')"
    by (auto split: option.splits outcome.splits)
  obtain m where m: "loaded = Some (Ok m)" "m_laststatserver m = 1"
    using loaded_ok by (auto split: option.splits outcome.splits)
  have "m_servers ?m \<noteq> []" "m_laststatserver ?m < 2" "s_connections (m_servers ?m ! 0) = 0"
    by (simp_all add: with_connections_def m)
  from reload_forgets_connections [OF this(1,2) m' this(3)] m' show ?thesis by blast
qed

end
