(* ===== verification/Client.thy ===== *)
theory Client
  imports Access
begin

text \<open>
  \<open>client.c\<close>: the client slots, one per connection, and the user slots, one per user name, that
  all processes share. A free client slot has \<open>inuse\<close> 0; a user slot is free when its key is empty.
  A user slot counts the connections that refer to it, and is cleared when the last one is dropped.
  The interface \<open>counted_pool\<close> states what a pool of counted names promises; the user slots provide
  it for names that are not empty.
\<close>

section \<open>Counted pools\<close>

locale counted_pool =
  fixes inv :: "'m \<Rightarrow> bool"
    and count :: "'m \<Rightarrow> string \<Rightarrow> nat"
    and acquire :: "string \<Rightarrow> 'm \<Rightarrow> (nat \<times> 'm) option"
    and release :: "nat \<Rightarrow> 'm \<Rightarrow> 'm"
    and name_of :: "'m \<Rightarrow> nat \<Rightarrow> string option"
  assumes acquire_inv: "inv m \<Longrightarrow> k \<noteq> [] \<Longrightarrow> acquire k m = Some (i, m') \<Longrightarrow>
      inv m' \<and> name_of m' i = Some k \<and> count m' = (count m)(k := Suc (count m k))"
    and release_inv: "inv m \<Longrightarrow> name_of m i = Some k \<Longrightarrow>
      inv (release i m) \<and> 0 < count m k \<and> count (release i m) = (count m)(k := count m k - 1)"
    and held: "inv m \<Longrightarrow> 0 < count m k \<Longrightarrow> k \<noteq> [] \<Longrightarrow> \<exists>i. name_of m i = Some k"
begin

text \<open>A history of the pool: names that were taken and slots that were given back.\<close>

inductive history :: "'m \<Rightarrow> string list \<Rightarrow> string list \<Rightarrow> 'm \<Rightarrow> bool" where
  start: "history m [] [] m"
| take: "history m as rs k \<Longrightarrow> n \<noteq> [] \<Longrightarrow> acquire n k = Some (i, k') \<Longrightarrow> history m (as @ [n]) rs k'"
| give: "history m as rs k \<Longrightarrow> name_of k i = Some n \<Longrightarrow> history m as (rs @ [n]) (release i k)"

lemma history_inv: "history m as rs m' \<Longrightarrow> inv m \<Longrightarrow> inv m'"
  by (induction rule: history.induct) (use acquire_inv release_inv in blast)+

text \<open>The pool counts exactly the names taken and not given back.\<close>

lemma history_count:
  "history m as rs m' \<Longrightarrow> inv m \<Longrightarrow> count m' n + count_list rs n = count m n + count_list as n"
proof (induction rule: history.induct)
  case (start m)
  then show ?case by simp
next
  case (take m as rs k nm i k')
  from acquire_inv [OF history_inv [OF take.hyps(1) take.prems] take.hyps(2,3)] take.IH [OF take.prems]
  show ?case by auto
next
  case (give m as rs k i nm)
  from release_inv [OF history_inv [OF give.hyps(1) give.prems] give.hyps(2)] give.IH [OF give.prems]
  show ?case by auto
qed

lemma acquire_release:
  assumes "inv m" and "k \<noteq> []" and "acquire k m = Some (i, m')"
  shows "count (release i m') = count m"
  using acquire_inv [OF assms] release_inv [of m' i k] by auto

end

section \<open>Client slots\<close>

definition free_client :: "nat \<Rightarrow> master_t \<Rightarrow> master_t" where
  "free_client i m = m\<lparr>m_clients := (m_clients m)[i := zero_client]\<rparr>"

definition get_ip_from_user :: "nat \<Rightarrow> master_t \<Rightarrow> nat" where
  "get_ip_from_user u m =
     (case find_index (\<lambda>c. c_user c = Some u) (m_clients m) of
        None \<Rightarrow> 0 | Some i \<Rightarrow> c_ip4addr (m_clients m ! i))"

text \<open>
  The second loop of \<open>find_slot\<close>, from the slot that was just taken on: it counts the sessions of the
  address and stops at the first slot where the count is over the limit.
\<close>

fun count_on :: "client_t list \<Rightarrow> nat \<Rightarrow> int \<Rightarrow> nat \<Rightarrow> nat \<times> bool" where
  "count_on [] ip maxcon cc = (cc, True)"
| "count_on (c # cs) ip maxcon cc =
     (let cc' = (if c_ip4addr c = ip then cc + 1 else cc) in
      if 0 < maxcon \<and> maxcon < int cc' then (cc', False) else count_on cs ip maxcon cc')"

text \<open>
  The result: the slot, if there is one and the address may use it, and the value of \<open>concur\<close>, which
  is not set when every slot is in use.
\<close>

definition find_slot ::
  "nat \<Rightarrow> int \<Rightarrow> nat \<Rightarrow> nat \<Rightarrow> master_t \<Rightarrow> nat option \<times> nat \<times> master_t" where
  "find_slot ip maxcon now concur m =
     (case find_index (\<lambda>c. \<not> c_inuse c) (m_clients m) of
        None \<Rightarrow> (None, concur, m)
      | Some i \<Rightarrow>
          (let before = length (filter (\<lambda>c. c_ip4addr c = ip) (take (Suc i) (m_clients m)));
               cl = zero_client\<lparr>c_inuse := True, c_id := i, c_ip4addr := ip\<rparr>;
               cls = (m_clients m)[i := cl];
               (cc, fits) = count_on (drop i cls) ip maxcon before
           in if fits
              then (Some i, cc, m\<lparr>m_clients := cls[i := cl\<lparr>c_concur := cc, c_starttime := now\<rparr>]\<rparr>)
              else (None, cc, m\<lparr>m_clients := cls[i := cl\<lparr>c_inuse := False, c_id := 0, c_ip4addr := 0\<rparr>]\<rparr>)))"

section \<open>User slots\<close>

definition update_profile :: "nat \<Rightarrow> (profile_t \<Rightarrow> profile_t) \<Rightarrow> master_t \<Rightarrow> master_t" where
  "update_profile p f m = m\<lparr>m_profiles := (m_profiles m)[p := f (m_profiles m ! p)]\<rparr>"

definition new_user :: "string \<Rightarrow> nat \<Rightarrow> profile_t \<Rightarrow> user_t" where
  "new_user ky i p = zero_user\<lparr>u_key := ky, u_connections := 1, u_id := i,
     u_bytesleft := int (p_MaxSessionBytes p), u_readpat := p_ReadPat p, u_postpat := p_PostPat p,
     u_timeleft := p_MaxSessionTime p\<rparr>"

definition find_user :: "string \<Rightarrow> nat \<Rightarrow> master_t \<Rightarrow> (nat option \<times> master_t) outcome" where
  "find_user ky p m =
     (case find_index (\<lambda>u. strcmp (u_key u) ky = 0) (m_users m) of
        Some i \<Rightarrow> Ok (Some i, m\<lparr>m_users := (m_users m)[i := (m_users m ! i)\<lparr>u_connections :=
                                   uint_inc (u_connections (m_users m ! i))\<rparr>]\<rparr>)
      | None \<Rightarrow>
          (case find_index (\<lambda>u. u_key u = []) (m_users m) of
             None \<Rightarrow> Ok (None, m)
           | Some i \<Rightarrow>
               obind (strcpy_to 128 ky) (\<lambda>key.
               Ok (Some i, update_profile p (\<lambda>q. q\<lparr>p_numusers := uint_inc (p_numusers q)\<rparr>)
                 (m\<lparr>m_users := (m_users m)[i := new_user key i (m_profiles m ! p)],
                    m_numusers := m_numusers m + 1\<rparr>)))))"

definition drop_user :: "nat \<Rightarrow> nat \<Rightarrow> master_t \<Rightarrow> master_t" where
  "drop_user i p m =
     (let n = uint_dec (u_connections (m_users m ! i)) in
      if n = 0
      then update_profile p (\<lambda>q. q\<lparr>p_numusers := uint_dec (p_numusers q)\<rparr>)
             (m\<lparr>m_users := (m_users m)[i := zero_user], m_numusers := m_numusers m - 1\<rparr>)
      else m\<lparr>m_users := (m_users m)[i := (m_users m ! i)\<lparr>u_connections := n\<rparr>]\<rparr>)"

definition find_user_profile :: "string \<Rightarrow> master_t \<Rightarrow> nat option" where
  "find_user_profile key m =
     (case find_index (\<lambda>j. u_key (m_users m ! j) = key
              \<and> (\<exists>c \<in> set (m_clients m). c_user c = Some j)) [0..<length (m_users m)] of
        None \<Rightarrow> None
      | Some j \<Rightarrow>
          (case find_index (\<lambda>c. c_user c = Some j) (m_clients m) of
             None \<Rightarrow> None | Some i \<Rightarrow> c_profile (m_clients m ! i)))"

section \<open>The end of a connection\<close>

text \<open>
  \<open>close_child\<close> on the slot \<open>k\<close>. The accounting module, the SSL shutdown and the session sharing
  server are calls out of the process that leave the shared tables alone; \<open>acctmod\<close> says which
  accounting modules exist. The module name is read through the accounting pointer of the profile, and
  the user is read for its remaining bytes even when there is none.
\<close>

definition drop_profile_connection :: "nat \<Rightarrow> master_t \<Rightarrow> master_t" where
  "drop_profile_connection p m =
     (if 0 < p_connections (m_profiles m ! p)
      then update_profile p (\<lambda>q. q\<lparr>p_connections := p_connections q - 1\<rparr>) m else m)"

definition close_slot :: "nat \<Rightarrow> nat \<Rightarrow> master_t \<Rightarrow> master_t" where
  \<comment> \<open>what is done under the lock\<close>
  "close_slot k p m =
     (let m1 = drop_profile_connection p m;
          m2 = (case c_user (m_clients m ! k) of None \<Rightarrow> m1 | Some u \<Rightarrow> drop_user u p m1);
          m3 = free_client (c_id (m_clients m ! k)) m2
      in m3\<lparr>m_connections := m_connections m3 - 1\<rparr>)"

definition close_child :: "bool \<Rightarrow> nat \<Rightarrow> master_t \<Rightarrow> master_t outcome" where
  "close_child doacct k m =
     (let cl = m_clients m ! k in
      case c_profile cl of
        None \<Rightarrow> Undef
      | Some p \<Rightarrow>
          if doacct \<and> (p_Accounting (m_profiles m ! p) = None \<or> c_user cl = None) then Undef
          else Ok (close_slot k p m))"

section \<open>The user pool\<close>

definition user_count :: "master_t \<Rightarrow> string \<Rightarrow> nat" where
  "user_count m k = sum_list (map (\<lambda>u. if u_key u = k then u_connections u else 0) (m_users m))"

definition users_in_use :: "master_t \<Rightarrow> nat" where
  "users_in_use m = length (filter (\<lambda>u. u_key u \<noteq> []) (m_users m))"

definition users_ok :: "master_t \<Rightarrow> bool" where
  "users_ok m \<longleftrightarrow>
     (\<forall>i < length (m_users m). \<forall>j < length (m_users m). i \<noteq> j \<longrightarrow>
        u_key (m_users m ! i) = u_key (m_users m ! j) \<longrightarrow> u_key (m_users m ! i) = [])
     \<and> (\<forall>u \<in> set (m_users m). u_key u = [] \<longleftrightarrow> u_connections u = 0)
     \<and> (\<forall>u \<in> set (m_users m). u_connections u < 2 ^ 32)
     \<and> m_numusers m = int (users_in_use m)"

definition user_name :: "master_t \<Rightarrow> nat \<Rightarrow> string option" where
  "user_name m i = (if i < length (m_users m) \<and> u_key (m_users m ! i) \<noteq> [] then Some (u_key (m_users m ! i)) else None)"

text \<open>
  Taking a user while its counter has room: the counter of a slot is bounded by the number of client
  slots, far below the 32 bits of the counter.
\<close>

definition take_user :: "nat \<Rightarrow> string \<Rightarrow> master_t \<Rightarrow> (nat \<times> master_t) option" where
  "take_user p k m =
     (if user_count m k < 2 ^ 32 - 1
      then (case find_user k p m of Ok (Some i, m') \<Rightarrow> Some (i, m') | _ \<Rightarrow> None) else None)"

lemma user_count_update:
  "i < length us \<Longrightarrow>
   sum_list (map (\<lambda>u. if u_key u = k then u_connections u else 0) (us[i := v])) =
   sum_list (map (\<lambda>u. if u_key u = k then u_connections u else 0) us)
     + (if u_key v = k then u_connections v else 0) - (if u_key (us ! i) = k then u_connections (us ! i) else 0)"
  by (simp add: map_update sum_list_update)

lemma user_count_member:
  "i < length (m_users m) \<Longrightarrow> u_connections (m_users m ! i) \<le> user_count m (u_key (m_users m ! i))"
  by (force simp: user_count_def intro!: member_le_sum_list)

lemma user_count_zero: "\<forall>u \<in> set (m_users m). u_key u \<noteq> k \<or> u_connections u = 0 \<Longrightarrow> user_count m k = 0"
  by (auto simp: user_count_def)

lemma users_profile [simp]:
  "m_users (update_profile p f m) = m_users m" "m_numusers (update_profile p f m) = m_numusers m"
  "m_clients (update_profile p f m) = m_clients m"
  by (simp_all add: update_profile_def)

lemma find_user_cases:
  assumes "find_user k p m = Ok (Some i, m')" and "users_ok m" and "k \<noteq> []"
  obtains (known) "i < length (m_users m)" "u_key (m_users m ! i) = k" "m_numusers m' = m_numusers m"
      "m_users m' = (m_users m)[i := (m_users m ! i)\<lparr>u_connections := uint_inc (u_connections (m_users m ! i))\<rparr>]"
  | (new) "i < length (m_users m)" "u_key (m_users m ! i) = []" "\<forall>u \<in> set (m_users m). u_key u \<noteq> k"
      "m_users m' = (m_users m)[i := new_user k i (m_profiles m ! p)]" "m_numusers m' = m_numusers m + 1"
proof (cases "find_index (\<lambda>u. strcmp (u_key u) k = 0) (m_users m)")
  case (Some j)
  then have "j < length (m_users m)" and "u_key (m_users m ! j) = k" by (auto simp: find_index_Some)
  with assms(1) Some show thesis by (intro known) (auto simp: find_user_def)
next
  case None
  with assms(1) obtain j where j: "find_index (\<lambda>u. u_key u = []) (m_users m) = Some j"
    by (auto simp: find_user_def split: option.splits)
  then have "j < length (m_users m)" and "u_key (m_users m ! j) = []" by (auto simp: find_index_Some)
  moreover from None have "\<forall>u \<in> set (m_users m). u_key u \<noteq> k" by (simp add: find_index_None)
  ultimately show thesis using assms(1) None j by (intro new) (auto simp: find_user_def)
qed

lemma new_user_simps [simp]:
  "u_key (new_user k i p) = k" "u_connections (new_user k i p) = 1"
  by (simp_all add: new_user_def)

lemma in_use_update:
  "i < length (m_users m) \<Longrightarrow> m_users m' = (m_users m)[i := v] \<Longrightarrow>
   int (users_in_use m') = int (users_in_use m) + of_bool (u_key v \<noteq> []) - of_bool (u_key (m_users m ! i) \<noteq> [])"
  using filter_length_update [of i "m_users m" "\<lambda>u. u_key u \<noteq> []" v]
  unfolding users_in_use_def by (simp add: of_bool_def split: if_splits)

lemma users_ok_update:
  assumes "users_ok m" and "i < length (m_users m)" and "m_users m' = (m_users m)[i := v]"
    and "m_numusers m' = m_numusers m + of_bool (u_key v \<noteq> []) - of_bool (u_key (m_users m ! i) \<noteq> [])"
    and "u_key v = [] \<longleftrightarrow> u_connections v = 0" and "u_connections v < 2 ^ 32"
    and "u_key v = [] \<or> (\<forall>j < length (m_users m). j \<noteq> i \<longrightarrow> u_key (m_users m ! j) \<noteq> u_key v)"
  shows "users_ok m'"
  unfolding users_ok_def
proof (intro conjI)
  show "\<forall>a < length (m_users m'). \<forall>b < length (m_users m'). a \<noteq> b \<longrightarrow>
      u_key (m_users m' ! a) = u_key (m_users m' ! b) \<longrightarrow> u_key (m_users m' ! a) = []"
    using assms(1,2,3,7) unfolding users_ok_def by (auto simp: nth_list_update)
  show "\<forall>u \<in> set (m_users m'). (u_key u = []) = (u_connections u = 0)"
    using assms(1,3,5) unfolding users_ok_def by (auto dest!: set_update_or)
  show "\<forall>u \<in> set (m_users m'). u_connections u < 2 ^ 32"
    using assms(1,3,6) unfolding users_ok_def by (auto dest!: set_update_or)
  show "m_numusers m' = int (users_in_use m')"
    using in_use_update [OF assms(2,3)] assms(1,4) unfolding users_ok_def by simp
qed

lemma find_user_ok:
  assumes "find_user k p m = Ok (Some i, m')" and "users_ok m" and "k \<noteq> []" and "user_count m k < 2 ^ 32 - 1"
  shows "users_ok m' \<and> user_name m' i = Some k \<and> user_count m' = (user_count m)(k := Suc (user_count m k))"
  using assms(1-3)
proof (cases rule: find_user_cases)
  case known
  let ?u = "m_users m ! i"
  from known(2) assms(3) have "0 < u_connections ?u"
    using assms(2) known(1) unfolding users_ok_def by (metis nth_mem neq0_conv)
  moreover have small: "u_connections ?u + 1 < 2 ^ 32"
    using user_count_member [OF known(1)] assms(4) known(2) by simp
  ultimately have inc: "uint_inc (u_connections ?u) = u_connections ?u + 1" by (simp add: uint_inc_small)
  have "users_ok m'"
  proof (rule users_ok_update [OF assms(2) known(1) known(4)])
    show "u_key (?u\<lparr>u_connections := uint_inc (u_connections ?u)\<rparr>) = [] \<or>
        (\<forall>j < length (m_users m). j \<noteq> i \<longrightarrow> u_key (m_users m ! j) \<noteq> u_key (?u\<lparr>u_connections := uint_inc (u_connections ?u)\<rparr>))"
      using assms(2,3) known(1,2) unfolding users_ok_def by simp metis
  qed (use known inc small assms(3) in auto)
  moreover have "user_name m' i = Some k" using known assms(3) by (simp add: user_name_def)
  moreover have "user_count m' n = ((user_count m)(k := Suc (user_count m k))) n" for n
    using user_count_update [OF known(1)] known(2) inc user_count_member [OF known(1)]
    unfolding user_count_def known(4) by auto
  ultimately show ?thesis by blast
next
  case new
  let ?u = "m_users m ! i"
  have z: "u_connections ?u = 0" using assms(2) new(1,2) unfolding users_ok_def by simp
  have "users_ok m'"
  proof (rule users_ok_update [OF assms(2) new(1) new(4)])
    show "u_key (new_user k i (m_profiles m ! p)) = [] \<or> (\<forall>j < length (m_users m). j \<noteq> i \<longrightarrow>
        u_key (m_users m ! j) \<noteq> u_key (new_user k i (m_profiles m ! p)))"
      using new(3) by simp
  qed (use new assms(3) in auto)
  moreover have "user_name m' i = Some k" using new assms(3) by (simp add: user_name_def)
  moreover have "user_count m' n = ((user_count m)(k := Suc (user_count m k))) n" for n
    using user_count_update [OF new(1)] new(2) z unfolding user_count_def new(4) by auto
  ultimately show ?thesis by blast
qed

lemma drop_user_ok:
  assumes "users_ok m" and "user_name m i = Some k"
  shows "users_ok (drop_user i p m) \<and> 0 < user_count m k
    \<and> user_count (drop_user i p m) = (user_count m)(k := user_count m k - 1)"
proof -
  let ?u = "m_users m ! i"
  from assms(2) have i: "i < length (m_users m)" and k: "u_key ?u = k" "k \<noteq> []"
    by (auto simp: user_name_def split: if_splits)
  have c: "0 < u_connections ?u" using assms(1) i k unfolding users_ok_def by (metis nth_mem neq0_conv)
  have b: "u_connections ?u < 2 ^ 32" using assms(1) i unfolding users_ok_def by simp
  have le: "u_connections ?u \<le> user_count m k" using user_count_member [OF i] k by simp
  define v where "v = (if u_connections ?u = 1 then zero_user else ?u\<lparr>u_connections := u_connections ?u - 1\<rparr>)"
  have m': "m_users (drop_user i p m) = (m_users m)[i := v]"
      "m_numusers (drop_user i p m) = m_numusers m + of_bool (u_key v \<noteq> []) - of_bool (u_key ?u \<noteq> [])"
    using c k by (auto simp: drop_user_def Let_def uint_dec_pos v_def zero_user_def)
  have "users_ok (drop_user i p m)"
  proof (rule users_ok_update [OF assms(1) i m'])
    show "u_key v = [] \<longleftrightarrow> u_connections v = 0" using c k by (auto simp: v_def zero_user_def)
    show "u_connections v < 2 ^ 32" using b by (auto simp: v_def zero_user_def)
    show "u_key v = [] \<or> (\<forall>j < length (m_users m). j \<noteq> i \<longrightarrow> u_key (m_users m ! j) \<noteq> u_key v)"
      using assms(1) i k unfolding users_ok_def by (auto simp: v_def zero_user_def)
  qed
  moreover have "user_count (drop_user i p m) n = ((user_count m)(k := user_count m k - 1)) n" for n
    using user_count_update [OF i, of n v] k c le unfolding user_count_def m'
    by (auto simp: v_def zero_user_def split: if_splits)
  ultimately show ?thesis using c le by auto
qed

interpretation up: counted_pool users_ok user_count "take_user p" "\<lambda>i. drop_user i p" user_name for p
proof
  fix m k i m'
  assume "users_ok m" and "k \<noteq> []" and "take_user p k m = Some (i, m')"
  then show "users_ok m' \<and> user_name m' i = Some k \<and> user_count m' = (user_count m)(k := Suc (user_count m k))"
    by (intro find_user_ok [of k p]) (auto simp: take_user_def split: if_splits outcome.splits option.splits)
next
  fix m i k
  assume "users_ok m" and "user_name m i = Some k"
  then show "users_ok (drop_user i p m) \<and> 0 < user_count m k \<and>
      user_count (drop_user i p m) = (user_count m)(k := user_count m k - 1)"
    by (rule drop_user_ok)
next
  fix m k
  assume "users_ok m" and "0 < user_count m k" and "k \<noteq> []"
  then have "\<exists>u \<in> set (m_users m). u_key u = k" using user_count_zero [of m k] by force
  then obtain i where "i < length (m_users m)" "u_key (m_users m ! i) = k" by (auto simp: in_set_conv_nth)
  with \<open>k \<noteq> []\<close> have "user_name m i = Some k" by (simp add: user_name_def)
  then show "\<exists>i. user_name m i = Some k" by blast
qed

section \<open>Properties\<close>

subsection \<open>Users\<close>

definition user_history :: "nat \<Rightarrow> master_t \<Rightarrow> string list \<Rightarrow> string list \<Rightarrow> master_t \<Rightarrow> bool" where
  \<comment> \<open>from one state to another by taking the users \<open>as\<close> and dropping the users \<open>rs\<close>, in some order\<close>
  "user_history p = counted_pool.history (take_user p) (\<lambda>i. drop_user i p) user_name"

lemma sum_list_pos_iff_ex: "0 < sum_list (map f xs) \<longleftrightarrow> (\<exists>x \<in> set xs. 0 < (f x :: nat))"
  by (induction xs) auto

lemma sum_by_name:
  assumes "\<forall>i < length us. \<forall>j < length us. i \<noteq> j \<longrightarrow> u_key (us ! i) = u_key (us ! j) \<longrightarrow> u_key (us ! i) = []"
    and "\<forall>u \<in> set us. u_key u = [] \<longleftrightarrow> u_connections u = (0::nat)"
  shows "length (filter (\<lambda>u. u_key u \<noteq> []) us) =
    card {k. 0 < sum_list (map (\<lambda>u. if u_key u = k then u_connections u else 0) us)}"
proof -
  let ?I = "{i. i < length us \<and> u_key (us ! i) \<noteq> []}"
  have "0 < sum_list (map (\<lambda>u. if u_key u = k then u_connections u else 0) us) \<longleftrightarrow>
      (\<exists>u \<in> set us. u_key u \<noteq> [] \<and> u_key u = k)" for k
    using assms(2) by (auto simp: sum_list_pos_iff_ex)
  then have "{k. 0 < sum_list (map (\<lambda>u. if u_key u = k then u_connections u else 0) us)} = (\<lambda>i. u_key (us ! i)) ` ?I"
    by (auto simp: set_conv_nth image_def)
  moreover have "inj_on (\<lambda>i. u_key (us ! i)) ?I" using assms(1) by (auto simp: inj_on_def)
  ultimately show ?thesis by (simp add: card_image length_filter_conv_card)
qed


definition pool_of :: "nat \<Rightarrow> master_t" where
  "pool_of n = zero_master\<lparr>m_users := replicate n zero_user, m_clients := replicate n zero_client,
     m_profiles := [zero_profile]\<rparr>"

lemma users_ok_pool: "users_ok (pool_of n)"
  by (simp add: users_ok_def users_in_use_def pool_of_def zero_user_def zero_master_def)


text \<open>
  A session that changes its profile after it took its user drops the user on the new profile: the
  user total is right again, but the old profile keeps its user and the new profile's counter wraps
  from 0 to its largest value, so that its limit on users is over from then on.
\<close>

theorem drop_on_other_profile:
  assumes "users_ok m" and "k \<noteq> []" and "user_count m k = 0" and "length k < 128"
    and "find_index (\<lambda>u. u_key u = []) (m_users m) = Some i"
    and "p < length (m_profiles m)" and "q < length (m_profiles m)" and "p \<noteq> q"
    and "p_numusers (m_profiles m ! p) + 1 < 2 ^ 32" and "p_numusers (m_profiles m ! q) = 0"
  shows "\<exists>m1. find_user k p m = Ok (Some i, m1) \<and> user_count (drop_user i q m1) k = 0
    \<and> m_numusers (drop_user i q m1) = m_numusers m
    \<and> p_numusers (m_profiles (drop_user i q m1) ! p) = p_numusers (m_profiles m ! p) + 1
    \<and> p_numusers (m_profiles (drop_user i q m1) ! q) = 2 ^ 32 - 1"
proof -
  have none: "find_index (\<lambda>u. strcmp (u_key u) k = 0) (m_users m) = None"
  proof -
    have "u_key u \<noteq> k" if u: "u \<in> set (m_users m)" for u
    proof
      assume k: "u_key u = k"
      then have "0 < u_connections u" using assms(1,2) u unfolding users_ok_def by auto
      moreover have "u_connections u \<le> user_count m k"
        using u k by (auto simp: in_set_conv_nth dest: user_count_member)
      ultimately show False using assms(3) by simp
    qed
    then show ?thesis by (simp add: find_index_None)
  qed
  have i: "i < length (m_users m)" using assms(5) by (rule find_index_bound)
  define m1 where "m1 = update_profile p (\<lambda>q. q\<lparr>p_numusers := uint_inc (p_numusers q)\<rparr>)
      (m\<lparr>m_users := (m_users m)[i := new_user k i (m_profiles m ! p)], m_numusers := m_numusers m + 1\<rparr>)"
  have f: "find_user k p m = Ok (Some i, m1)"
    using none assms(4,5) by (simp add: find_user_def m1_def strcpy_to_def)
  have n: "user_name m1 i = Some k" using i assms(2) by (simp add: user_name_def m1_def)
  have ok: "users_ok m1 \<and> user_count m1 = (user_count m)(k := Suc (user_count m k))"
    using find_user_ok [OF f assms(1,2)] assms(3) by simp
  have c: "user_count (drop_user i q m1) k = 0"
    using drop_user_ok [of m1 i k q] ok n assms(3) by simp
  have d: "uint_dec (u_connections (m_users m1 ! i)) = 0" using i by (simp add: m1_def uint_dec_def)
  have "m_numusers (drop_user i q m1) = m_numusers m" using d by (simp add: drop_user_def m1_def)
  moreover have "p_numusers (m_profiles (drop_user i q m1) ! p) = p_numusers (m_profiles m ! p) + 1"
    using d assms(6-9) by (simp add: drop_user_def m1_def update_profile_def uint_inc_small)
  moreover have "p_numusers (m_profiles (drop_user i q m1) ! q) = 2 ^ 32 - 1"
    using d assms(6-10) by (simp add: drop_user_def m1_def update_profile_def uint_dec_def)
  ultimately show ?thesis using f c by blast
qed

theorem drop_on_other_profile_witness:
  "\<exists>m1. find_user ''joe'' 0 (pool_of 2\<lparr>m_profiles := [zero_profile, zero_profile]\<rparr>) = Ok (Some 0, m1)
     \<and> p_numusers (m_profiles (drop_user 0 1 m1) ! 1) = 2 ^ 32 - 1"
proof -
  let ?m = "pool_of 2\<lparr>m_profiles := [zero_profile, zero_profile]\<rparr>"
  have ok: "users_ok ?m" by (simp add: users_ok_def users_in_use_def pool_of_def zero_user_def zero_master_def)
  have i: "find_index (\<lambda>u. u_key u = []) (m_users ?m) = Some 0" by code_simp
  have z: "user_count ?m ''joe'' = 0" by code_simp
  show ?thesis using drop_on_other_profile [OF ok _ z _ i, of 0 1] by (auto simp: zero_profile_def)
qed

subsection \<open>Client slots\<close>

definition sessions :: "nat \<Rightarrow> client_t list \<Rightarrow> nat" where
  "sessions ip cs = length (filter (\<lambda>c. c_ip4addr c = ip) cs)"

lemma count_on_fits:
  "count_on cs ip maxcon cc = (n, True) \<Longrightarrow> n = cc + sessions ip cs"
  "snd (count_on cs ip maxcon cc) \<longleftrightarrow> cs = [] \<or> \<not> (0 < maxcon \<and> maxcon < int (cc + sessions ip cs))"
proof -
  show "count_on cs ip maxcon cc = (n, True) \<Longrightarrow> n = cc + sessions ip cs"
    by (induction cs arbitrary: cc) (auto simp: sessions_def Let_def split: if_splits, force+)
  show "snd (count_on cs ip maxcon cc) \<longleftrightarrow> cs = [] \<or> \<not> (0 < maxcon \<and> maxcon < int (cc + sessions ip cs))"
    by (induction cs arbitrary: cc) (auto simp: sessions_def Let_def)
qed

lemma count_on_cut: "count_on cs ip maxcon cc = (n, False) \<Longrightarrow> 0 < maxcon \<and> maxcon < int n \<and> n \<le> cc + sessions ip cs"
  by (induction cs arbitrary: cc) (auto simp: sessions_def Let_def split: if_splits, force+)

definition free_slots_clear :: "master_t \<Rightarrow> bool" where
  "free_slots_clear m \<longleftrightarrow> (\<forall>c \<in> set (m_clients m). \<not> c_inuse c \<longrightarrow> c_ip4addr c = 0)"

lemma sessions_with_slot:
  assumes "i < length cs" and "c_ip4addr (cs ! i) \<noteq> ip" and "c_ip4addr c = ip"
  shows "length (filter (\<lambda>c. c_ip4addr c = ip) (take (Suc i) cs)) + sessions ip (drop i (cs[i := c]))
    = Suc (sessions ip cs)"
proof -
  have "drop i (cs[i := c]) = c # drop (Suc i) cs" using assms(1) by (simp add: drop_update_swap Cons_nth_drop_Suc [symmetric])
  moreover have "sessions ip cs = sessions ip (take i cs) + sessions ip (cs ! i # drop (Suc i) cs)"
    using assms(1) by (metis append_take_drop_id Cons_nth_drop_Suc sessions_def filter_append length_append)
  ultimately show ?thesis using assms by (simp add: sessions_def take_Suc_conv_app_nth)
qed

text \<open>C21: 
  A connection gets the first free slot exactly when there is one and the address, with the new
  session, stays within its limit; the slot is then the only one that changed, it starts from zeroed
  memory, and \<open>concur\<close> is the number of sessions of the address with this one. A refused connection
  leaves every other slot as it was and the slot free for the next one.
\<close>

theorem find_slot_correct:
  assumes "free_slots_clear m" and "ip \<noteq> 0" and "find_index (\<lambda>c. \<not> c_inuse c) (m_clients m) = Some i"
  shows "if 0 < maxcon \<and> maxcon < 1 + int (sessions ip (m_clients m))
    then \<exists>cc. find_slot ip maxcon now cc0 m = (None, cc, free_client i m) \<and> maxcon < int cc
    else find_slot ip maxcon now cc0 m =
      (Some i, Suc (sessions ip (m_clients m)),
       m\<lparr>m_clients := (m_clients m)[i := zero_client\<lparr>c_inuse := True, c_id := i, c_ip4addr := ip,
           c_concur := Suc (sessions ip (m_clients m)), c_starttime := now\<rparr>]\<rparr>)"
proof -
  let ?cs = "m_clients m" and ?c = "zero_client\<lparr>c_inuse := True, c_id := i, c_ip4addr := ip\<rparr>"
  have i: "i < length ?cs" and f: "\<not> c_inuse (?cs ! i)" using assms(3) by (auto simp: find_index_Some)
  then have "c_ip4addr (?cs ! i) \<noteq> ip" using assms(1,2) by (auto simp: free_slots_clear_def)
  from sessions_with_slot [OF i this, of ?c]
  have s: "length (filter (\<lambda>c. c_ip4addr c = ip) (take (Suc i) ?cs)) + sessions ip (drop i (?cs[i := ?c]))
    = Suc (sessions ip ?cs)" by simp
  obtain n b where n: "count_on (drop i (?cs[i := ?c])) ip maxcon
      (length (filter (\<lambda>c. c_ip4addr c = ip) (take (Suc i) ?cs))) = (n, b)" by fastforce
  have ne: "drop i (?cs[i := ?c]) \<noteq> []" using i by simp
  have z: "?c\<lparr>c_inuse := False, c_id := 0, c_ip4addr := 0\<rparr> = zero_client" by (simp add: zero_client_def)
  have b: "b \<longleftrightarrow> \<not> (0 < maxcon \<and> maxcon < 1 + int (sessions ip ?cs))"
    using count_on_fits(2) [of "drop i (?cs[i := ?c])" ip maxcon
        "length (filter (\<lambda>c. c_ip4addr c = ip) (take (Suc i) ?cs))"] ne
    unfolding n s by simp
  show ?thesis
  proof (cases b)
    case True
    have "n = Suc (sessions ip ?cs)" using count_on_fits(1) [OF n [unfolded eqTrueI [OF True]]] s by simp
    then show ?thesis using True b n assms(3) by (simp add: find_slot_def)
  next
    case False
    have "maxcon < int n" using count_on_cut [of "drop i (?cs[i := ?c])" ip maxcon _ n] n False by simp
    then show ?thesis using False b n assms(3) z by (simp add: find_slot_def free_client_def)
  qed
qed

theorem find_slot_correct_witness:
  "find_slot 7 2 100 0 (snd (snd (find_slot 7 2 90 0 (pool_of 3)))) =
     (Some 1, 2, pool_of 3\<lparr>m_clients :=
        [zero_client\<lparr>c_inuse := True, c_id := 0, c_ip4addr := 7, c_concur := 1, c_starttime := 90\<rparr>,
         zero_client\<lparr>c_inuse := True, c_id := 1, c_ip4addr := 7, c_concur := 2, c_starttime := 100\<rparr>, zero_client]\<rparr>)"
proof -
  have f1: "free_slots_clear (pool_of 3)" by (simp add: free_slots_clear_def pool_of_def zero_client_def)
  have i1: "find_index (\<lambda>c. \<not> c_inuse c) (m_clients (pool_of 3)) = Some 0" by code_simp
  let ?m = "pool_of 3\<lparr>m_clients := [zero_client\<lparr>c_inuse := True, c_id := 0, c_ip4addr := 7, c_concur := 1,
      c_starttime := 90\<rparr>, zero_client, zero_client]\<rparr>"
  have cs: "m_clients (pool_of 3) = [zero_client, zero_client, zero_client]" by (simp add: pool_of_def eval_nat_numeral)
  have s: "find_slot 7 2 90 0 (pool_of 3) = (Some 0, 1, ?m)"
    using find_slot_correct [OF f1 _ i1, of 7 2 90 0] unfolding cs by (simp add: sessions_def zero_client_def)
  have f2: "free_slots_clear ?m" by (simp add: free_slots_clear_def zero_client_def)
  have i2: "find_index (\<lambda>c. \<not> c_inuse c) (m_clients ?m) = Some 1" by code_simp
  show ?thesis unfolding s using find_slot_correct [OF f2 _ i2, of 7 2 100 0]
    by (simp add: sessions_def zero_client_def)
qed

end
