(* ===== verification/World.thy ===== *)
theory World
  imports Wildmat Common Hlist Tables Server Client
begin

text \<open>
  What the code of a session reads and changes: the shared memory, the descriptors with what their
  peers will send and have received, and the clock. An operation maps a world to nothing, when it
  does not return, or to an outcome with its value and the world it leaves. \<open>bnd\<close> runs two operations
  in the order of the code. A relation between worlds that every step keeps is kept by whatever is
  built from the steps: the locale \<open>frame\<close> states that once for all the frame properties.
\<close>

section \<open>Descriptors\<close>

text \<open>
  The peer of a descriptor sends bytes, stays silent for longer than a timeout, or breaks so that a
  read fails; after its last event it has closed the connection.
\<close>

datatype ev = Got string | Idle | Broken

datatype rres = Bytes string | Rerr

fun rd :: "nat \<Rightarrow> ev list \<Rightarrow> rres \<times> ev list" where
  "rd n [] = (Bytes [], [])"
| "rd n (Idle # es) = rd n es"
| "rd n (Broken # es) = (Rerr, es)"
| "rd n (Got s # es) =
     (if s = [] then rd n es else (Bytes (take n s), if length s \<le> n then es else Got (drop n s) # es))"

text \<open>\<open>select\<close> before a read: the answer, and the events after the time that has passed.\<close>

fun sel :: "ev list \<Rightarrow> bool \<times> ev list" where
  "sel (Idle # es) = (False, es)"
| "sel (Got s # es) = (if s = [] then sel es else (True, Got s # es))"
| "sel es = (True, es)"

fun ev_size :: "ev list \<Rightarrow> nat" where
  "ev_size [] = 0"
| "ev_size (Got s # es) = 1 + length s + ev_size es"
| "ev_size (e # es) = 1 + ev_size es"

lemma rd_size: "rd n es = (r, es') \<Longrightarrow> ev_size es' \<le> ev_size es \<and> (0 < n \<longrightarrow> r \<noteq> Bytes [] \<longrightarrow> ev_size es' < ev_size es)"
  by (induction n es rule: rd.induct) (auto split: if_splits)

lemma sel_size: "sel es = (b, es') \<Longrightarrow> ev_size es' \<le> ev_size es"
  by (induction es rule: sel.induct) (auto split: if_splits)

lemma rd_length: "rd n es = (Bytes s, es') \<Longrightarrow> length s \<le> n"
  by (induction n es rule: rd.induct) (auto split: if_splits)

text \<open>
  A write succeeds, fails, or finds the peer too slow for the timeout of a \<open>select\<close>; one for which
  nothing is said succeeds. What a connection attempt meets: no server, or a descriptor with its
  peer. The flag is the answer of \<open>setsockopt\<close> on it.
\<close>

datatype wres = Wrote | Wfail | Wslow

datatype dial = Refuse | Accept int bool "ev list" "wres list"

section \<open>The surroundings of the program\<close>

record authres_t =
  ar_username :: string
  ar_password :: string
  ar_username_s :: "string option"
  ar_port :: nat
  ar_hostname :: string
  ar_in_addr :: nat
  ar_authenticated :: bool
  ar_message :: "string option"
  ar_profile :: "string option"
  ar_posting :: bool
  ar_bytes :: nat
  ar_userkbit :: int
  ar_logname :: "string option"
  ar_readpat :: "string option"
  ar_postpat :: "string option"
  ar_timeleft :: int

text \<open>
  The parts that are not in the sources, or that only the installation fixes: the authenticator and
  accounting modules of the generated table, the web services with the escapes of their URLs and the
  fields of their JSON answers, the parser of dates, the printed forms of a time, the mailer, the
  names of hosts, the host that a client connected to, the process ids and what the system says to a
  processor mask and a socket buffer, whether \<open>errno\<close> is set when a session ends. Three fields stand
  for memory that the code reads without owning it: the byte in front of the buffer of a post, how far
  a string without a null reads on, and what is left of a string that has been freed. The configuration
  and the files do not change while a session runs.
\<close>

record env =
  e_cfg :: cfg_t
  e_fs :: files
  e_auth :: "string \<Rightarrow> (authres_t \<Rightarrow> string \<Rightarrow> authres_t) option"
  e_acct :: "string \<Rightarrow> bool"
  e_http :: "string \<Rightarrow> string list \<Rightarrow> string option"
  e_escape :: "string \<Rightarrow> string"
  e_json_string :: "string \<Rightarrow> string \<Rightarrow> string option"
  e_json_int :: "string \<Rightarrow> string \<Rightarrow> int"
  e_parsedate :: "string \<Rightarrow> int"
  e_strftime :: "string \<Rightarrow> int \<Rightarrow> string"
  e_mktime :: "int \<Rightarrow> int \<Rightarrow> int \<Rightarrow> int \<Rightarrow> int \<Rightarrow> int \<Rightarrow> int"
  e_pid :: int
  e_version :: string
  e_vhost :: "string option"
  e_ssl_accept :: bool
  e_mail :: "string \<Rightarrow> string \<Rightarrow> int"
  e_dns :: "nat \<Rightarrow> string option"
  e_affinity :: bool
  e_sndbuf :: bool
  e_errno :: bool
  e_before :: char
  e_behind :: "string \<Rightarrow> nat"
  e_stale :: "string \<Rightarrow> string"

record world =
  w_env :: env
  w_m :: master_t
  w_me :: nat
  w_in :: "int \<Rightarrow> ev list"
  w_wr :: "int \<Rightarrow> wres list"
  w_out :: "int \<Rightarrow> string"
  w_open :: "int \<Rightarrow> bool"
  w_dials :: "dial list"
  w_calls :: "(string \<times> nat) list"
  w_clock :: int
  w_overview :: "string list"
  w_usecount :: "nat \<Rightarrow> nat"
  w_acct :: "(string \<times> string \<times> client_t) list"
  w_files :: "(string \<times> string) list"

abbreviation cfg :: "world \<Rightarrow> cfg_t" where
  "cfg w \<equiv> e_cfg (w_env w)"

definition cl :: "world \<Rightarrow> client_t" where
  "cl w = m_clients (w_m w) ! w_me w"

definition now :: "world \<Rightarrow> int" where
  \<comment> \<open>\<open>time (NULL)\<close>; the clock counts microseconds\<close>
  "now w = w_clock w div 1000000"

section \<open>Operations\<close>

type_synonym 'a io = "world \<Rightarrow> ('a \<times> world) outcome option"

definition ret :: "'a \<Rightarrow> 'a io" where
  "ret a w = Some (Ok (a, w))"

definition bnd :: "'a io \<Rightarrow> ('a \<Rightarrow> 'b io) \<Rightarrow> 'b io" where
  "bnd m f w =
     (case m w of
        None \<Rightarrow> None
      | Some (Ok (a, w')) \<Rightarrow> f a w'
      | Some (Die s) \<Rightarrow> Some (Die s)
      | Some Undef \<Rightarrow> Some Undef)"

definition thn :: "'a io \<Rightarrow> 'b io \<Rightarrow> 'b io" where
  "thn m k = bnd m (\<lambda>_. k)"

definition asks :: "(world \<Rightarrow> 'a) \<Rightarrow> 'a io" where
  "asks f w = Some (Ok (f w, w))"

definition upd :: "(world \<Rightarrow> world) \<Rightarrow> unit io" where
  "upd f w = Some (Ok ((), f w))"

definition crash :: "'a io" where
  \<comment> \<open>undefined behaviour\<close>
  "crash w = Some Undef"

definition lift_o :: "'a outcome \<Rightarrow> 'a io" where
  "lift_o x w = (case x of Ok a \<Rightarrow> Some (Ok (a, w)) | Die s \<Rightarrow> Some (Die s) | Undef \<Rightarrow> Some Undef)"

definition upd_m :: "(master_t \<Rightarrow> master_t) \<Rightarrow> unit io" where
  "upd_m f = upd (\<lambda>w. w\<lparr>w_m := f (w_m w)\<rparr>)"

definition set_cl :: "(client_t \<Rightarrow> client_t) \<Rightarrow> world \<Rightarrow> world" where
  "set_cl f w = w\<lparr>w_m := (w_m w)\<lparr>m_clients := (m_clients (w_m w))[w_me w := f (cl w)]\<rparr>\<rparr>"

definition upd_cl :: "(client_t \<Rightarrow> client_t) \<Rightarrow> unit io" where
  "upd_cl f = upd (set_cl f)"

definition update_server :: "nat \<Rightarrow> (server_t \<Rightarrow> server_t) \<Rightarrow> master_t \<Rightarrow> master_t" where
  "update_server s f m = m\<lparr>m_servers := (m_servers m)[s := f (m_servers m ! s)]\<rparr>"

definition update_user :: "nat \<Rightarrow> (user_t \<Rightarrow> user_t) \<Rightarrow> master_t \<Rightarrow> master_t" where
  "update_user u f m = m\<lparr>m_users := (m_users m)[u := f (m_users m ! u)]\<rparr>"

text \<open>Following a pointer that may be null.\<close>

definition deref :: "'a option \<Rightarrow> ('a \<Rightarrow> 'b io) \<Rightarrow> 'b io" where
  "deref p f = (case p of None \<Rightarrow> crash | Some x \<Rightarrow> f x)"

definition sleeping :: "int \<Rightarrow> unit io" where
  "sleeping s = upd (\<lambda>w. w\<lparr>w_clock := w_clock w + 1000000 * s\<rparr>)"

lemma bnd_ord:
  assumes "\<And>v. option_ord (m v) (m' v)" and "\<And>x v. option_ord (k x v) (k' x v)"
  shows "option_ord (bnd m k w) (bnd m' k' w)"
proof (cases "m w = None")
  case True
  then show ?thesis by (simp add: bnd_def flat_ord_def)
next
  case False
  then have "m' w = m w" using assms(1) [of w] by (auto simp: flat_ord_def)
  then show ?thesis using assms(2) unfolding flat_ord_def bnd_def
    by (cases "m w") (simp_all split: outcome.split prod.split)
qed

lemma bnd_mono [partial_function_mono]:
  "(\<And>v. mono_option (\<lambda>f. m f v)) \<Longrightarrow> (\<And>x v. mono_option (\<lambda>f. k f x v)) \<Longrightarrow> mono_option (\<lambda>f. bnd (m f) (k f) w)"
  unfolding monotone_def by (blast intro: bnd_ord)

lemma thn_mono [partial_function_mono]:
  "(\<And>v. mono_option (\<lambda>f. m f v)) \<Longrightarrow> (\<And>v. mono_option (\<lambda>f. k f v)) \<Longrightarrow> mono_option (\<lambda>f. thn (m f) (k f) w)"
  unfolding thn_def by (rule bnd_mono)

lemma deref_mono [partial_function_mono]:
  "(\<And>x v. mono_option (\<lambda>f. k f x v)) \<Longrightarrow> mono_option (\<lambda>f. deref p (k f) w)"
  by (cases p) (simp_all add: deref_def monotone_def flat_ord_def)

lemma if_io_mono [partial_function_mono]:
  "mono_option (\<lambda>f. m f w) \<Longrightarrow> mono_option (\<lambda>f. k f w) \<Longrightarrow> mono_option (\<lambda>f. (if b then m f else k f) w)"
  by (cases b) simp_all

lemma case_io_mono [partial_function_mono]:
  "mono_option (\<lambda>f. m f w) \<Longrightarrow> (\<And>x. mono_option (\<lambda>f. k f x w)) \<Longrightarrow>
   mono_option (\<lambda>f. (case p of None \<Rightarrow> m f | Some x \<Rightarrow> k f x) w)"
  by (cases p) simp_all

lemmas run = ret_def bnd_def thn_def asks_def upd_def upd_m_def upd_cl_def crash_def

lemma bnd_Ok: "bnd m f w = Some (Ok r) \<longleftrightarrow> (\<exists>a w'. m w = Some (Ok (a, w')) \<and> f a w' = Some (Ok r))"
  by (auto simp: bnd_def split: option.splits outcome.splits)

lemma thn_Ok: "thn m k w = Some (Ok r) \<longleftrightarrow> (\<exists>a w'. m w = Some (Ok (a, w')) \<and> k w' = Some (Ok r))"
  by (simp add: thn_def bnd_Ok)

lemma deref_simps [simp]: "deref None f = crash" "deref (Some x) f = f x"
  by (simp_all add: deref_def)

text \<open>What a run that returns has done: one rule for every combinator.\<close>

named_theorems run_Ok

declare bnd_Ok [run_Ok] thn_Ok [run_Ok]

lemma basic_Ok [run_Ok]:
  "ret a w = Some (Ok (b, w')) \<longleftrightarrow> b = a \<and> w' = w"
  "asks f w = Some (Ok (c, w')) \<longleftrightarrow> c = f w \<and> w' = w"
  "upd g w = Some (Ok (u, w')) \<longleftrightarrow> w' = g w"
  "upd_m h w = Some (Ok (u, w')) \<longleftrightarrow> w' = w\<lparr>w_m := h (w_m w)\<rparr>"
  "upd_cl k w = Some (Ok (u, w')) \<longleftrightarrow> w' = set_cl k w"
  "crash w \<noteq> Some (Ok (d, w'))"
  "lift_o x w = Some (Ok (e, w')) \<longleftrightarrow> x = Ok e \<and> w' = w"
  by (auto simp: ret_def asks_def upd_def upd_m_def upd_cl_def crash_def lift_o_def split: outcome.splits)

lemma deref_Ok [run_Ok]: "deref p f w = Some (Ok r) \<longleftrightarrow> (\<exists>x. p = Some x \<and> f x w = Some (Ok r))"
  by (cases p) (auto simp: crash_def)

text \<open>The slot of the session is one of the table.\<close>

definition in_slot :: "world \<Rightarrow> bool" where
  "in_slot w \<longleftrightarrow> w_me w < length (m_clients (w_m w))"

lemma cl_set [simp]: "in_slot w \<Longrightarrow> cl (set_cl f w) = f (cl w)"
  by (simp add: cl_def set_cl_def in_slot_def)

lemma cl_frames [simp]:
  "cl (w\<lparr>w_in := a\<rparr>) = cl w" "cl (w\<lparr>w_wr := b\<rparr>) = cl w" "cl (w\<lparr>w_out := c\<rparr>) = cl w"
  "cl (w\<lparr>w_open := d\<rparr>) = cl w" "cl (w\<lparr>w_dials := e\<rparr>) = cl w" "cl (w\<lparr>w_calls := g\<rparr>) = cl w"
  "cl (w\<lparr>w_clock := h\<rparr>) = cl w" "cl (w\<lparr>w_overview := i\<rparr>) = cl w" "cl (w\<lparr>w_usecount := j\<rparr>) = cl w"
  "cl (w\<lparr>w_acct := k\<rparr>) = cl w" "cl (w\<lparr>w_files := l\<rparr>) = cl w"
  "m_clients m = m_clients (w_m w) \<Longrightarrow> cl (w\<lparr>w_m := m\<rparr>) = cl w"
  by (simp_all add: cl_def)

lemma slot_frames [simp]:
  "in_slot (w\<lparr>w_in := a\<rparr>) = in_slot w" "in_slot (w\<lparr>w_wr := b\<rparr>) = in_slot w" "in_slot (w\<lparr>w_out := c\<rparr>) = in_slot w"
  "in_slot (w\<lparr>w_open := d\<rparr>) = in_slot w" "in_slot (w\<lparr>w_dials := e\<rparr>) = in_slot w" "in_slot (w\<lparr>w_calls := g\<rparr>) = in_slot w"
  "in_slot (w\<lparr>w_clock := h\<rparr>) = in_slot w" "in_slot (w\<lparr>w_overview := i\<rparr>) = in_slot w"
  "in_slot (w\<lparr>w_usecount := j\<rparr>) = in_slot w" "in_slot (set_cl f w) = in_slot w"
  "in_slot (w\<lparr>w_acct := k\<rparr>) = in_slot w" "in_slot (w\<lparr>w_files := l\<rparr>) = in_slot w"
  "m_clients m = m_clients (w_m w) \<Longrightarrow> in_slot (w\<lparr>w_m := m\<rparr>) = in_slot w"
  by (simp_all add: in_slot_def set_cl_def)

lemma set_cl_frames [simp]:
  "w_env (set_cl f w) = w_env w" "w_me (set_cl f w) = w_me w" "w_in (set_cl f w) = w_in w" "w_wr (set_cl f w) = w_wr w"
  "w_out (set_cl f w) = w_out w" "w_open (set_cl f w) = w_open w" "w_dials (set_cl f w) = w_dials w"
  "w_calls (set_cl f w) = w_calls w" "w_clock (set_cl f w) = w_clock w" "w_overview (set_cl f w) = w_overview w"
  "w_usecount (set_cl f w) = w_usecount w" "w_acct (set_cl f w) = w_acct w" "w_files (set_cl f w) = w_files w" "m_servers (w_m (set_cl f w)) = m_servers (w_m w)"
  "m_users (w_m (set_cl f w)) = m_users (w_m w)" "m_profiles (w_m (set_cl f w)) = m_profiles (w_m w)"
  "m_active (w_m (set_cl f w)) = m_active (w_m w)" "m_lservers (w_m (set_cl f w)) = m_lservers (w_m w)"
  "m_acls (w_m (set_cl f w)) = m_acls (w_m w)" "m_wildmats (w_m (set_cl f w)) = m_wildmats (w_m w)"
  "m_auths (w_m (set_cl f w)) = m_auths (w_m w)" "m_vhosts (w_m (set_cl f w)) = m_vhosts (w_m w)"
  "m_aliases (w_m (set_cl f w)) = m_aliases (w_m w)" "m_balance_pos (w_m (set_cl f w)) = m_balance_pos (w_m w)"
  by (simp_all add: set_cl_def)

lemma update_row_frames [simp]:
  "m_clients (update_server s f m) = m_clients m" "m_clients (update_user u g m) = m_clients m"
  "m_users (update_server s f m) = m_users m" "m_servers (update_user u g m) = m_servers m"
  "m_profiles (update_server s f m) = m_profiles m" "m_profiles (update_user u g m) = m_profiles m"
  "m_servers (update_profile p h m) = m_servers m" "m_active (update_server s f m) = m_active m"
  "length (m_servers (update_server s f m)) = length (m_servers m)"
  "m_lservers (update_server s f m) = m_lservers m" "m_balance_pos (update_server s f m) = m_balance_pos m"
  by (simp_all add: update_server_def update_user_def update_profile_def)

lemma update_server_row [simp]:
  "m_servers (update_server s f m) ! t = (if t = s \<and> s < length (m_servers m) then f (m_servers m ! s) else m_servers m ! t)"
  by (cases "s < length (m_servers m)") (auto simp: update_server_def nth_list_update list_update_beyond)

text \<open>The operation returns, with a value and a world that satisfy \<open>P\<close>.\<close>

definition runs :: "'a io \<Rightarrow> world \<Rightarrow> ('a \<Rightarrow> world \<Rightarrow> bool) \<Rightarrow> bool" where
  "runs m w P = (case m w of Some (Ok (a, w')) \<Rightarrow> P a w' | _ \<Rightarrow> False)"

lemma runs_iff: "runs m w P \<longleftrightarrow> (\<exists>a w'. m w = Some (Ok (a, w')) \<and> P a w')"
  by (auto simp: runs_def split: option.split outcome.split)

section \<open>Frames\<close>

definition keeps :: "(world \<Rightarrow> world \<Rightarrow> bool) \<Rightarrow> 'a io \<Rightarrow> bool" where
  "keeps R m \<longleftrightarrow> (\<forall>w a w'. m w = Some (Ok (a, w')) \<longrightarrow> R w w')"

lemma keepsD: "keeps R m \<Longrightarrow> m w = Some (Ok (a, w')) \<Longrightarrow> R w w'"
  by (auto simp: keeps_def)

locale frame =
  fixes R :: "world \<Rightarrow> world \<Rightarrow> bool"
  assumes refl: "R w w" and trans: "R w1 w2 \<Longrightarrow> R w2 w3 \<Longrightarrow> R w1 w3"
begin

lemma ret: "keeps R (ret a)"
  by (simp add: keeps_def ret_def refl)

lemma asks: "keeps R (asks f)"
  by (simp add: keeps_def asks_def refl)

lemma crash: "keeps R crash"
  by (simp add: keeps_def crash_def)

lemma lift_o: "keeps R (lift_o x)"
  by (auto simp: keeps_def lift_o_def refl split: outcome.splits)

lemma bnd: "keeps R m \<Longrightarrow> (\<And>a. keeps R (f a)) \<Longrightarrow> keeps R (bnd m f)"
  unfolding keeps_def bnd_Ok by (blast intro: trans)

lemma thn: "keeps R m \<Longrightarrow> keeps R k \<Longrightarrow> keeps R (thn m k)"
  unfolding thn_def by (rule bnd)

lemma deref: "(\<And>x. keeps R (f x)) \<Longrightarrow> keeps R (deref p f)"
  by (cases p) (simp_all add: crash)

lemma cond: "keeps R m \<Longrightarrow> keeps R k \<Longrightarrow> keeps R (if b then m else k)"
  by simp

lemma case_opt: "keeps R m \<Longrightarrow> (\<And>x. keeps R (f x)) \<Longrightarrow> keeps R (case p of None \<Rightarrow> m | Some x \<Rightarrow> f x)"
  by (cases p) simp_all

lemma case_pair: "(\<And>x y. keeps R (f x y)) \<Longrightarrow> keeps R (case p of (x, y) \<Rightarrow> f x y)"
  by (cases p) simp

lemma letin: "(\<And>x. keeps R (f x)) \<Longrightarrow> keeps R (let x = v in f x)"
  by simp

lemmas rules = ret asks crash lift_o bnd thn deref cond case_opt case_pair letin

end

end
