(* ===== verification/Socket.thy ===== *)
theory Socket
  imports World
begin

text \<open>
  \<open>socket.c\<close>, the client side of \<open>auth/ssl_socket.c\<close>, and \<open>connect_groupserver\<close> of \<open>server.c\<close>:
  reading and writing with timeouts, the rate limiters, and connecting to the backend servers. The
  string a formatted write gets is its text after formatting. A descriptor that an SSL library
  wraps is the stream of its plain text.
\<close>

section \<open>Rate limiters\<close>

text \<open>The counters are 32 bits wide, the time is in microseconds.\<close>

definition rl_count :: "int \<Rightarrow> int \<Rightarrow> nat \<Rightarrow> real \<Rightarrow> real \<Rightarrow> ratelimit \<Rightarrow> ratelimit" where
  "rl_count t interval maxbps fd fu r =
     (let taken = u64 (t - rl_start r) in
      if u64 interval < taken
      then (let done = u32 (int (rl_curbytes r) - int (rl_lastbytes r));
                bps = 1000000 / real taken * real done;
                cur = (rl_curbps r * 2 + bps) / 3
            in r\<lparr>rl_start := t, rl_lastbytes := rl_curbytes r, rl_curbps := cur,
                 rl_sleep := if real maxbps < cur then rl_sleep r * fd else rl_sleep r / fu\<rparr>)
      else r)"

definition rl_clamp :: "ratelimit \<Rightarrow> ratelimit" where
  "rl_clamp r = r\<lparr>rl_sleep := if RL_INITVAL * 2 < rl_sleep r then RL_INITVAL
                              else if rl_sleep r < 100 then 100 else rl_sleep r\<rparr>"

definition rl_clamp_prof :: "ratelimit \<Rightarrow> ratelimit" where
  "rl_clamp_prof r = r\<lparr>rl_sleep := if 3000000 < rl_sleep r then 1000000
                                   else if rl_sleep r < 4000 then RL_INITVAL else rl_sleep r\<rparr>"

definition usleep :: "real \<Rightarrow> unit io" where
  "usleep us = upd (\<lambda>w. w\<lparr>w_clock := w_clock w + \<lfloor>us\<rfloor>\<rparr>)"

definition check_ratelimits_prof :: "unit io" where
  "check_ratelimits_prof =
     bnd (asks cl) (\<lambda>c. deref (c_profile c) (\<lambda>p.
     bnd (asks (\<lambda>w. m_profiles (w_m w) ! p)) (\<lambda>pf.
     if p_MaxProfileBPS pf = 0 then ret ()
     else bnd (asks w_clock) (\<lambda>t.
          let r = rl_clamp_prof (rl_count t (c_RateIntervalUs c) (p_MaxProfileBPS pf)
                    (p_ProfileRLFactorD pf) (p_ProfileRLFactorU pf) (p_rl pf))
          in thn (upd_m (update_profile p (\<lambda>q. q\<lparr>p_rl := r\<rparr>))) (usleep (rl_sleep r))))))"

definition check_ratelimits :: "unit io" where
  "check_ratelimits =
     bnd (asks cl) (\<lambda>c. deref (c_user c) (\<lambda>u.
     bnd (asks (\<lambda>w. m_users (w_m w) ! u)) (\<lambda>us.
     if u_MaxUserBPS us = 0 then ret ()
     else deref (c_profile c) (\<lambda>p.
          bnd (asks (\<lambda>w. (w_clock w, m_profiles (w_m w) ! p))) (\<lambda>(t, pf).
          let r = rl_clamp (rl_count t (c_RateIntervalUs c) (u_MaxUserBPS us)
                    (p_UserRLFactorD pf) (p_UserRLFactorU pf) (u_rl us))
          in thn (upd_m (update_user u (\<lambda>q. q\<lparr>u_rl := r\<rparr>))) (usleep (rl_sleep r)))))))"

definition init_ratelimiter :: "unit io" where
  "init_ratelimiter =
     thn (upd (\<lambda>w. set_cl (\<lambda>c. c\<lparr>c_RateIntervalUs := cdiv 1000000 (cf_RatePeriod (cfg w))\<rparr>) w))
     (bnd (asks (\<lambda>w. (cl w, w_clock w))) (\<lambda>(c, t). deref (c_user c) (\<lambda>u.
      upd_m (update_user u (\<lambda>q. q\<lparr>u_rl := (u_rl q)\<lparr>rl_start := t, rl_sleep := RL_INITVAL\<rparr>\<rparr>)))))"

definition init_ratelimiter_prof :: "unit io" where
  "init_ratelimiter_prof =
     thn (upd (\<lambda>w. set_cl (\<lambda>c. c\<lparr>c_RateIntervalUs := cdiv 1000000 (cf_RatePeriod (cfg w))\<rparr>) w))
     (bnd (asks (\<lambda>w. (cl w, w_clock w))) (\<lambda>(c, t). deref (c_profile c) (\<lambda>p.
      upd_m (update_profile p (\<lambda>q. q\<lparr>p_rl := (p_rl q)\<lparr>rl_start := t, rl_sleep := RL_INITVAL\<rparr>\<rparr>)))))"

section \<open>Errors\<close>

text \<open>Only the first error of a session counts; it gives the connection to the backend up.\<close>

definition set_errormsg :: "string \<Rightarrow> unit io" where
  "set_errormsg s =
     upd (\<lambda>w.
       if 0 < c_error (cl w) then w
       else let w1 = set_cl (\<lambda>c. c\<lparr>c_errstr := Some s, c_error := c_error c + 1\<rparr>) w in
            if c_connected (cl w)
            then (case c_groupserver (cl w) of
                    None \<Rightarrow> set_cl (\<lambda>c. c\<lparr>c_connected := False\<rparr>) w1
                  | Some g \<Rightarrow> set_cl (\<lambda>c. c\<lparr>c_connected := False, c_groupserver := None\<rparr>)
                      (w1\<lparr>w_m := update_server g (\<lambda>s. s\<lparr>s_connections := uint_dec (s_connections s)\<rparr>) (w_m w1)\<rparr>))
            else w1)"

text \<open>The message of an error on a backend connection prints the name of \<open>currserver\<close>.\<close>

definition server_error :: "string \<Rightarrow> unit io" where
  "server_error s = bnd (asks (\<lambda>w. c_currserver (cl w))) (\<lambda>p. deref p (\<lambda>_. set_errormsg s))"

section \<open>Descriptors\<close>

definition sock_sel :: "int \<Rightarrow> bool io" where
  "sock_sel fd w =
     (if w_open w fd
      then let (b, es) = sel (w_in w fd) in Some (Ok (b, w\<lparr>w_in := (w_in w)(fd := es)\<rparr>))
      else Some (Ok (True, w)))"

definition sock_rd :: "int \<Rightarrow> nat \<Rightarrow> rres io" where
  "sock_rd fd n w =
     (if w_open w fd
      then let (r, es) = rd n (w_in w fd) in Some (Ok (r, w\<lparr>w_in := (w_in w)(fd := es)\<rparr>))
      else Some (Ok (Rerr, w)))"

fun not_slow :: "wres list \<Rightarrow> wres list" where
  "not_slow (Wslow # rs) = not_slow rs"
| "not_slow rs = rs"

definition sock_wr :: "int \<Rightarrow> string \<Rightarrow> bool io" where
  "sock_wr fd s w =
     (if w_open w fd
      then (case not_slow (w_wr w fd) of
              Wfail # rs \<Rightarrow> Some (Ok (False, w\<lparr>w_wr := (w_wr w)(fd := rs)\<rparr>))
            | rs \<Rightarrow> Some (Ok (True, w\<lparr>w_wr := (w_wr w)(fd := tl rs), w_out := (w_out w)(fd := w_out w fd @ s)\<rparr>)))
      else Some (Ok (False, w)))"

definition sock_wsel :: "int \<Rightarrow> bool io" where
  "sock_wsel fd w =
     (if w_open w fd
      then (case w_wr w fd of
              Wslow # rs \<Rightarrow> Some (Ok (False, w\<lparr>w_wr := (w_wr w)(fd := rs)\<rparr>))
            | _ \<Rightarrow> Some (Ok (True, w)))
      else Some (Ok (True, w)))"

definition close_fd :: "int \<Rightarrow> unit io" where
  "close_fd fd = upd (\<lambda>w. w\<lparr>w_open := (w_open w)(fd := False)\<rparr>)"

definition cstr :: "string \<Rightarrow> string" where
  \<comment> \<open>the C string that a buffer holds\<close>
  "cstr s = takeWhile (\<lambda>c. c \<noteq> NUL) s"

section \<open>Reading\<close>

definition read_socket :: "int \<Rightarrow> nat \<Rightarrow> rres io" where
  "read_socket fd n = bnd (sock_sel fd) (\<lambda>b. if b then sock_rd fd n else ret Rerr)"

text \<open>Decoded bytes that wait inside the SSL library are not asked for with \<open>select\<close>.\<close>

definition ssl_pending :: "int \<Rightarrow> world \<Rightarrow> bool" where
  "ssl_pending fd w = (case w_in w fd of Got s # _ \<Rightarrow> w_open w fd \<and> s \<noteq> [] | _ \<Rightarrow> False)"

definition ssl_read_client_timeout :: "nat \<Rightarrow> rres io" where
  "ssl_read_client_timeout n =
     bnd (asks (\<lambda>w. (c_socket (cl w), ssl_pending (c_socket (cl w)) w))) (\<lambda>(fd, pending).
     if pending then sock_rd fd n else bnd (sock_sel fd) (\<lambda>b. if b then sock_rd fd n else ret Rerr))"

definition client_read_socket :: "nat \<Rightarrow> rres io" where
  "client_read_socket n =
     bnd (asks cl) (\<lambda>c. if c_useSSL c then ssl_read_client_timeout n else read_socket (c_socket c) n)"

definition write_socket :: "int \<Rightarrow> string \<Rightarrow> bool io" where
  "write_socket fd s = bnd (sock_wsel fd) (\<lambda>b. if b then sock_wr fd s else ret False)"

text \<open>The loop of \<open>fgetsrn\<close> over at most \<open>n\<close> bytes: what it stored, how it stopped, what is left.\<close>

datatype lstop = Line | Eof | Bad

fun getln :: "nat \<Rightarrow> ev list \<Rightarrow> string \<times> lstop \<times> ev list" where
  "getln 0 es = ([], Line, es)"
| "getln (Suc n) es =
     (case rd 1 es of
        (Rerr, es') \<Rightarrow> ([], Bad, es')
      | (Bytes [], es') \<Rightarrow> ([], Eof, es')
      | (Bytes (c # _), es') \<Rightarrow>
          if c = LF then ([c], Line, es')
          else (case getln n es' of (s, st, es'') \<Rightarrow> (c # s, st, es'')))"

definition gets_line :: "string \<Rightarrow> nat \<Rightarrow> int \<Rightarrow> string option io" where
  "gets_line who maxlen fd w =
     (if w_open w fd
      then (case getln (maxlen - 1) (w_in w fd) of
              (s, st, es) \<Rightarrow>
                (let w' = w\<lparr>w_in := (w_in w)(fd := es)\<rparr> in
                 if st = Bad then thn (set_errormsg who) (ret None) w'
                 else if st = Eof \<and> s = [] then ret None w'
                 else ret (Some (cstr s)) w'))
      else if maxlen \<le> 1 then ret (Some []) w
      else thn (set_errormsg who) (ret None) w)"

definition fgetsrn :: "nat \<Rightarrow> int \<Rightarrow> string option io" where
  "fgetsrn maxlen fd = gets_line ''fgetsrn'' maxlen fd"

definition ssl_getsrn :: "nat \<Rightarrow> int \<Rightarrow> string option io" where
  "ssl_getsrn maxlen fd = gets_line ''ssl_getsrn'' maxlen fd"

text \<open>
  \<open>readserver\<close> into a buffer of \<open>cap\<close> bytes, asking for \<open>size\<close>: the terminating zero goes behind
  what was read. After a failed read the answer is the empty string.
\<close>

definition readserver :: "nat \<Rightarrow> nat \<Rightarrow> string option io" where
  "readserver cap sz =
     bnd (asks (\<lambda>w. c_serversock (cl w))) (\<lambda>fd.
     bnd (sock_sel fd) (\<lambda>b.
     if \<not> b then thn (server_error ''read timeout'') (ret None)
     else bnd (sock_rd fd sz) (\<lambda>r.
       case r of
         Rerr \<Rightarrow> thn (server_error ''cant read from server'') (ret (Some []))
       | Bytes s \<Rightarrow>
           if cap \<le> length s then crash
           else thn (upd_cl (\<lambda>c. c\<lparr>c_serverbytes := add64 (c_serverbytes c) (length s)\<rparr>)) (ret (Some (cstr s))))))"

text \<open>\<open>nreadserver\<close> reads into \<open>bbuf\<close>, which has room for one byte more; no bytes stand for the answer 0.\<close>

definition nreadserver :: "string io" where
  "nreadserver =
     bnd (asks (\<lambda>w. (c_serversock (cl w), cf_BufSize (cfg w)))) (\<lambda>(fd, sz).
     bnd (sock_sel fd) (\<lambda>b.
     if \<not> b then thn (server_error ''read timeout'') (ret [])
     else bnd (sock_rd fd sz) (\<lambda>r.
       case r of
         Rerr \<Rightarrow> thn (server_error ''cant read from server'') (ret [])
       | Bytes s \<Rightarrow> thn (upd_cl (\<lambda>c. c\<lparr>c_serverbytes := add64 (c_serverbytes c) (length s)\<rparr>)) (ret s))))"

definition readserverline :: "string option io" where
  "readserverline =
     bnd (asks (\<lambda>w. (c_serversock (cl w), cf_BufSize (cfg w)))) (\<lambda>(fd, sz).
     bnd (sock_sel fd) (\<lambda>b.
     if \<not> b then thn (server_error ''read timeout'') (ret None) else fgetsrn sz fd))"

definition ssl_readclient :: "nat \<Rightarrow> bool \<Rightarrow> string option io" where
  "ssl_readclient sz nowait =
     bnd (asks (\<lambda>w. (c_socket (cl w), ssl_pending (c_socket (cl w)) w))) (\<lambda>(fd, pending).
     if nowait \<or> pending then ssl_getsrn sz fd
     else bnd (sock_sel fd) (\<lambda>b.
       if b then ssl_getsrn sz fd
       else thn (upd_cl (\<lambda>c. c\<lparr>c_timeout := c_timeout c + 1\<rparr>)) (ret None)))"

definition readclient :: "nat \<Rightarrow> bool \<Rightarrow> string option io" where
  "readclient sz nowait =
     bnd (asks (\<lambda>w. (c_socket (cl w), c_useSSL (cl w)))) (\<lambda>(fd, ssl).
     if ssl then ssl_readclient sz nowait
     else if nowait then fgetsrn sz fd
     else bnd (sock_sel fd) (\<lambda>b.
       if b then fgetsrn sz fd
       else thn (upd_cl (\<lambda>c. c\<lparr>c_timeout := c_timeout c + 1\<rparr>)) (ret None)))"

section \<open>Writing\<close>

definition linelen :: "string \<Rightarrow> nat" where
  "linelen s =
     (let len = length s in
      if len = 0 then 0
      else let l = s ! (len - 1) in
           if l = LF \<or> l = CR
           then (if 1 < len \<and> l \<noteq> s ! (len - 2) \<and> (s ! (len - 2) = LF \<or> s ! (len - 2) = CR)
                 then len - 2 else len - 1)
           else len)"

definition writeln :: "int \<Rightarrow> string \<Rightarrow> bool io" where
  "writeln fd s = sock_wr fd (take (linelen s) s @ CRLF)"

definition writeserver :: "string \<Rightarrow> bool io" where
  "writeserver request =
     bnd (asks (\<lambda>w. (c_serversock (cl w), cf_BufSize (cfg w)))) (\<lambda>(fd, sz).
     if sz \<le> length request then crash
     else bnd (writeln fd request) (\<lambda>ok.
          if ok then ret True else thn (server_error ''cant write to server'') (ret False)))"

text \<open>The buffer of \<open>ssl_writeln\<close> limits the line.\<close>

definition ssl_writeln :: "int \<Rightarrow> string \<Rightarrow> bool io" where
  "ssl_writeln fd s = (if 8189 < linelen s then ret False else sock_wr fd (take (linelen s) s @ CRLF))"

definition swriteclient :: "string \<Rightarrow> int io" where
  "swriteclient str =
     bnd (asks cl) (\<lambda>c.
     bnd (if c_useSSL c then ssl_writeln (c_socket c) str else writeln (c_socket c) str) (\<lambda>ok.
     if ok then ret 0 else thn (set_errormsg ''cant swrite to client'') (ret (- 1))))"

definition writeclient :: "string \<Rightarrow> int io" where
  "writeclient str =
     bnd (asks (\<lambda>w. cf_BufSize (cfg w))) (\<lambda>sz. if sz \<le> length str then crash else swriteclient str)"

definition slwriteclient :: "string \<Rightarrow> bool \<Rightarrow> int io" where
  "slwriteclient str limit =
     bnd (asks cl) (\<lambda>c.
     bnd (sock_wsel (c_socket c)) (\<lambda>b.
     if \<not> b then thn (set_errormsg ''slwrite timeout'') (ret (- 1))
     else bnd (sock_wr (c_socket c) str) (\<lambda>ok.
     if \<not> ok then (if c_useSSL c then ret (- 1)
                   else thn (set_errormsg ''cant slwrite to client'') (ret (- 1)))
     else deref (c_profile c) (\<lambda>p. deref (c_user c) (\<lambda>u.
       thn (upd_m (update_profile p (\<lambda>q. q\<lparr>p_rl := (p_rl q)\<lparr>rl_curbytes := u32 (int (rl_curbytes (p_rl q)) + int (length str))\<rparr>,
              p_bytes := add64 (p_bytes q) (length str), p_rbytes := add64 (p_rbytes q) (length str)\<rparr>)))
       (thn (upd_m (update_user u (\<lambda>q. q\<lparr>u_rl := (u_rl q)\<lparr>rl_curbytes := u32 (int (rl_curbytes (u_rl q)) + int (length str))\<rparr>\<rparr>)))
       (thn (if limit then thn check_ratelimits check_ratelimits_prof else ret ())
       (ret 0))))))))"

section \<open>Backend connections\<close>

definition connect_socket :: "string \<Rightarrow> nat \<Rightarrow> int option io" where
  "connect_socket host port w =
     (let w1 = w\<lparr>w_calls := w_calls w @ [(host, port)], w_dials := tl (w_dials w)\<rparr> in
      case w_dials w of
        Accept fd ok es ws # _ \<Rightarrow>
          Some (Ok (Some fd, w1\<lparr>w_open := (w_open w)(fd := True), w_in := (w_in w)(fd := es),
                                w_wr := (w_wr w)(fd := ws), w_out := (w_out w)(fd := [])\<rparr>))
      | _ \<Rightarrow> Some (Ok (None, w1)))"

definition socket_opt_ok :: "world \<Rightarrow> bool" where
  \<comment> \<open>the answer of \<open>setsockopt\<close> on the descriptor that comes next\<close>
  "socket_opt_ok w = (case w_dials w of Accept fd ok es ws # _ \<Rightarrow> ok | _ \<Rightarrow> True)"

text \<open>Whether the greeting lets the connection go on.\<close>

definition handshake_nntp :: "int \<Rightarrow> bool io" where
  "handshake_nntp fd =
     bnd (asks (\<lambda>w. cf_BufSize (cfg w))) (\<lambda>sz.
     bnd (read_socket fd sz) (\<lambda>r.
       case r of
         Rerr \<Rightarrow> ret False
       | Bytes s \<Rightarrow> if s = [] then ret False
                    else if sz \<le> length s then crash else ret (atoi (cstr s) < 300)))"

definition connect_server_nntp :: "string \<Rightarrow> nat \<Rightarrow> int option io" where
  "connect_server_nntp host port =
     bnd (asks (\<lambda>w. (socket_opt_ok w, cf_SockBufSize (cfg w)))) (\<lambda>(optok, sbs).
     bnd (connect_socket host port) (\<lambda>s.
       case s of
         None \<Rightarrow> ret None
       | Some fd \<Rightarrow>
           bnd (handshake_nntp fd) (\<lambda>ok.
           if \<not> ok then thn (close_fd fd) (ret None)
           else if sbs \<noteq> 0 \<and> \<not> optok then thn (close_fd fd) (ret None)
           else ret (Some fd))))"

definition connect_auth_nntp :: "nat \<Rightarrow> bool io" where
  \<comment> \<open>whether the backend took the name and password; the reply buffer has \<open>BufSize\<close> bytes\<close>
  "connect_auth_nntp s =
     bnd (asks (\<lambda>w. (m_servers (w_m w) ! s, cf_BufSize (cfg w)))) (\<lambda>(sv, sz).
     thn (writeserver (''AUTHINFO USER '' @ s_Username sv))
     (bnd (readserver sz sz) (\<lambda>r.
      if r = None then ret False
      else thn (writeserver (''AUTHINFO PASS '' @ s_Password sv))
        (bnd (readserver sz sz) (\<lambda>r.
           case r of None \<Rightarrow> ret False | Some reply \<Rightarrow> ret (atoi reply = 281))))))"

definition add_connection :: "nat \<Rightarrow> unit io" where
  "add_connection s = upd_m (update_server s (\<lambda>x. x\<lparr>s_connections := uint_inc (s_connections x)\<rparr>))"

definition sub_connection :: "nat \<Rightarrow> unit io" where
  "sub_connection s = upd_m (update_server s (\<lambda>x. x\<lparr>s_connections := uint_dec (s_connections x)\<rparr>))"

text \<open>\<open>connect_server\<close>: whether it failed.\<close>

definition connect_server :: "nat \<Rightarrow> bool io" where
  "connect_server s =
     bnd (asks (\<lambda>w. m_servers (w_m w) ! s)) (\<lambda>sv.
     bnd (connect_server_nntp (s_Hostname sv) (s_Port sv)) (\<lambda>sock.
       case sock of
         None \<Rightarrow> ret True
       | Some fd \<Rightarrow>
           thn (upd_cl (\<lambda>c. c\<lparr>c_serversock := fd, c_connected := True, c_serverarts := 0, c_serverbytes := 0,
                              c_currserver := Some s\<rparr>))
           (bnd (if s_Username sv \<noteq> [] \<and> s_Password sv \<noteq> [] then connect_auth_nntp s else ret True) (\<lambda>ok.
            if ok then thn (add_connection s) (ret False)
            else bnd (asks cl) (\<lambda>c.
                 thn (close_fd (c_serversock c))
                 (thn (if c_connected c
                       then thn (upd_cl (\<lambda>c. c\<lparr>c_connected := False\<rparr>)) (sub_connection s) else ret ())
                 (thn (upd_cl (\<lambda>c. c\<lparr>c_currserver := None\<rparr>)) (ret True))))))))"

definition send_quit :: "unit io" where
  "send_quit =
     bnd (asks (\<lambda>w. (c_connected (cl w), cf_BufSize (cfg w)))) (\<lambda>(con, sz).
     if con then bnd (writeserver ''QUIT'') (\<lambda>ok.
                  if ok then thn (readserver (sz + 1) sz) (ret ()) else ret ())
     else ret ())"

definition drop_groupserver :: "unit io" where
  "drop_groupserver =
     bnd (asks (\<lambda>w. c_groupserver (cl w))) (\<lambda>g.
       case g of None \<Rightarrow> ret ()
       | Some s \<Rightarrow> thn (sub_connection s) (upd_cl (\<lambda>c. c\<lparr>c_groupserver := None\<rparr>)))"

definition disconnect_server :: "unit io" where
  "disconnect_server =
     bnd (asks (\<lambda>w. c_connected (cl w))) (\<lambda>con.
     if \<not> con then ret ()
     else thn send_quit
       (thn drop_groupserver
       (thn (upd_cl (\<lambda>c. c\<lparr>c_group := None\<rparr>))
       (bnd (asks (\<lambda>w. c_serversock (cl w))) (\<lambda>fd.
        thn (close_fd fd)
        (thn (upd_cl (\<lambda>c. c\<lparr>c_connected := False\<rparr>))
        (bnd (asks (\<lambda>w. c_currserver (cl w))) (\<lambda>p. deref p (\<lambda>_. ret ())))))))))"

definition quiet_disconnect_server :: "unit io" where
  "quiet_disconnect_server =
     thn drop_groupserver
     (bnd (asks (\<lambda>w. c_serversock (cl w))) (\<lambda>fd.
      thn (close_fd fd) (upd_cl (\<lambda>c. c\<lparr>c_connected := False\<rparr>))))"

section \<open>The server of a group\<close>

definition select_primary :: "string \<Rightarrow> nat option io" where
  "select_primary name w =
     (case selectserver_primary name (w_m w) of
        None \<Rightarrow> None
      | Some (Ok (s, m)) \<Rightarrow> Some (Ok (s, w\<lparr>w_m := m\<rparr>))
      | Some (Die e) \<Rightarrow> Some (Die e)
      | Some Undef \<Rightarrow> Some Undef)"

definition select_backup :: "nat option \<Rightarrow> nat \<Rightarrow> nat option io" where
  "select_backup current primary w =
     map_option (\<lambda>(s, m). Ok (s, w\<lparr>w_m := m\<rparr>)) (selectserver_backup current primary (w_m w))"

partial_function (option) backup_loop :: "nat \<Rightarrow> world \<Rightarrow> (unit \<times> world) outcome option" where
  "backup_loop primary w =
     bnd (asks cl) (\<lambda>c.
       if c_connected c then ret ()
       else bnd (select_backup (c_groupserver c) primary) (\<lambda>s.
         case s of
           None \<Rightarrow> ret ()
         | Some svr \<Rightarrow>
             thn (upd_cl (\<lambda>c. c\<lparr>c_groupserver := Some svr\<rparr>))
             (thn (connect_server svr) (backup_loop primary)))) w"

declare backup_loop.simps [code]

definition groups_of :: "nat \<Rightarrow> world \<Rightarrow> string" where
  "groups_of s w = s_Groups (m_servers (w_m w) ! s)"

definition connect_primary :: "string \<Rightarrow> connect_result io" where
  \<comment> \<open>the part of \<open>connect_groupserver\<close> for a session without a connection\<close>
  "connect_primary server =
     bnd (select_primary server) (\<lambda>s.
       case s of
         None \<Rightarrow> ret CONNECT_ERR
       | Some svr \<Rightarrow>
           thn (upd_cl (\<lambda>c. c\<lparr>c_groupserver := Some svr\<rparr>))
           (bnd (connect_server svr) (\<lambda>failed.
            if \<not> failed then ret CONNECT_OK
            else thn (backup_loop svr)
              (bnd (asks (\<lambda>w. c_connected (cl w))) (\<lambda>con.
               if con then ret CONNECT_OK
               else thn (upd_cl (\<lambda>c. c\<lparr>c_group := None, c_groupserver := None\<rparr>)) (ret CONNECT_DOWN))))))"

definition connect_groupserver :: "string \<Rightarrow> connect_result io" where
  "connect_groupserver server =
     bnd (asks (\<lambda>w. (cl w, getserver server (w_m w)))) (\<lambda>(c, svr).
     if c_connected c
     then deref (c_groupserver c) (\<lambda>g. deref svr (\<lambda>s.
          bnd (asks (\<lambda>w. (groups_of g w = groups_of s w, s_Name (m_servers (w_m w) ! g) = server))) (\<lambda>(same, named).
          if same then ret CONNECT_OK
          else if named then ret CONNECT_OK
          else thn disconnect_server
            (bnd (asks (\<lambda>w. c_connected (cl w))) (\<lambda>con. if con then ret CONNECT_OK else connect_primary server)))))
     else connect_primary server)"

section \<open>Frames\<close>

text \<open>
  What the steps of a session may change of the shared memory: its own slot, and of the tables the
  users, the counters of the profiles and the lock, the position of the balancer and the numbers of
  connections. The steps of \<open>quiet_frame\<close> make no connection; \<open>session_frame\<close> adds the one that does.
  The lemmas of the two locales say that the operations keep whatever the steps keep.
\<close>

definition server_conf :: "server_t \<Rightarrow> server_t" where
  "server_conf s = s\<lparr>s_connections := 0\<rparr>"

definition session_tables :: "master_t \<Rightarrow> master_t \<Rightarrow> bool" where
  "session_tables m m' \<longleftrightarrow> m_clients m' = m_clients m \<and> m_connections m' = m_connections m
     \<and> map server_conf (m_servers m') = map server_conf (m_servers m)
     \<and> m_lservers m' = m_lservers m \<and> m_active m' = m_active m \<and> m_acls m' = m_acls m \<and> m_auths m' = m_auths m
     \<and> m_aliases m' = m_aliases m \<and> m_wildmats m' = m_wildmats m \<and> m_vhosts m' = m_vhosts m \<and> m_args m' = m_args m
     \<and> m_pfxmaps m' = m_pfxmaps m"

locale quiet_frame = frame R for R :: "world \<Rightarrow> world \<Rightarrow> bool" +
  assumes io_step: "w_m w' = w_m w \<Longrightarrow> w_env w' = w_env w \<Longrightarrow> w_me w' = w_me w \<Longrightarrow> w_calls w' = w_calls w \<Longrightarrow> R w w'"
    and cl_step: "(\<And>c. c_id (f c) = c_id c \<and> c_inuse (f c) = c_inuse c) \<Longrightarrow> R w (set_cl f w)"
    and table_step: "session_tables (w_m w) m \<Longrightarrow> R w (w\<lparr>w_m := m\<rparr>)"

locale session_frame = quiet_frame +
  assumes dial_step: "w_m w' = w_m w \<Longrightarrow> w_env w' = w_env w \<Longrightarrow> w_me w' = w_me w \<Longrightarrow> R w w'"

named_theorems session_ops "operations keep what the steps of a session keep"

lemma session_tables_rows:
  "session_tables m (update_profile p f m)" "session_tables m (update_user u g m)"
  "(\<And>s. server_conf (h s) = server_conf s) \<Longrightarrow> session_tables m (update_server s h m)"
  "same_servers m m' \<Longrightarrow> session_tables m m'"
proof -
  show "session_tables m (update_profile p f m)" "session_tables m (update_user u g m)"
    by (simp_all add: session_tables_def update_profile_def update_user_def)
  show "session_tables m (update_server s h m)" if "\<And>s. server_conf (h s) = server_conf s"
    using that by (cases "s < length (m_servers m)")
      (auto simp: session_tables_def update_server_def list_update_beyond nth_list_update intro!: nth_equalityI)
  show "session_tables m m'" if "same_servers m m'"
    using that by (cases m; cases m') (simp add: same_servers_def session_tables_def)
qed

lemma keeps_iff: "keeps R f \<longleftrightarrow> (\<forall>w r. f w = Some r \<longrightarrow> (case r of Ok (a, w') \<Rightarrow> R w w' | _ \<Rightarrow> True))"
  by (auto simp: keeps_def split: outcome.splits)

lemma keeps_none: "keeps R (\<lambda>_. None)"
  by (simp add: keeps_def)

text \<open>The induction over the calls of a loop, for the relations that its steps keep.\<close>

lemma step_admissible: "option.admissible (\<lambda>f. \<forall>w r. f (h w) = Some r \<longrightarrow> Q w r)"
proof -
  have "(\<lambda>f. \<forall>w r. f (h w) = Some r \<longrightarrow> Q w r) = (\<lambda>f. \<forall>x r. f x = Some r \<longrightarrow> (\<forall>w. x = h w \<longrightarrow> Q w r))"
    by (auto simp: fun_eq_iff)
  show ?thesis unfolding \<open>_ = _\<close> by (rule option_admissible)
qed

lemma returns_iff:
  "(\<forall>w r w'. m w = Some (Ok (r, w')) \<longrightarrow> Q w r w') \<longleftrightarrow> (\<forall>w x. m w = Some x \<longrightarrow> (case x of Ok (r, w') \<Rightarrow> Q w r w' | _ \<Rightarrow> True))"
  by (auto split: outcome.splits)

lemma keeps_admissible: "option.admissible (\<lambda>f. keeps R (\<lambda>w. f (h w)))"
  unfolding keeps_iff by (rule step_admissible)

lemmas keeps_loop = allI admissible_all keeps_admissible keeps_none

lemma selectserver_same:
  "selectserver_primary name m = Some (Ok (s, m')) \<Longrightarrow> same_servers m m'"
  "selectserver_backup cur primary m = Some (s, m') \<Longrightarrow> same_servers m m'"
  by (auto simp: selectserver_primary_def selectserver_backup_def Let_def dest: get_next_same split: option.splits if_splits)

context quiet_frame
begin

lemma upd_step [session_ops]: "(\<And>w. R w (f w)) \<Longrightarrow> keeps R (upd f)"
  by (simp add: keeps_def upd_def)

lemma upd_cl_step [session_ops]: "(\<And>c. c_id (f c) = c_id c \<and> c_inuse (f c) = c_inuse c) \<Longrightarrow> keeps R (upd_cl f)"
  unfolding upd_cl_def by (intro upd_step cl_step)

lemma rows [session_ops]:
  "keeps R (upd_m (update_profile p f))" "keeps R (upd_m (update_user u g))"
  "keeps R (add_connection s)" "keeps R (sub_connection s)"
  unfolding upd_m_def add_connection_def sub_connection_def
  by (intro upd_step table_step session_tables_rows; simp add: server_conf_def)+

lemma io_steps [session_ops]:
  "keeps R (sock_sel fd)" "keeps R (sock_rd fd n)" "keeps R (sock_wr fd s)" "keeps R (sock_wsel fd)" "keeps R (close_fd fd)"
  "keeps R (usleep us)" "keeps R (sleeping t)"
  unfolding keeps_def sock_sel_def sock_rd_def sock_wr_def sock_wsel_def close_fd_def usleep_def sleeping_def upd_def
  by (auto simp: Let_def refl intro!: io_step split: if_splits prod.splits list.splits wres.splits)

lemma errormsg [session_ops]: "keeps R (set_errormsg s)"
  unfolding set_errormsg_def
proof (rule upd_step, simp only: Let_def split: if_split option.split, intro conjI impI allI)
  fix w g
  show "R w (set_cl (\<lambda>c. c\<lparr>c_connected := False, c_groupserver := None\<rparr>)
      (set_cl (\<lambda>c. c\<lparr>c_errstr := Some s, c_error := c_error c + 1\<rparr>) w
       \<lparr>w_m := update_server g (\<lambda>s. s\<lparr>s_connections := uint_dec (s_connections s)\<rparr>)
           (w_m (set_cl (\<lambda>c. c\<lparr>c_errstr := Some s, c_error := c_error c + 1\<rparr>) w))\<rparr>))"
    by (rule trans [OF trans [OF cl_step table_step] cl_step])
      (simp_all add: session_tables_rows server_conf_def)
qed (auto intro: refl cl_step trans [OF cl_step cl_step])

lemma server_error [session_ops]: "keeps R (server_error s)"
  unfolding server_error_def by (intro rules session_ops)

lemma gets_line [session_ops]: "keeps R (gets_line who n fd)"
proof -
  have e: "keeps R (thn (set_errormsg x) (ret None))" for x by (intro rules session_ops)
  have i: "R w (w\<lparr>w_in := x\<rparr>)" for w x by (intro io_step) simp_all
  show ?thesis unfolding keeps_def gets_line_def
    by (auto simp: Let_def ret_def split: if_splits prod.splits dest!: keepsD [OF e] intro: trans [OF i] i refl)
qed

lemma case_rres [session_ops]: "keeps R m \<Longrightarrow> (\<And>s. keeps R (f s)) \<Longrightarrow> keeps R (case r of Bytes s \<Rightarrow> f s | Rerr \<Rightarrow> m)"
  by (cases r) simp_all

lemma case_sum [session_ops]: "(\<And>x. keeps R (f x)) \<Longrightarrow> (\<And>y. keeps R (g y)) \<Longrightarrow> keeps R (case s of Inl x \<Rightarrow> f x | Inr y \<Rightarrow> g y)"
  by (cases s) simp_all

lemma ratelimits [session_ops]:
  "keeps R init_ratelimiter" "keeps R init_ratelimiter_prof" "keeps R check_ratelimits" "keeps R check_ratelimits_prof"
  unfolding init_ratelimiter_def init_ratelimiter_prof_def check_ratelimits_def check_ratelimits_prof_def
  by (intro rules session_ops cl_step; simp)+

lemma reads [session_ops]:
  "keeps R (read_socket fd n)" "keeps R (client_read_socket n)" "keeps R (write_socket fd s)"
  "keeps R (readserver c n)" "keeps R nreadserver" "keeps R readserverline" "keeps R (readclient n b)"
  unfolding client_read_socket_def read_socket_def write_socket_def readserver_def nreadserver_def readserverline_def readclient_def
    ssl_read_client_timeout_def ssl_readclient_def fgetsrn_def ssl_getsrn_def
  by (intro rules session_ops; simp)+

lemma writes [session_ops]:
  "keeps R (writeserver s)" "keeps R (swriteclient s)" "keeps R (slwriteclient s l)"
  unfolding writeserver_def swriteclient_def slwriteclient_def writeln_def ssl_writeln_def by (intro rules session_ops)+

lemma writeclient [session_ops]: "keeps R (writeclient s)"
  unfolding writeclient_def by (intro rules session_ops)

lemma disconnect [session_ops]: "keeps R disconnect_server" "keeps R quiet_disconnect_server"
  unfolding disconnect_server_def quiet_disconnect_server_def send_quit_def drop_groupserver_def
  by (intro rules session_ops; simp)+

lemma select [session_ops]: "keeps R (select_primary name)" "keeps R (select_backup cur primary)"
  unfolding keeps_def select_primary_def select_backup_def
  by (auto split: option.splits outcome.splits prod.splits dest!: selectserver_same intro!: table_step session_tables_rows)

end

context session_frame
begin

lemma dial [session_ops]: "keeps R (connect_socket h p)"
  unfolding keeps_def connect_socket_def by (auto simp: Let_def intro!: dial_step split: list.splits dial.splits)

lemma connect_nntp [session_ops]: "keeps R (connect_server_nntp h p)"
  unfolding connect_server_nntp_def handshake_nntp_def by (intro rules session_ops)

lemma connect_server [session_ops]: "keeps R (connect_server s)"
  unfolding connect_server_def connect_auth_nntp_def by (intro rules session_ops; simp)

lemma backup_loop [session_ops]: "keeps R (backup_loop primary)"
proof -
  have "\<forall>p. keeps R (backup_loop p)"
  proof (rule backup_loop.fixp_induct, unfold curry_def, goal_cases)
    case (3 rec)
    then have rec: "keeps R (rec p)" for p by blast
    show ?case by (intro allI rules session_ops rec; simp)
  qed (intro keeps_loop)+
  then show ?thesis by blast
qed

lemma connect_groupserver [session_ops]: "keeps R (connect_groupserver server)"
  unfolding connect_groupserver_def connect_primary_def by (intro rules session_ops; simp)

end

text \<open>
  A session leaves the surroundings, the slots of the other sessions and the configuration tables
  alone; of a server it changes no more than the number of connections.
\<close>

definition own_slot :: "world \<Rightarrow> world \<Rightarrow> bool" where
  "own_slot w w' \<longleftrightarrow> w_env w' = w_env w \<and> w_me w' = w_me w
     \<and> length (m_clients (w_m w')) = length (m_clients (w_m w))
     \<and> (\<forall>j. j \<noteq> w_me w \<longrightarrow> m_clients (w_m w') ! j = m_clients (w_m w) ! j)
     \<and> map server_conf (m_servers (w_m w')) = map server_conf (m_servers (w_m w))
     \<and> m_lservers (w_m w') = m_lservers (w_m w) \<and> m_active (w_m w') = m_active (w_m w)
     \<and> m_acls (w_m w') = m_acls (w_m w) \<and> m_auths (w_m w') = m_auths (w_m w)
     \<and> m_aliases (w_m w') = m_aliases (w_m w) \<and> m_wildmats (w_m w') = m_wildmats (w_m w)
     \<and> m_vhosts (w_m w') = m_vhosts (w_m w) \<and> m_args (w_m w') = m_args (w_m w)"

lemma own_set_cl [simp]: "own_slot w (set_cl f w)"
  by (simp add: own_slot_def set_cl_def)

interpretation own: session_frame own_slot
  by unfold_locales (auto simp: own_slot_def session_tables_def set_cl_def)

text \<open>The slot of the session stays in use, with its number, and the count of the sessions stays.\<close>

definition live :: "world \<Rightarrow> world \<Rightarrow> bool" where
  "live w w' \<longleftrightarrow> w_me w' = w_me w \<and> m_connections (w_m w') = m_connections (w_m w)
     \<and> length (m_clients (w_m w')) = length (m_clients (w_m w))
     \<and> (in_slot w \<longrightarrow> c_id (cl w') = c_id (cl w) \<and> c_inuse (cl w') = c_inuse (cl w))"

lemma live_in_slot: "live w w' \<Longrightarrow> in_slot w' = in_slot w"
  by (simp add: live_def in_slot_def)

interpretation live: session_frame live
proof unfold_locales
  show "live w1 w3" if "live w1 w2" "live w2 w3" for w1 w2 w3
    using that live_in_slot [OF that(1)] by (auto simp: live_def)
  show "live w w'" if "w_m w' = w_m w" "w_me w' = w_me w" for w w' :: world
    using that by (simp add: live_def cl_def)
  then show "live w w'" if "w_m w' = w_m w" "w_me w' = w_me w" for w w' :: world
    using that by blast
  show "live w (set_cl f w)" if "\<And>c. c_id (f c) = c_id c \<and> c_inuse (f c) = c_inuse c" for f w
    using that by (simp add: live_def) (simp add: set_cl_def)
  show "live w (w\<lparr>w_m := m\<rparr>)" if "session_tables (w_m w) m" for w m
    using that by (simp add: live_def session_tables_def)
qed (simp add: live_def)

text \<open>No connection is made.\<close>

definition no_calls :: "world \<Rightarrow> world \<Rightarrow> bool" where
  "no_calls w w' \<longleftrightarrow> w_calls w' = w_calls w"

interpretation calls: quiet_frame no_calls
  by unfold_locales (auto simp: no_calls_def)

section \<open>Properties\<close>

subsection \<open>Rate limiters\<close>



subsection \<open>Connections to the backends\<close>

definition counts :: "world \<Rightarrow> nat list" where
  "counts w = map s_connections (m_servers (w_m w))"

text \<open>
  What an exchange on a backend connection can do to it: nothing, or, at the first error of the
  session, the loss of the connection with its count.
\<close>

definition less_one :: "nat option \<Rightarrow> nat list \<Rightarrow> nat list" where
  "less_one g ns = (case g of None \<Rightarrow> ns | Some s \<Rightarrow> ns[s := uint_dec (ns ! s)])"

definition lost :: "world \<Rightarrow> world \<Rightarrow> bool" where
  "lost w w' \<longleftrightarrow> (in_slot w \<longrightarrow> in_slot w' \<and> w_me w' = w_me w \<and>
     ((c_connected (cl w') = c_connected (cl w) \<and> c_groupserver (cl w') = c_groupserver (cl w) \<and> counts w' = counts w)
      \<or> (c_connected (cl w) \<and> \<not> c_connected (cl w') \<and> c_groupserver (cl w') = None
         \<and> counts w' = less_one (c_groupserver (cl w)) (counts w))))"

interpretation lost: frame lost
  by unfold_locales (auto simp: lost_def)

named_theorems lost_ops

lemma lost_io [simp]:
  "counts (w\<lparr>w_in := a\<rparr>) = counts w" "counts (w\<lparr>w_wr := b\<rparr>) = counts w" "counts (w\<lparr>w_out := c\<rparr>) = counts w"
  "counts (w\<lparr>w_open := d\<rparr>) = counts w" "counts (w\<lparr>w_dials := e\<rparr>) = counts w" "counts (w\<lparr>w_calls := g\<rparr>) = counts w"
  "counts (w\<lparr>w_clock := h\<rparr>) = counts w" "counts (set_cl f w) = counts w"
  by (simp_all add: counts_def)

lemma counts_update_server:
  "s < length (counts w) \<Longrightarrow>
   counts (w\<lparr>w_m := update_server s (\<lambda>x. x\<lparr>s_connections := g (s_connections x)\<rparr>) (w_m w)\<rparr>) = (counts w)[s := g (counts w ! s)]"
  by (simp add: counts_def update_server_def map_update)

lemma lost_upd_cl: "(\<And>c. c_connected (f c) = c_connected c \<and> c_groupserver (f c) = c_groupserver c) \<Longrightarrow> keeps lost (upd_cl f)"
  by (simp add: keeps_def lost_def upd_cl_def upd_def)

lemma lost_sock [lost_ops]:
  "keeps lost (sock_sel fd)" "keeps lost (sock_rd fd n)" "keeps lost (sock_wr fd s)" "keeps lost (sock_wsel fd)"
  "keeps lost (close_fd fd)" "keeps lost (connect_socket h p)"
  unfolding keeps_def lost_def sock_sel_def sock_rd_def sock_wr_def sock_wsel_def close_fd_def upd_def connect_socket_def Let_def
  by (auto split: if_splits prod.splits list.splits wres.splits dial.splits)

lemma lost_set_errormsg [lost_ops]: "keeps lost (set_errormsg s)"
proof -
  have c: "counts (set_cl f w\<lparr>w_m := update_server g (\<lambda>s. s\<lparr>s_connections := uint_dec (s_connections s)\<rparr>) (w_m (set_cl f w))\<rparr>)
      = (counts w)[g := uint_dec (counts w ! g)]" for g f w
    by (cases "g < length (m_servers (w_m w))")
      (simp_all add: counts_def update_server_def map_update list_update_beyond)
  show ?thesis unfolding keeps_def lost_def set_errormsg_def upd_def
    by (auto simp: Let_def less_one_def c split: option.splits)
qed
lemma lost_server_error [lost_ops]: "keeps lost (server_error s)"
  unfolding server_error_def by (intro lost.rules lost_ops)

lemma lost_gets_line [lost_ops]: "keeps lost (gets_line who n fd)"
proof -
  have e: "keeps lost (thn (set_errormsg x) (ret None))" for x by (intro lost.rules lost_ops)
  have i: "lost w (w\<lparr>w_in := x\<rparr>)" for w x by (simp add: lost_def)
  show ?thesis unfolding keeps_def gets_line_def
    by (auto simp: Let_def ret_def split: if_splits prod.splits dest!: keepsD [OF e] intro: lost.trans [OF i] i lost.refl)
qed

lemma lost_case_rres [lost_ops]: "keeps lost m \<Longrightarrow> (\<And>s. keeps lost (f s)) \<Longrightarrow> keeps lost (case r of Bytes s \<Rightarrow> f s | Rerr \<Rightarrow> m)"
  by (cases r) simp_all

lemma lost_serverbytes [lost_ops]: "keeps lost (upd_cl (\<lambda>c. c\<lparr>c_serverbytes := f c\<rparr>))"
  by (rule lost_upd_cl) simp

lemma lost_reads [lost_ops]:
  "keeps lost (read_socket fd n)" "keeps lost (readserver c n)" "keeps lost nreadserver" "keeps lost readserverline"
  unfolding read_socket_def readserver_def nreadserver_def readserverline_def fgetsrn_def
  by (intro lost.rules lost_ops)+

lemma lost_writes [lost_ops]: "keeps lost (writeserver s)" "keeps lost (swriteclient s)" "keeps lost (writeclient s)"
  unfolding writeclient_def writeserver_def swriteclient_def writeln_def ssl_writeln_def by (intro lost.rules lost_ops)+

lemma lost_send_quit [lost_ops]: "keeps lost send_quit"
  unfolding send_quit_def by (intro lost.rules lost_ops)

lemma lost_connect_nntp [lost_ops]: "keeps lost (connect_server_nntp h p)"
  unfolding connect_server_nntp_def handshake_nntp_def by (intro lost.rules lost_ops)

text \<open>
  However the goodbye goes, answered, cut off, refused or timed out, a disconnect gives the
  connection back exactly once.
\<close>

lemma disconnect_counts:
  assumes "in_slot w" and "c_connected (cl w)" and "c_groupserver (cl w) = Some s" and "s < length (counts w)"
    and "disconnect_server w = Some (Ok (u, w'))"
  shows "counts w' = (counts w)[s := uint_dec (counts w ! s)]
    \<and> \<not> c_connected (cl w') \<and> c_groupserver (cl w') = None \<and> c_group (cl w') = None"
proof -
  obtain w1 where q: "send_quit w = Some (Ok ((), w1))"
    and r: "bnd drop_groupserver (\<lambda>_. thn (upd_cl (\<lambda>c. c\<lparr>c_group := None\<rparr>))
       (bnd (asks (\<lambda>w. c_serversock (cl w))) (\<lambda>fd. thn (close_fd fd) (thn (upd_cl (\<lambda>c. c\<lparr>c_connected := False\<rparr>))
        (bnd (asks (\<lambda>w. c_currserver (cl w))) (\<lambda>p. deref p (\<lambda>_. ret ()))))))) w1 = Some (Ok (u, w'))"
    using assms(2,5) unfolding disconnect_server_def thn_def [of send_quit] thn_def [of drop_groupserver]
    by (auto simp: bnd_Ok asks_def)
  have l: "in_slot w1" "(c_connected (cl w1) \<and> c_groupserver (cl w1) = Some s \<and> counts w1 = counts w)
      \<or> (\<not> c_connected (cl w1) \<and> c_groupserver (cl w1) = None \<and> counts w1 = (counts w)[s := uint_dec (counts w ! s)])"
    using keepsD [OF lost_send_quit q] assms(1-3) by (auto simp: lost_def less_one_def)
  define w2 where "w2 = (case c_groupserver (cl w1) of None \<Rightarrow> w1
     | Some s \<Rightarrow> set_cl (\<lambda>c. c\<lparr>c_groupserver := None\<rparr>)
         (w1\<lparr>w_m := update_server s (\<lambda>x. x\<lparr>s_connections := uint_dec (s_connections x)\<rparr>) (w_m w1)\<rparr>))"
  have d: "drop_groupserver w1 = Some (Ok ((), w2))"
    by (auto simp: drop_groupserver_def sub_connection_def run w2_def split: option.split)
  have w2: "in_slot w2" "c_groupserver (cl w2) = None" "counts w2 = (counts w)[s := uint_dec (counts w ! s)]"
    using l assms(4) unfolding w2_def by (auto simp: counts_update_server)
  from r d have "w' = set_cl (\<lambda>c. c\<lparr>c_connected := False\<rparr>)
      ((set_cl (\<lambda>c. c\<lparr>c_group := None\<rparr>) w2)\<lparr>w_open := (w_open w2)(c_serversock (cl w2) := False)\<rparr>)"
    using w2(1) by (auto simp: bnd_Ok thn_Ok asks_def upd_cl_def upd_def close_fd_def deref_def crash_def ret_def split: option.splits)
  with w2 show ?thesis by simp
qed

definition quiet_cfg :: cfg_t where
  "quiet_cfg = zero_cfg\<lparr>cf_BufSize := 1024, cf_RatePeriod := 1\<rparr>"

definition sample_env :: env where
  "sample_env = \<lparr>e_cfg = quiet_cfg, e_fs = (\<lambda>_. None), e_auth = (\<lambda>_. None), e_acct = (\<lambda>_. True),
     e_http = (\<lambda>_ _. None), e_escape = (\<lambda>s. s), e_json_string = (\<lambda>_ _. None), e_json_int = (\<lambda>_ _. 0), e_parsedate = (\<lambda>_. 0), e_strftime = (\<lambda>_ _. []), e_mktime = (\<lambda>_ _ _ _ _ _. 0), e_pid = 77, e_version = ''1'',
     e_vhost = None, e_ssl_accept = True, e_mail = (\<lambda>_ _. 0),
     e_dns = (\<lambda>_. None), e_affinity = True, e_sndbuf = True, e_errno = False, e_before = NUL, e_behind = (\<lambda>_. 0), e_stale = (\<lambda>s. s)\<rparr>"

text \<open>A session in slot 1 of two, with the client on descriptor 5 and one backend server besides the default.\<close>

definition sample_master :: master_t where
  "sample_master = zero_master\<lparr>
     m_clients := [zero_client, zero_client\<lparr>c_inuse := True, c_id := 1, c_socket := 5, c_profile := Some 0, c_user := Some 0\<rparr>],
     m_profiles := [zero_profile\<lparr>p_ClientReadTimeout := 10\<rparr>],
     m_users := [zero_user\<lparr>u_key := ''host'', u_connections := 1\<rparr>],
     m_servers := [zero_server\<lparr>s_Name := ''default''\<rparr>,
       zero_server\<lparr>s_Name := ''news'', s_Hostname := ''news.example'', s_Port := 119, s_Groups := ''*'', s_Level := 1\<rparr>],
     m_lservers := [1]\<rparr>"

definition sample_world :: world where
  "sample_world = \<lparr>w_env = sample_env, w_m = sample_master, w_me = 1, w_in = (\<lambda>_. []), w_wr = (\<lambda>_. []),
     w_out = (\<lambda>_. []), w_open = (\<lambda>fd. fd = 5), w_dials = [], w_calls = [], w_clock = 0, w_overview = [],
     w_usecount = (\<lambda>_. 0), w_acct = [], w_files = []\<rparr>"

definition with_server :: "(server_t \<Rightarrow> server_t) \<Rightarrow> dial list \<Rightarrow> world" where
  \<comment> \<open>the session has chosen its server and is about to connect\<close>
  "with_server f ds = set_cl (\<lambda>c. c\<lparr>c_groupserver := Some 1\<rparr>)
     (sample_world\<lparr>w_dials := ds, w_m := update_server 1 f sample_master\<rparr>)"

lemma connect_server_counts:
  assumes "in_slot w" and "\<not> c_connected (cl w)" and "s < length (counts w)" and "s_Username (m_servers (w_m w) ! s) = []"
    and "connect_server s w = Some (Ok (failed, w'))"
  shows "in_slot w' \<and> c_groupserver (cl w') = c_groupserver (cl w) \<and> c_connected (cl w') = (\<not> failed)
    \<and> counts w' = (if failed then counts w else (counts w)[s := uint_inc (counts w ! s)])"
proof -
  let ?sv = "m_servers (w_m w) ! s"
  obtain sock w1 where n: "connect_server_nntp (s_Hostname ?sv) (s_Port ?sv) w = Some (Ok (sock, w1))"
    using assms(5) by (auto simp: connect_server_def bnd_Ok asks_def)
  have l: "in_slot w1" "\<not> c_connected (cl w1)" "c_groupserver (cl w1) = c_groupserver (cl w)" "counts w1 = counts w"
    using keepsD [OF lost_connect_nntp n] assms(1,2) by (auto simp: lost_def)
  show ?thesis
  proof (cases sock)
    case None
    with assms(5) n l show ?thesis by (simp add: connect_server_def run)
  next
    case (Some fd)
    let ?w2 = "set_cl (\<lambda>c. c\<lparr>c_serversock := fd, c_connected := True, c_serverarts := 0, c_serverbytes := 0,
        c_currserver := Some s\<rparr>) w1"
    have "failed = False \<and> w' = ?w2\<lparr>w_m := update_server s (\<lambda>x. x\<lparr>s_connections := uint_inc (s_connections x)\<rparr>) (w_m ?w2)\<rparr>"
      using assms(4,5) n Some by (simp add: connect_server_def add_connection_def run)
    with l assms(3) show ?thesis by (simp add: counts_update_server)
  qed
qed



text \<open>
  A server that takes the connection but not the login loses a connection that was never counted. A
  server with no connections then has \<open>UINT_MAX\<close> of them, and one with a limit is full for good.
\<close>

lemma lost_connect_auth: "keeps lost (connect_auth_nntp s)"
  unfolding connect_auth_nntp_def by (intro lost.rules lost_ops)

theorem rejected_backend_login:
  assumes "in_slot w" and "\<not> c_connected (cl w)" and "c_groupserver (cl w) = Some s" and "s < length (counts w)"
    and "s_Username (m_servers (w_m w) ! s) \<noteq> []" and "s_Password (m_servers (w_m w) ! s) \<noteq> []"
    and "connect_server_nntp (s_Hostname (m_servers (w_m w) ! s)) (s_Port (m_servers (w_m w) ! s)) w = Some (Ok (Some fd, w1))"
    and "connect_auth_nntp s (set_cl (\<lambda>c. c\<lparr>c_serversock := fd, c_connected := True, c_serverarts := 0,
           c_serverbytes := 0, c_currserver := Some s\<rparr>) w1) = Some (Ok (False, w2))"
  shows "\<exists>w'. connect_server s w = Some (Ok (True, w')) \<and> counts w' = (counts w)[s := uint_dec (counts w ! s)]
    \<and> \<not> c_connected (cl w')
    \<and> (counts w ! s = 0 \<and> 0 < s_MaxConnections (m_servers (w_m w) ! s) \<and> s_MaxConnections (m_servers (w_m w) ! s) < 2 ^ 32
        \<longrightarrow> is_full (w_m w') s)"
proof -
  let ?w1 = "set_cl (\<lambda>c. c\<lparr>c_serversock := fd, c_connected := True, c_serverarts := 0, c_serverbytes := 0, c_currserver := Some s\<rparr>) w1"
  have l: "in_slot w1" "c_groupserver (cl w1) = Some s" "counts w1 = counts w"
    using keepsD [OF lost_connect_nntp assms(7)] assms(1-3) by (auto simp: lost_def)
  have l2: "in_slot w2" "(c_connected (cl w2) \<and> counts w2 = counts w)
      \<or> (\<not> c_connected (cl w2) \<and> counts w2 = (counts w)[s := uint_dec (counts w ! s)])"
    using keepsD [OF lost_connect_auth assms(8)] l by (auto simp: lost_def less_one_def)
  have "\<exists>w'. connect_server s w = Some (Ok (True, w')) \<and> counts w' = (counts w)[s := uint_dec (counts w ! s)]
      \<and> \<not> c_connected (cl w')"
    using assms(4-8) l2
    by (auto simp: connect_server_def sub_connection_def close_fd_def run counts_update_server)
  then obtain w' where w': "connect_server s w = Some (Ok (True, w'))"
    "counts w' = (counts w)[s := uint_dec (counts w ! s)]" "\<not> c_connected (cl w')" by blast
  have "map server_conf (m_servers (w_m w')) = map server_conf (m_servers (w_m w))"
    using keepsD [OF own.connect_server w'(1)] by (simp add: own_slot_def)
  moreover have s: "s < length (m_servers (w_m w))" using assms(4) by (simp add: counts_def)
  ultimately have "server_conf (m_servers (w_m w') ! s) = server_conf (m_servers (w_m w) ! s)"
    by (metis length_map nth_map)
  then have m: "s_MaxConnections (m_servers (w_m w') ! s) = s_MaxConnections (m_servers (w_m w) ! s)"
    by (cases "m_servers (w_m w') ! s"; cases "m_servers (w_m w) ! s") (simp add: server_conf_def)
  have "s_connections (m_servers (w_m w') ! s) = uint_dec (counts w ! s)"
    using w'(2) s by (metis counts_def length_list_update length_map nth_list_update_eq nth_map)
  with w' m show ?thesis by (auto simp: is_full_def uint_dec_def)
qed

theorem rejected_backend_login_witness:
  "\<exists>w'. connect_server 1 (with_server (\<lambda>s. s\<lparr>s_Username := ''u'', s_Password := ''p'', s_MaxConnections := 10\<rparr>)
      [Accept 9 True [Got ''200 hi'', Got ''381 more'', Got ''482 no''] []]) = Some (Ok (True, w')) \<and> is_full (w_m w') 1"
proof -
  let ?w = "with_server (\<lambda>s. s\<lparr>s_Username := ''u'', s_Password := ''p'', s_MaxConnections := 10\<rparr>)
      [Accept 9 True [Got ''200 hi'', Got ''381 more'', Got ''482 no''] []]"
  let ?up = "\<lambda>fd. set_cl (\<lambda>c. c\<lparr>c_serversock := fd, c_connected := True, c_serverarts := 0, c_serverbytes := 0, c_currserver := Some 1\<rparr>)"
  have a: "in_slot ?w" "\<not> c_connected (cl ?w)" "c_groupserver (cl ?w) = Some 1" "counts ?w = [0, 0]"
    "s_Username (m_servers (w_m ?w) ! 1) \<noteq> []" "s_Password (m_servers (w_m ?w) ! 1) \<noteq> []"
    "s_MaxConnections (m_servers (w_m ?w) ! 1) = 10" by code_simp+
  have "runs (connect_server_nntp (s_Hostname (m_servers (w_m ?w) ! 1)) (s_Port (m_servers (w_m ?w) ! 1))) ?w
      (\<lambda>s w1. s \<noteq> None \<and> runs (connect_auth_nntp 1) (?up (the s) w1) (\<lambda>b _. \<not> b))" by code_simp
  then obtain s w1 b w2 where
      n: "connect_server_nntp (s_Hostname (m_servers (w_m ?w) ! 1)) (s_Port (m_servers (w_m ?w) ! 1)) ?w = Some (Ok (s, w1))"
    and s: "s \<noteq> None" and m: "connect_auth_nntp 1 (?up (the s) w1) = Some (Ok (b, w2))" and "\<not> b"
    unfolding runs_iff by blast
  from s \<open>\<not> b\<close> obtain fd where "s = Some fd" and "b = False" by blast
  note n = n [unfolded this(1)] and m = m [unfolded this option.sel]
  show ?thesis using rejected_backend_login [OF a(1-3) _ a(5,6) n m] a(4,7) by auto
qed

subsection \<open>All backends down\<close>

text \<open>No further attempt to connect succeeds, and the level has servers with room that are not of the single policy.\<close>

definition backends_down :: "nat \<Rightarrow> world \<Rightarrow> bool" where
  "backends_down lv w \<longleftrightarrow> in_slot w \<and> \<not> c_connected (cl w) \<and> w_dials w = [] \<and> balanced lv (w_m w)
     \<and> (\<forall>i \<in> set (at_level lv (w_m w)). \<not> is_full (w_m w) i \<and> s_Policy (m_servers (w_m w) ! i) \<noteq> Policy_single)"

lemma connect_refused:
  "w_dials w = [] \<Longrightarrow> connect_server s w = Some (Ok (True, w\<lparr>w_calls := w_calls w @
     [(s_Hostname (m_servers (w_m w) ! s), s_Port (m_servers (w_m w) ! s))]\<rparr>))"
  by (simp add: connect_server_def connect_server_nntp_def connect_socket_def run)

lemma down_calls: "backends_down lv (w\<lparr>w_calls := x\<rparr>) = backends_down lv w"
  by (simp add: backends_down_def)

lemma down_select:
  assumes "backends_down lv w" and "c_groupserver (cl w) = Some c" and "c \<in> set (at_level lv (w_m w))"
    and "level_of (w_m w) primary = lv"
  obtains svr w' where "select_backup (c_groupserver (cl w)) primary w = Some (Ok (Some svr, w'))"
    "backends_down lv w'" "svr \<in> set (at_level lv (w_m w'))" "level_of (w_m w') primary = lv"
proof -
  let ?svr = "at_level lv (w_m w) ! m_balance_pos (w_m w) lv" and ?m = "add_level_usage lv (w_m w)"
  have pos: "m_balance_pos (w_m w) lv < length (at_level lv (w_m w))"
    using assms(1) by (simp add: backends_down_def balanced_def)
  then have "get_next_server lv (w_m w) = Some (Some ?svr, ?m)"
    using assms(1) by (intro get_next_stop) (auto simp: backends_down_def)
  then have s: "select_backup (c_groupserver (cl w)) primary w = Some (Ok (Some ?svr, w\<lparr>w_m := ?m\<rparr>))"
    using assms by (auto simp: select_backup_def selectserver_backup_def backends_down_def)
  moreover have "m_clients ?m = m_clients (w_m w)" "m_servers ?m = m_servers (w_m w)"
    by (simp_all add: add_level_usage_def Let_def)
  then have "backends_down lv (w\<lparr>w_m := ?m\<rparr>)"
    using assms(1) balanced_step [of lv "w_m w"] by (simp add: backends_down_def usage_frames)
  moreover have "?svr \<in> set (at_level lv ?m)" using pos by (simp add: usage_frames)
  moreover have "level_of ?m primary = lv" using assms(4) by (simp add: level_of_def add_level_usage_def Let_def)
  ultimately show thesis by (intro that [of ?svr "w\<lparr>w_m := ?m\<rparr>"]) simp_all
qed

lemma backup_loop_never_returns:
  assumes "backup_loop primary w = Some r"
  shows "\<not> (backends_down lv w \<and> (\<exists>c. c_groupserver (cl w) = Some c \<and> c \<in> set (at_level lv (w_m w)))
    \<and> level_of (w_m w) primary = lv)"
proof (rule backup_loop.raw_induct [OF _ assms, where P = "\<lambda>primary w r. \<not> (backends_down lv w
    \<and> (\<exists>c. c_groupserver (cl w) = Some c \<and> c \<in> set (at_level lv (w_m w))) \<and> level_of (w_m w) primary = lv)"], rule notI)
  fix rec :: "nat \<Rightarrow> unit io" and primary w r
  assume IH: "\<And>p w r. rec p w = Some r \<Longrightarrow> \<not> (backends_down lv w
      \<and> (\<exists>c. c_groupserver (cl w) = Some c \<and> c \<in> set (at_level lv (w_m w))) \<and> level_of (w_m w) p = lv)"
  assume body: "bnd (asks cl) (\<lambda>c. if c_connected c then ret ()
     else bnd (select_backup (c_groupserver c) primary) (\<lambda>s. case s of None \<Rightarrow> ret ()
       | Some svr \<Rightarrow> thn (upd_cl (\<lambda>c. c\<lparr>c_groupserver := Some svr\<rparr>)) (thn (connect_server svr) (rec primary)))) w = Some r"
  assume down: "backends_down lv w \<and> (\<exists>c. c_groupserver (cl w) = Some c \<and> c \<in> set (at_level lv (w_m w)))
      \<and> level_of (w_m w) primary = lv"
  then obtain c where "c_groupserver (cl w) = Some c" "c \<in> set (at_level lv (w_m w))" by blast
  with down obtain svr w' where s: "select_backup (c_groupserver (cl w)) primary w = Some (Ok (Some svr, w'))"
    "backends_down lv w'" "svr \<in> set (at_level lv (w_m w'))" "level_of (w_m w') primary = lv"
    by (blast elim: down_select)
  let ?w2 = "set_cl (\<lambda>c. c\<lparr>c_groupserver := Some svr\<rparr>) w'"
  let ?w3 = "?w2\<lparr>w_calls := w_calls w' @ [(s_Hostname (m_servers (w_m w') ! svr), s_Port (m_servers (w_m w') ! svr))]\<rparr>"
  have same: "at_level lv (w_m ?w2) = at_level lv (w_m w')" "level_of (w_m ?w2) = level_of (w_m w')"
    "is_full (w_m ?w2) = is_full (w_m w')" "balanced lv (w_m ?w2) = balanced lv (w_m w')"
    by (simp_all add: at_level_def level_of_def fun_eq_iff is_full_def balanced_def count_server_level_def)
  have d3: "backends_down lv ?w3" using s(2) by (simp add: down_calls) (simp add: backends_down_def same)
  have "connect_server svr ?w2 = Some (Ok (True, ?w3))"
    using connect_refused [of ?w2 svr] s(2) by (simp add: backends_down_def)
  with body s(1) down have "rec primary ?w3 = Some r" by (simp add: run backends_down_def)
  with IH have "\<not> (backends_down lv ?w3 \<and> (\<exists>c. c_groupserver (cl ?w3) = Some c \<and> c \<in> set (at_level lv (w_m ?w3)))
      \<and> level_of (w_m ?w3) primary = lv)" by blast
  with d3 s(2-4) same show False by (simp add: backends_down_def)
qed

text \<open>C39: 
  When every server of a group with the backup policy is down, selecting the group never returns:
  the search for a backup always has a next server, and a failed attempt does not end it.
\<close>

theorem all_backends_down_hangs:
  assumes "backends_down lv w" and "getserver name (w_m w) = Some s" and "s_Policy (m_servers (w_m w) ! s) = Policy_backup"
    and "s \<in> set (at_level lv (w_m w))"
  shows "connect_groupserver name w = None"
proof -
  let ?w2 = "set_cl (\<lambda>c. c\<lparr>c_groupserver := Some s\<rparr>) w"
  let ?w3 = "?w2\<lparr>w_calls := w_calls w @ [(s_Hostname (m_servers (w_m w) ! s), s_Port (m_servers (w_m w) ! s))]\<rparr>"
  have lv: "level_of (w_m w) s = lv" using assms(4) by (simp add: at_level_def)
  have same: "at_level lv (w_m ?w2) = at_level lv (w_m w)" "level_of (w_m ?w2) = level_of (w_m w)"
    "is_full (w_m ?w2) = is_full (w_m w)" "balanced lv (w_m ?w2) = balanced lv (w_m w)"
    by (simp_all add: at_level_def level_of_def fun_eq_iff is_full_def balanced_def count_server_level_def)
  have "select_primary name w = Some (Ok (Some s, w))"
    using assms by (simp add: select_primary_def selectserver_primary_def backends_down_def)
  moreover have "connect_server s ?w2 = Some (Ok (True, ?w3))"
    using connect_refused [of ?w2 s] assms(1) by (simp add: backends_down_def)
  moreover have "backends_down lv ?w3" using assms(1) by (simp add: down_calls) (simp add: backends_down_def same)
  then have "backup_loop s ?w3 = None"
    using backup_loop_never_returns [of s ?w3 _ lv] assms(1,4) lv same
    by (cases "backup_loop s ?w3") (auto simp: backends_down_def)
  ultimately show ?thesis using assms(1) by (simp add: connect_groupserver_def connect_primary_def run backends_down_def)
qed

theorem all_backends_down_hangs_witness: "connect_groupserver ''news'' (with_server (\<lambda>s. s\<lparr>s_Policy := Policy_backup\<rparr>) []) = None"
proof -
  let ?w = "with_server (\<lambda>s. s\<lparr>s_Policy := Policy_backup\<rparr>) []"
  have a: "backends_down 1 ?w" "getserver ''news'' (w_m ?w) = Some 1" "s_Policy (m_servers (w_m ?w) ! 1) = Policy_backup"
    "1 \<in> set (at_level 1 (w_m ?w))" by code_simp+
  show ?thesis using all_backends_down_hangs [OF a] .
qed

end
