(* ===== verification/Active.thy ===== *)
theory Active
  imports Socket
begin

text \<open>
  \<open>active.c\<close>: the newsgroups, one row each with the server that carries it, read from the active file
  and searched by bisection; the overview format; and the listings the client asks for. The table is
  the list of its rows; the file is the text of its lines.
\<close>

section \<open>The active file\<close>

definition MAX_GROUP :: nat where "MAX_GROUP = 160"

text \<open>Fields of \<open>fscanf\<close> with their widths, as long as the input lasts, and the rest of it.\<close>

fun read_fields :: "nat list \<Rightarrow> string \<Rightarrow> string list \<times> string" where
  "read_fields [] s = ([], s)"
| "read_fields (n # ns) s =
     (let t = dropWhile isspace_c s; f = take n (takeWhile (\<lambda>c. \<not> isspace_c c) t) in
      if t = [] then ([], [])
      else case read_fields ns (drop (length f) t) of (fs, r) \<Rightarrow> (f # fs, r))"

datatype entry = At_end | Broken_entry string | Entry active_t string

definition signed64 :: "nat \<Rightarrow> int" where
  "signed64 n = signed_take_bit 63 (int n)"

text \<open>
  One call of \<open>fscanf\<close>. A sign without a digit in the last field is consumed before the mismatch.
\<close>

definition read_entry :: "string \<Rightarrow> entry" where
  "read_entry s =
     (let (fs, r) = read_fields [MAX_GROUP - 1, 10, 10, 1, 31] s;
          t = dropWhile isspace_c r; tok = int_token t in
      if fs = [] then At_end
      else if length fs < 5 then Broken_entry r
      else if \<not> (\<exists>c \<in> set tok. isdigit_c c) then Broken_entry (drop (length tok) t)
      else Entry \<lparr>a_hi = u64 (atol (fs ! 1)), a_lo = u64 (atol (fs ! 2)), a_times = u32 (atoi tok), a_id = 0,
                  a_mode = hd (fs ! 3), a_newsgroup = fs ! 0, a_server = fs ! 4\<rparr> (drop (length tok) t))"

lemma read_fields_length: "read_fields ns s = (fs, r) \<Longrightarrow> length r \<le> length s \<and> (fs \<noteq> [] \<longrightarrow> 0 \<notin> set ns \<longrightarrow> length r < length s)"
proof (induction ns arbitrary: s fs r)
  case Nil
  then show ?case by simp
next
  case (Cons n ns)
  let ?t = "dropWhile isspace_c s"
  let ?f = "take n (takeWhile (\<lambda>c. \<not> isspace_c c) ?t)"
  have l: "length ?t \<le> length s" by (rule length_dropWhile_le)
  show ?case
  proof (cases "?t = []")
    case True
    with Cons.prems show ?thesis by simp
  next
    case False
    obtain gs u where g0: "read_fields ns (drop (length ?f) ?t) = (gs, u)" by fastforce
    with Cons.prems False have "(?f # gs, u) = (fs, r)" by (simp only: read_fields.simps Let_def if_False prod.case)
    with g0 have g: "read_fields ns (drop (length ?f) ?t) = (gs, r)" and fs: "fs = ?f # gs" by simp_all
    have "\<not> isspace_c (hd ?t)" using False by (rule hd_dropWhile)
    with False have "n \<noteq> 0 \<Longrightarrow> ?f \<noteq> []" by (cases ?t) auto
    then have "n \<noteq> 0 \<Longrightarrow> length (drop (length ?f) ?t) < length ?t" using False by simp
    moreover have "length (drop (length ?f) ?t) \<le> length ?t" by simp
    moreover have "length r \<le> length (drop (length ?f) ?t)" using Cons.IH [OF g] by blast
    ultimately have "length r \<le> length s" and "n \<noteq> 0 \<Longrightarrow> length r < length s" using l by linarith+
    then show ?thesis by auto
  qed
qed

lemma read_entry_rest:
  shows "read_entry s = Broken_entry r \<Longrightarrow> length r < length s" and "read_entry s = Entry a r \<Longrightarrow> length r < length s"
proof -
  obtain fs u where f: "read_fields [MAX_GROUP - 1, 10, 10, 1, 31] s = (fs, u)" by fastforce
  have l: "fs \<noteq> [] \<Longrightarrow> length u < length s" using read_fields_length [OF f] by (simp add: MAX_GROUP_def)
  have d: "fs \<noteq> [] \<Longrightarrow> length (drop k (dropWhile isspace_c u)) < length s" for k
    using l length_dropWhile_le [of isspace_c u] by simp
  show "read_entry s = Broken_entry r \<Longrightarrow> length r < length s"
    using l d unfolding read_entry_def f Let_def prod.case by (clarsimp split: if_splits)
  show "read_entry s = Entry a r \<Longrightarrow> length r < length s"
    using d unfolding read_entry_def f Let_def prod.case by (clarsimp split: if_splits)
qed

text \<open>The loop of \<open>loadactive\<close> over the text that is left, with the rows so far.\<close>

function active_loop :: "master_t \<Rightarrow> string \<Rightarrow> active_t list \<Rightarrow> active_t list outcome" where
  "active_loop m s gs =
     (case read_entry s of
        At_end \<Rightarrow> Ok gs
      | Broken_entry r \<Rightarrow> active_loop m r gs
      | Entry a r \<Rightarrow>
          if getserver (a_server a) m = None then Die ''Inconsistency detected''
          else if MAX_GROUPS \<le> length gs + 1 then Die ''Too many newsgroups''
          else active_loop m r (gs @ [a\<lparr>a_id := length gs\<rparr>]))"
  by pat_completeness auto
termination
  by (relation "measure (\<lambda>(m, s, gs). length s)") (simp_all add: read_entry_rest)

declare active_loop.simps [simp del]

definition clearactive :: "master_t \<Rightarrow> master_t" where
  "clearactive m = m\<lparr>m_active := []\<rparr>"

definition loadactive :: "files \<Rightarrow> cfg_t \<Rightarrow> int \<Rightarrow> master_t \<Rightarrow> master_t outcome" where
  "loadactive fs cf mtime m =
     (case fs (cf_ActiveFile cf) of
        None \<Rightarrow> Die ''Can't open active file''
      | Some ls \<Rightarrow>
          obind (active_loop m (concat ls) []) (\<lambda>gs. Ok (m\<lparr>m_active := gs, m_laststatactive := mtime\<rparr>)))"

definition reloadactive :: "files \<Rightarrow> cfg_t \<Rightarrow> int \<Rightarrow> master_t \<Rightarrow> master_t outcome" where
  "reloadactive fs cf mtime m =
     (if m_laststatactive m < mtime then loadactive fs cf mtime (clearactive m) else Ok m)"

section \<open>Search\<close>

definition cmp_getgroup :: "active_t \<Rightarrow> active_t \<Rightarrow> int" where
  "cmp_getgroup a b = strcmp (a_newsgroup a) (a_newsgroup b)"

text \<open>\<open>bsearch\<close> of the C library over the positions from \<open>l\<close> up to \<open>u\<close>.\<close>

function bsearch :: "(nat \<Rightarrow> int) \<Rightarrow> nat \<Rightarrow> nat \<Rightarrow> nat option" where
  "bsearch cmp l u =
     (if l < u
      then let i = (l + u) div 2 in
           if cmp i < 0 then bsearch cmp l i
           else if 0 < cmp i then bsearch cmp (i + 1) u
           else Some i
      else None)"
  by pat_completeness auto
termination
  by (relation "measure (\<lambda>(cmp, l, u). u - l)") auto

declare bsearch.simps [simp del]

definition blank_active :: active_t where
  "blank_active = \<lparr>a_hi = 0, a_lo = 0, a_times = 0, a_id = 0, a_mode = NUL, a_newsgroup = [], a_server = []\<rparr>"

definition getgroup :: "string \<Rightarrow> master_t \<Rightarrow> nat option" where
  "getgroup groupname m =
     (let key = blank_active\<lparr>a_newsgroup := take MAX_GROUP groupname\<rparr> in
      bsearch (\<lambda>i. cmp_getgroup key (m_active m ! i)) 0 (length (m_active m)))"

section \<open>Overview format\<close>

definition MAX_OVERVIEWFMT :: nat where "MAX_OVERVIEWFMT = 16"

text \<open>The strings that \<open>fgets\<close> reads from a file with room for \<open>n\<close> characters and the null.\<close>

function fgets_all :: "nat \<Rightarrow> string \<Rightarrow> string list" where
  "fgets_all n s =
     (if s = [] \<or> n = 0 then []
      else let l = takeWhile (\<lambda>c. c \<noteq> LF) (take n s); k = (if length l < n \<and> length l < length s then length l + 1 else length l) in
           cstr (take k s) # fgets_all n (drop k s))"
  by auto
termination
proof (relation "measure (\<lambda>(n, s). length s)", simp)
  fix n :: nat and s l :: string and k :: nat
  assume a: "\<not> (s = [] \<or> n = 0)" and l: "l = takeWhile (\<lambda>c. c \<noteq> LF) (take n s)"
    and k: "k = (if length l < n \<and> length l < length s then length l + 1 else length l)"
  have "0 < length s" "0 < n" using a by auto
  then have "0 < k" using k by auto
  with \<open>0 < length s\<close> show "((n, drop k s), (n, s)) \<in> measure (\<lambda>(n, s). length s)" by simp
qed

declare fgets_all.simps [simp del]

definition loadoverviewfmt :: "files \<Rightarrow> cfg_t \<Rightarrow> string list outcome" where
  \<comment> \<open>the array holds the lines and a null pointer; nothing checks that they fit\<close>
  "loadoverviewfmt fs cf =
     (case fs (cf_OverviewFmtFile cf) of
        None \<Rightarrow> Die ''Can't open''
      | Some ls \<Rightarrow>
          let hs = fgets_all 127 (concat ls) in if length hs < MAX_OVERVIEWFMT then Ok hs else Undef)"

definition isinoverviewfmt :: "string \<Rightarrow> string list \<Rightarrow> bool" where
  "isinoverviewfmt hdr fmt \<longleftrightarrow> (\<exists>l \<in> set fmt. strncaseeq hdr l (length hdr))"

primrec write_lines :: "string list \<Rightarrow> unit io" where
  "write_lines [] = ret ()"
| "write_lines (l # ls) = thn (swriteclient l) (write_lines ls)"

definition listoverviewfmt :: "int io" where
  "listoverviewfmt =
     thn (swriteclient ''215 Overview.fmt follows'')
     (bnd (asks w_overview) (\<lambda>ls. thn (write_lines ls) (thn (swriteclient ''.'') (ret 0))))"

section \<open>Listings\<close>

text \<open>Whether the read pattern of the session's user lets it see a group.\<close>

definition matches_pat :: "string \<Rightarrow> (user_t \<Rightarrow> string) \<Rightarrow> bool io" where
  "matches_pat s pat =
     bnd (asks (\<lambda>w. (w_m w, c_user (cl w)))) (\<lambda>(m, u).
     deref u (\<lambda>u. deref (getwildmat (Some (pat (m_users m ! u))) m) (\<lambda>p.
     ret (match_expression s p False \<noteq> UFail))))"

definition active_line :: "active_t \<Rightarrow> string" where
  "active_line a = a_newsgroup a @ '' '' @ prec_str 10 (signed64 (a_hi a)) @ '' '' @ prec_str 10 (signed64 (a_lo a))
     @ '' '' @ [a_mode a]"

primrec listactive_loop :: "active_t list \<Rightarrow> string \<Rightarrow> int io" where
  "listactive_loop [] pattern = swriteclient ''.''"
| "listactive_loop (a # as) pattern =
     bnd (matches_pat (a_newsgroup a) u_readpat) (\<lambda>seen.
     if seen \<and> uwildmat_simple (a_newsgroup a) pattern
     then bnd (writeclient (active_line a)) (\<lambda>r. if r \<noteq> 0 then ret (- 1) else listactive_loop as pattern)
     else listactive_loop as pattern)"

definition listactive :: "string \<Rightarrow> int io" where
  "listactive pattern =
     thn (swriteclient ''215 Active file follows'')
     (bnd (asks (\<lambda>w. m_active (w_m w))) (\<lambda>as. listactive_loop as pattern))"

primrec times_loop :: "active_t list \<Rightarrow> int io" where
  "times_loop [] = swriteclient ''.''"
| "times_loop (a # as) =
     (if 0 < a_times a
      then bnd (writeclient (a_newsgroup a @ '' '' @ int_str (signed64 (a_times a)) @ '' usenet''))
             (\<lambda>r. if r \<noteq> 0 then ret (- 1) else times_loop as)
      else times_loop as)"

definition listactivetimes :: "int io" where
  "listactivetimes =
     thn (swriteclient ''215 Active.times follows'') (bnd (asks (\<lambda>w. m_active (w_m w))) times_loop)"

primrec file_loop :: "string list \<Rightarrow> string \<Rightarrow> int io" where
  "file_loop [] pattern = thn (swriteclient ''.'') (ret 0)"
| "file_loop (l # ls) pattern =
     (if uwildmat_simple l pattern
      then bnd (swriteclient l) (\<lambda>r. if r \<noteq> 0 then ret (- 1) else file_loop ls pattern)
      else file_loop ls pattern)"

definition listfile :: "string \<Rightarrow> string \<Rightarrow> string \<Rightarrow> nat \<Rightarrow> nat \<Rightarrow> int io" where
  "listfile filename descr pattern okc failc =
     bnd (asks (\<lambda>w. e_fs (w_env w) filename)) (\<lambda>f.
       case f of
         None \<Rightarrow> writeclient (nat_str failc @ '' Error opening '' @ filename)
       | Some ls \<Rightarrow> thn (writeclient (nat_str okc @ '' '' @ descr)) (file_loop (fgets_all 510 (concat ls)) pattern))"

definition listnewsgroups :: "string \<Rightarrow> int io" where
  "listnewsgroups pattern =
     bnd (asks (\<lambda>w. cf_NewsgroupsFile (cfg w))) (\<lambda>f. listfile f ''Newsgroups follows'' pattern 215 503)"

definition listxgtitle :: "string \<Rightarrow> int io" where
  "listxgtitle pattern =
     bnd (asks (\<lambda>w. cf_NewsgroupsFile (cfg w))) (\<lambda>f. listfile f ''Newsgroups follows'' pattern 282 481)"

section \<open>New groups\<close>

definition newgroups_error :: "string \<Rightarrow> int io" where
  "newgroups_error e = thn (writeclient (''501 Wrong command use '' @ e)) (ret 1)"

text \<open>
  The date in 5 to 8 digits: the year as \<open>tm_year\<close>, which the branch for 7 digits leaves at 0, the
  month and the day; or the text of the complaint.
\<close>

definition scan_date :: "nat \<Rightarrow> string \<Rightarrow> (int \<times> int \<times> int) option" where
  "scan_date k d =
     (let fmt = [FInt (Some k), FInt (Some 2), FInt (Some 2)]; vs = sscanf fmt d in
      if sscanf_ret fmt d = 3 then Some (iv vs 0 0, iv vs 1 0, iv vs 2 0) else None)"

definition parse_since :: "string \<Rightarrow> string + int \<times> int \<times> int" where
  "parse_since d =
     (if length d = 8 then
        (case scan_date 4 d of None \<Rightarrow> Inl ''yyyymmdd'' | Some (y, m, md) \<Rightarrow> Inr (y - 1900, m, md))
      else if length d = 7 then
        (case scan_date 3 d of None \<Rightarrow> Inl ''yyymmdd'' | Some (y, m, md) \<Rightarrow> Inr (0, m, md))
      else if length d = 6 then
        (case scan_date 2 d of None \<Rightarrow> Inl ''yymmdd'' | Some (y, m, md) \<Rightarrow> Inr (if y < 70 then y + 100 else y, m, md))
      else if length d = 5 then
        (case scan_date 1 d of None \<Rightarrow> Inl ''ymmdd'' | Some (y, m, md) \<Rightarrow> Inr (y + 100, m, md))
      else Inl ''Couldn't parse date'')"

primrec newgroups_loop :: "active_t list \<Rightarrow> nat \<Rightarrow> int io" where
  "newgroups_loop [] since = swriteclient ''.''"
| "newgroups_loop (a # as) since =
     (if since \<le> a_times a
      then bnd (writeclient (active_line a)) (\<lambda>r. if r \<noteq> 0 then ret (- 1) else newgroups_loop as since)
      else newgroups_loop as since)"

definition newgroups :: "string \<Rightarrow> int io" where
  "newgroups args =
     (let fmt = [FStr (Some 8), FWs, FInt (Some 2), FInt (Some 2), FInt (Some 2)]; vs = sscanf fmt args in
      if sscanf_ret fmt args < 1 then newgroups_error ''yyyymmdd hhmmss''
      else case parse_since (sv vs 0 []) of
             Inl e \<Rightarrow> newgroups_error e
           | Inr (y, m, d) \<Rightarrow>
               bnd (asks (\<lambda>w. (e_mktime (w_env w) y (m - 1) d (iv vs 1 0) (iv vs 2 0) (iv vs 3 0), m_active (w_m w)))) (\<lambda>(t, as).
               thn (swriteclient ''231 List of newsgroups follow'')
                 (newgroups_loop as (u64 (signed_take_bit 31 t)))))"

section \<open>Frames\<close>

context quiet_frame
begin

lemma matches_pat [session_ops]: "keeps R (matches_pat s pat)"
  unfolding matches_pat_def by (intro rules)

lemma write_lines [session_ops]: "keeps R (write_lines ls)"
  by (induction ls) (simp_all, (intro rules session_ops | assumption)+)

lemma listactive_loop [session_ops]: "keeps R (listactive_loop as p)"
  by (induction as) (simp_all, (intro rules session_ops | assumption)+)

lemma times_loop [session_ops]: "keeps R (times_loop as)"
  by (induction as) (simp_all, (intro rules session_ops conjI impI | assumption)+)

lemma file_loop [session_ops]: "keeps R (file_loop ls p)"
  by (induction ls) (simp_all, (intro rules session_ops conjI impI | assumption)+)

lemma newgroups_loop [session_ops]: "keeps R (newgroups_loop as since)"
  by (induction as) (simp_all, (intro rules session_ops conjI impI | assumption)+)

lemma listings [session_ops]:
  "keeps R listoverviewfmt" "keeps R (listactive p)" "keeps R listactivetimes"
  "keeps R (listfile f d p a b)" "keeps R (newgroups_error e)"
  unfolding listoverviewfmt_def listactive_def listactivetimes_def listfile_def newgroups_error_def
  by (intro rules session_ops)+

lemma list_commands [session_ops]: "keeps R (listnewsgroups p)" "keeps R (listxgtitle p)" "keeps R (newgroups a)"
  unfolding listnewsgroups_def listxgtitle_def newgroups_def by (intro rules session_ops)+

end

section \<open>Properties\<close>

lemma bsearch_sound: "bsearch cmp l u = Some i \<Longrightarrow> l \<le> i \<and> i < u \<and> cmp i = 0"
proof (induction cmp l u rule: bsearch.induct)
  case (1 cmp l u)
  from "1.prems" have lu: "l < u" by (subst (asm) bsearch.simps) (simp split: if_splits)
  let ?i = "(l + u) div 2"
  consider "cmp ?i < 0" "bsearch cmp l ?i = Some i" | "0 < cmp ?i" "bsearch cmp (?i + 1) u = Some i" | "cmp ?i = 0" "i = ?i"
    using "1.prems" lu by (subst (asm) bsearch.simps) (auto simp: Let_def split: if_splits)
  then show ?case
  proof cases
    case 1
    with "1.IH"(1) [OF lu HOL.refl] lu show ?thesis by force
  next
    case 2
    with "1.IH"(2) [OF lu HOL.refl] lu show ?thesis by force
  next
    case 3
    with lu show ?thesis by auto
  qed
qed

lemma bsearch_complete:
  "l \<le> k \<Longrightarrow> k < u \<Longrightarrow> cmp k = 0 \<Longrightarrow> \<forall>i < k. 0 < cmp i \<Longrightarrow> \<forall>i. k < i \<and> i < u \<longrightarrow> cmp i < 0 \<Longrightarrow> bsearch cmp l u = Some k"
proof (induction cmp l u rule: bsearch.induct)
  case (1 cmp l u)
  let ?i = "(l + u) div 2"
  have lu: "l < u" and i: "l \<le> ?i" "?i < u" using "1.prems" by auto
  consider "?i < k" | "?i = k" | "k < ?i" by linarith
  then show ?case
  proof cases
    case 1
    then have "0 < cmp ?i" using "1.prems"(4) by blast
    moreover from this have "bsearch cmp (?i + 1) u = Some k"
      using "1.IH"(2) [OF lu HOL.refl] "1.prems" 1 by auto
    ultimately show ?thesis using lu by (subst bsearch.simps) (simp add: Let_def)
  next
    case 2
    with "1.prems"(3) lu show ?thesis by (subst bsearch.simps) (simp add: Let_def)
  next
    case 3
    then have "cmp ?i < 0" using "1.prems"(5) i by blast
    moreover from this have "bsearch cmp l ?i = Some k"
      using "1.IH"(1) [OF lu HOL.refl] "1.prems" 3 i by auto
    ultimately show ?thesis using lu by (subst bsearch.simps) (simp add: Let_def)
  qed
qed

lemma getgroup_sorted:
  assumes "sorted_wrt (<) (map a_newsgroup (m_active m))"
  shows "getgroup g m = find_index (\<lambda>a. a_newsgroup a = take MAX_GROUP g) (m_active m)"
proof -
  let ?as = "m_active m" and ?g = "take MAX_GROUP g"
  let ?cmp = "\<lambda>i. strcmp ?g (a_newsgroup (?as ! i))"
  have gg: "getgroup g m = bsearch ?cmp 0 (length ?as)" by (simp add: getgroup_def cmp_getgroup_def)
  have less: "i < j \<Longrightarrow> j < length ?as \<Longrightarrow> a_newsgroup (?as ! i) < a_newsgroup (?as ! j)" for i j
    using assms by (auto simp: sorted_wrt_iff_nth_less)
  show ?thesis
  proof (cases "find_index (\<lambda>a. a_newsgroup a = ?g) ?as")
    case (Some k)
    then have k: "k < length ?as" "a_newsgroup (?as ! k) = ?g" by (auto simp: find_index_Some)
    have "bsearch ?cmp 0 (length ?as) = Some k"
      using k less [of _ k] less [of k] by (intro bsearch_complete) (auto simp: strcmp_greater strcmp_less)
    with Some gg show ?thesis by simp
  next
    case None
    have "bsearch ?cmp 0 (length ?as) \<noteq> Some i" for i
      using bsearch_sound [of ?cmp 0 "length ?as" i] None by (auto simp: find_index_None)
    with None gg show ?thesis by (cases "bsearch ?cmp 0 (length ?as)") auto
  qed
qed

text \<open>C22: 
  On a table in strict order of the names, the bisection finds the one row of the name, cut to the
  length of the field, and nothing when there is none: it agrees with a search of all rows.
\<close>

theorem getgroup_correct:
  assumes "sorted_wrt (<) (map a_newsgroup (m_active m))"
  shows "getgroup g m = find_index (\<lambda>a. a_newsgroup a = take MAX_GROUP g) (m_active m)"
  using assms by (rule getgroup_sorted)

definition some_groups :: "active_t list" where
  "some_groups = map (\<lambda>n. blank_active\<lparr>a_newsgroup := n, a_server := ''news'', a_mode := CHR ''y''\<rparr>)
     [''alt.test'', ''comp.lang.c'', ''comp.lang.ml'', ''sci.math'']"

theorem getgroup_correct_witness:
  "getgroup ''comp.lang.ml'' (zero_master\<lparr>m_active := some_groups\<rparr>) = Some 2 \<and> getgroup ''comp'' (zero_master\<lparr>m_active := some_groups\<rparr>) = None"
proof -
  let ?m = "zero_master\<lparr>m_active := some_groups\<rparr>"
  have s: "sorted_wrt (<) (map a_newsgroup (m_active ?m))" by code_simp
  have f: "find_index (\<lambda>a. a_newsgroup a = take MAX_GROUP ''comp.lang.ml'') (m_active ?m) = Some 2"
    "find_index (\<lambda>a. a_newsgroup a = take MAX_GROUP ''comp'') (m_active ?m) = None" by code_simp+
  show ?thesis using getgroup_correct [OF s] f by simp
qed

end
