(* ===== verification/Updategroups.thy ===== *)
theory Updategroups
  imports Active
begin

text \<open>
  \<open>updategroups.c\<close>, the program that asks every backend server for its groups and writes the active
  file that \<open>active.c\<close> loads. The tables \<open>groups\<close> and \<open>descriptions\<close> are passed from step to step;
  the client structure of the program is slot 0 of the world. A read that fails calls
  \<open>set_errormsg\<close>, which follows the session pointer that this program leaves null.
\<close>

section \<open>The table of groups\<close>

definition MAX_CFGLINE :: nat where "MAX_CFGLINE = 16384"

text \<open>A length of 0 asks for all rows, also where no row is meant.\<close>

definition gg :: "string \<Rightarrow> nat \<Rightarrow> active_t list \<Rightarrow> nat option" where
  "gg groupname k gs =
     (let key = blank_active\<lparr>a_newsgroup := take MAX_GROUP groupname\<rparr>;
          n = (if k = 0 then length gs else k) in
      bsearch (\<lambda>i. cmp_getgroup key (gs ! i)) 0 n)"

definition sort_groups :: "active_t list \<Rightarrow> active_t list" where
  "sort_groups gs = sort_key a_newsgroup gs"

text \<open>
  One line of \<open>LIST active\<close>: \<open>ng\<close> rows were there before the list. The name is copied with a limit
  above the size of its field, but longer names were skipped before.
\<close>

definition active_line_step :: "string \<Rightarrow> nat \<Rightarrow> string \<Rightarrow> active_t list \<Rightarrow> active_t list outcome" where
  "active_line_step svr ng line gs =
     (let fmt = [FStr (Some 511), FWs, FStr (Some 10), FWs, FStr (Some 10), FWs, FStr (Some 2)]; vs = sscanf fmt line in
      if sscanf_ret fmt line \<noteq> 4 then Ok gs
      else let g = sv vs 0 [] in
           if MAX_GROUP \<le> length g then Ok gs
           else if gg g ng gs \<noteq> None then Ok gs
           else if length gs = MAX_GROUPS then Die ''Too many newsgroups''
           else Ok (gs @ [blank_active\<lparr>a_newsgroup := g, a_server := take 31 svr, a_hi := u64 (atol (sv vs 1 [])),
                      a_lo := u64 (atol (sv vs 2 [])), a_mode := hd (sv vs 3 [])\<rparr>]))"

definition times_line_step :: "string \<Rightarrow> active_t list \<Rightarrow> active_t list outcome" where
  "times_line_step line gs =
     (let fmt = [FStr (Some 511), FWs, FStr (Some 15), FWs, FStr (Some 255)]; vs = sscanf fmt line in
      if sscanf_ret fmt line \<noteq> 3 then Ok gs
      else case gg (sv vs 0 []) 0 gs of
             None \<Rightarrow> Ok gs
           | Some i \<Rightarrow> if a_times (gs ! i) = 0 then Ok (gs[i := (gs ! i)\<lparr>a_times := u64 (atol (sv vs 1 []))\<rparr>])
                       else Ok gs)"

section \<open>Descriptions\<close>

definition getdescr :: "string \<Rightarrow> nat \<Rightarrow> (string \<times> string) list \<Rightarrow> nat option" where
  "getdescr groupname k ds = find_index (\<lambda>d. fst d = groupname) (take k ds)"

fun occurs :: "string \<Rightarrow> string \<Rightarrow> bool" where
  \<comment> \<open>\<open>strstr (s, p) != NULL\<close>\<close>
  "occurs p [] = (p = [])"
| "occurs p (c # s) = (take (length p) (c # s) = p \<or> occurs p s)"

definition descr_line_step :: "nat \<Rightarrow> string \<Rightarrow> (string \<times> string) list \<Rightarrow> (string \<times> string) list outcome" where
  "descr_line_step nd line ds =
     (let fmt = [FStr (Some 510), FWs, FCls (\<lambda>c. \<not> eol c) (Some 510)]; vs = sscanf fmt line; d = sv vs 1 [] in
      if sscanf_ret fmt line = 2 \<and> hd d \<noteq> CHR ''?'' \<and> \<not> occurs ''Description'' d \<and> \<not> occurs ''description'' d
         \<and> getdescr (sv vs 0 []) nd ds = None
      then (if length ds < MAX_GROUPS then Ok (ds @ [(sv vs 0 [], d)]) else Undef)
      else Ok ds)"

section \<open>Talking to a server\<close>

definition uread :: "int \<Rightarrow> string option io" where
  "uread sock w =
     (if w_open w sock
      then (case getln (MAX_CFGLINE - 1) (w_in w sock) of
              (s, st, es) \<Rightarrow>
                (let w' = w\<lparr>w_in := (w_in w)(sock := es)\<rparr> in
                 if st = Bad then Some Undef
                 else if st = Eof \<and> s = [] then ret None w'
                 else ret (Some (cstr s)) w'))
      else Some Undef)"

definition udie :: "string \<Rightarrow> 'a io" where
  "udie s = lift_o (Die s)"

definition uwrite :: "int \<Rightarrow> string \<Rightarrow> unit io" where
  "uwrite sock s = bnd (write_socket sock s) (\<lambda>ok. if ok then ret () else udie ''Cant write to server'')"

text \<open>The lines of a list up to the lone dot, each given to \<open>step\<close>.\<close>

partial_function (option) list_loop ::
  "int \<Rightarrow> (string \<Rightarrow> 'a \<Rightarrow> 'a outcome) \<Rightarrow> 'a \<Rightarrow> world \<Rightarrow> ('a \<times> world) outcome option" where
  "list_loop sock step acc w =
     bnd (uread sock) (\<lambda>l.
       case l of
         None \<Rightarrow> udie ''Cant read file''
       | Some l \<Rightarrow>
           if take 2 l = [CHR ''.'', CR] then ret acc
           else bnd (lift_o (step l acc)) (\<lambda>acc'. list_loop sock step acc')) w"

declare list_loop.simps [code]

definition ask_list :: "int \<Rightarrow> string \<Rightarrow> (string \<Rightarrow> 'a \<Rightarrow> 'a outcome) \<Rightarrow> 'a \<Rightarrow> 'a io" where
  \<comment> \<open>the command, its answer and the list\<close>
  "ask_list sock command step acc =
     thn (uwrite sock (command @ CRLF))
     (bnd (uread sock) (\<lambda>r.
      case r of
        None \<Rightarrow> udie ''Cant read response''
      | Some r \<Rightarrow> if atoi r \<noteq> 215 then udie ''Invalid response from server'' else list_loop sock step acc))"

definition getlist_active :: "string \<Rightarrow> int \<Rightarrow> string \<Rightarrow> active_t list \<Rightarrow> active_t list io" where
  "getlist_active svr sock glist gs =
     thn (uwrite sock (''MODE READER'' @ CRLF))
     (bnd (uread sock) (\<lambda>r.
      if r = None then udie ''Cant read mode reader response''
      else bnd (ask_list sock (''LIST active '' @ glist) (active_line_step svr (length gs)) gs) (\<lambda>gs'. ret (sort_groups gs'))))"

definition getlist_activetimes :: "int \<Rightarrow> active_t list \<Rightarrow> active_t list io" where
  "getlist_activetimes sock gs = ask_list sock ''LIST active.times'' times_line_step gs"

definition getlist_newsgroups :: "int \<Rightarrow> string \<Rightarrow> (string \<times> string) list \<Rightarrow> (string \<times> string) list io" where
  "getlist_newsgroups sock glist ds = ask_list sock (''LIST newsgroups '' @ glist) (descr_line_step (length ds)) ds"

type_synonym tables = "active_t list \<times> (string \<times> string) list"

definition get_lists :: "server_t \<Rightarrow> int \<Rightarrow> string \<Rightarrow> tables \<Rightarrow> tables io" where
  "get_lists srv sock glist t =
     bnd (getlist_active (s_Name srv) sock glist (fst t)) (\<lambda>gs.
     bnd (if s_Descriptions srv then getlist_newsgroups sock glist (snd t) else ret (snd t)) (\<lambda>ds. ret (gs, ds)))"

primrec get_split :: "server_t \<Rightarrow> int \<Rightarrow> string list \<Rightarrow> tables \<Rightarrow> tables io" where
  "get_split srv sock [] t = ret t"
| "get_split srv sock (p # ps) t = bnd (get_lists srv sock p t) (get_split srv sock ps)"

definition update_server_groups :: "nat \<Rightarrow> tables \<Rightarrow> tables io" where
  \<comment> \<open>\<open>update_server\<close>\<close>
  "update_server_groups s t =
     bnd (asks (\<lambda>w. s_Name (m_servers (w_m w) ! s))) (\<lambda>name.
     bnd (connect_groupserver name) (\<lambda>r.
     if r \<noteq> CONNECT_OK then udie ''Failed to connect to server''
     else bnd (asks cl) (\<lambda>c. deref (c_groupserver c) (\<lambda>g.
       bnd (asks (\<lambda>w. m_servers (w_m w) ! g)) (\<lambda>srv.
       let sock = c_serversock c in
       bnd (if s_SplitList srv
            then (case strtok '','' (s_Groups srv) of [] \<Rightarrow> crash | ps \<Rightarrow> get_split srv sock ps t)
            else get_lists srv sock (s_Groups srv) t) (\<lambda>(gs, ds).
       bnd (if s_ActiveTimes srv then getlist_activetimes sock gs else ret gs) (\<lambda>gs'.
       thn (uwrite sock (''QUIT'' @ CRLF))
       (thn (upd_cl (\<lambda>c. c\<lparr>c_connected := False\<rparr>))
       (thn (close_fd sock) (ret (gs', ds)))))))))))"

text \<open>The loop of \<open>main\<close> from the last server down: one server of every level.\<close>

primrec update_levels :: "nat list \<Rightarrow> int \<Rightarrow> tables \<Rightarrow> tables io" where
  "update_levels [] cur t = ret t"
| "update_levels (s # ss) cur t =
     bnd (asks (\<lambda>w. int (level_of (w_m w) s))) (\<lambda>lv.
     if lv \<noteq> cur then bnd (update_server_groups s t) (update_levels ss lv)
     else update_levels ss cur t)"

section \<open>Writing the files\<close>

definition entry_line :: "active_t \<Rightarrow> string" where
  "entry_line a = a_newsgroup a @ '' '' @ prec_str 10 (signed64 (a_hi a)) @ '' '' @ prec_str 10 (signed64 (a_lo a)) @ '' ''
     @ [a_mode a] @ '' '' @ a_server a @ '' '' @ int_str (signed64 (a_times a)) @ [LF]"

definition write_active :: "active_t list \<Rightarrow> string list" where
  "write_active gs = map entry_line (sort_groups gs)"

definition write_newsgroups :: "(string \<times> string) list \<Rightarrow> string list" where
  "write_newsgroups ds = map (\<lambda>(g, d). g @ '' '' @ d @ [LF]) ds"

definition update_main :: "(string list \<times> string list) io" where
  "update_main =
     bnd (asks (\<lambda>w. rev (take (length (m_servers (w_m w)) - 1) (m_lservers (w_m w))))) (\<lambda>ss.
     bnd (update_levels ss (- 1) ([], [])) (\<lambda>(gs, ds). ret (write_active gs, write_newsgroups ds)))"

section \<open>What is written is what is read\<close>

definition entry_ok :: "master_t \<Rightarrow> active_t \<Rightarrow> bool" where
  "entry_ok m a \<longleftrightarrow> a_newsgroup a \<noteq> [] \<and> (\<forall>c \<in> set (a_newsgroup a). \<not> isspace_c c) \<and> length (a_newsgroup a) < MAX_GROUP
     \<and> a_hi a < 10 ^ 10 \<and> a_lo a < 10 ^ 10 \<and> a_times a < 2 ^ 31 \<and> \<not> isspace_c (a_mode a)
     \<and> a_server a \<noteq> [] \<and> (\<forall>c \<in> set (a_server a). \<not> isspace_c c) \<and> length (a_server a) \<le> 31 \<and> getserver (a_server a) m \<noteq> None"

lemma read_fields_space: "isspace_c c \<Longrightarrow> read_fields (n # ns) (c # s) = read_fields (n # ns) s"
  by simp

lemma read_fields_word:
  assumes "w \<noteq> []" and "\<forall>c \<in> set w. \<not> isspace_c c" and "length w \<le> n" and "isspace_c c"
  shows "read_fields (n # ns) (w @ c # s) = (w # fst (read_fields ns (c # s)), snd (read_fields ns (c # s)))"
proof -
  have d: "dropWhile isspace_c (w @ c # s) = w @ c # s" using assms(1,2) by (cases w) auto
  have t: "takeWhile (\<lambda>c. \<not> isspace_c c) (w @ c # s) = w" using assms(2,4) by (intro takeWhile_word) auto
  show ?thesis using assms(1,3) by (simp add: d t del: dropWhile.simps takeWhile.simps split: prod.split)
qed

lemma signed64_small: "n < 2 ^ 63 \<Longrightarrow> signed64 n = int n"
  by (simp add: signed64_def signed_take_bit_int_eq_self)

lemma prec_digits:
  assumes "n < 10 ^ 10"
  shows "\<forall>c \<in> set (prec_str 10 (signed64 n)). \<not> isspace_c c" and "prec_str 10 (signed64 n) \<noteq> []"
    and "length (prec_str 10 (signed64 n)) = 10" and "u64 (atol (prec_str 10 (signed64 n))) = n"
proof -
  have s: "prec_str 10 (signed64 n) = pad0 10 (nat_str n)" using assms by (simp add: prec_str_def signed64_small)
  show "\<forall>c \<in> set (prec_str 10 (signed64 n)). \<not> isspace_c c" "prec_str 10 (signed64 n) \<noteq> []"
    unfolding s using pad0_digits isdigit_not_space by auto
  show "length (prec_str 10 (signed64 n)) = 10" unfolding s using nat_str_length [of 10 n] assms by (simp add: pad0_def)
  show "u64 (atol (prec_str 10 (signed64 n))) = n" unfolding s using assms by (simp add: atol_pad0 u64_def)
qed

lemma times_token:
  assumes "n < 2 ^ 31"
  shows "int_token (int_str (signed64 n) @ LF # s) = int_str (signed64 n)"
    and "u32 (atoi (int_str (signed64 n))) = n" and "\<exists>c \<in> set (int_str (signed64 n)). isdigit_c c"
    and "dropWhile isspace_c (SP # int_str (signed64 n) @ LF # s) = int_str (signed64 n) @ LF # s"
proof -
  have s: "int_str (signed64 n) = nat_str n" using assms by (simp add: int_str_def signed64_small)
  show "int_token (int_str (signed64 n) @ LF # s) = int_str (signed64 n)" unfolding s
    using nat_str_digits by (intro int_token_digits) (auto simp: isdigit_c_def code_def)
  have "atoi (nat_str n) = int n" using assms by (simp add: atoi_def atol_nat_str signed_take_bit_int_eq_self)
  then show "u32 (atoi (int_str (signed64 n))) = n" unfolding s using assms by (simp add: u32_def)
  have h: "isdigit_c (hd (nat_str n))" using nat_str_digits [of n] hd_in_set [of "nat_str n"] by simp
  then show "\<exists>c \<in> set (int_str (signed64 n)). isdigit_c c" unfolding s by (intro bexI [of _ "hd (nat_str n)"]) simp_all
  have "isspace_c SP" by (simp add: isspace_c_def)
  then show "dropWhile isspace_c (SP # int_str (signed64 n) @ LF # s) = int_str (signed64 n) @ LF # s"
    unfolding s using isdigit_not_space [OF h] by (cases "nat_str n") auto
qed

lemma read_entry_line:
  assumes "entry_ok m a"
  shows "read_entry (entry_line a @ s) = Entry (a\<lparr>a_id := 0\<rparr>) (LF # s)"
proof -
  have sp: "isspace_c SP" by (simp add: isspace_c_def)
  note o = assms [unfolded entry_ok_def]
  let ?hi = "prec_str 10 (signed64 (a_hi a))" and ?lo = "prec_str 10 (signed64 (a_lo a))"
    and ?r = "int_str (signed64 (a_times a)) @ LF # s"
  note word = read_fields_word [OF _ _ _ sp] and space = read_fields_space [OF sp]
  have e5: "read_fields [31] (a_server a @ SP # ?r) = ([a_server a], SP # ?r)"
    using o word [of "a_server a" 31 "[]" ?r] by simp
  have e4: "read_fields [1, 31] ([a_mode a] @ SP # a_server a @ SP # ?r) = ([[a_mode a], a_server a], SP # ?r)"
    using o word [of "[a_mode a]" 1 "[31]" "a_server a @ SP # ?r"] by (simp only: space e5) simp
  have e3: "read_fields [10, 1, 31] (?lo @ SP # [a_mode a] @ SP # a_server a @ SP # ?r) = ([?lo, [a_mode a], a_server a], SP # ?r)"
    using prec_digits [of "a_lo a"] o word [of ?lo 10 "[1, 31]" "[a_mode a] @ SP # a_server a @ SP # ?r"]
    by (simp only: space e4) simp
  have e2: "read_fields [10, 10, 1, 31] (?hi @ SP # ?lo @ SP # [a_mode a] @ SP # a_server a @ SP # ?r) =
      ([?hi, ?lo, [a_mode a], a_server a], SP # ?r)"
    using prec_digits [of "a_hi a"] o word [of ?hi 10 "[10, 1, 31]" "?lo @ SP # [a_mode a] @ SP # a_server a @ SP # ?r"]
    by (simp only: space e3) simp
  from o have g: "a_newsgroup a \<noteq> []" "\<forall>c \<in> set (a_newsgroup a). \<not> isspace_c c" "length (a_newsgroup a) \<le> MAX_GROUP - 1"
    by auto
  have "read_fields [MAX_GROUP - 1, 10, 10, 1, 31]
      (a_newsgroup a @ SP # ?hi @ SP # ?lo @ SP # [a_mode a] @ SP # a_server a @ SP # ?r) =
      ([a_newsgroup a, ?hi, ?lo, [a_mode a], a_server a], SP # ?r)"
    using g word [of "a_newsgroup a" "MAX_GROUP - 1" "[10, 10, 1, 31]" "?hi @ SP # ?lo @ SP # [a_mode a] @ SP # a_server a @ SP # ?r"]
    by (simp only: space e2) simp
  then have "read_fields [MAX_GROUP - 1, 10, 10, 1, 31] (entry_line a @ s) = ([a_newsgroup a, ?hi, ?lo, [a_mode a], a_server a], SP # ?r)"
    by (simp add: entry_line_def)
  then show ?thesis using o times_token [of "a_times a"] prec_digits [of "a_hi a"] prec_digits [of "a_lo a"]
    unfolding read_entry_def Let_def by simp
qed

definition numbered :: "active_t list \<Rightarrow> active_t list" where
  "numbered gs = map (\<lambda>(i, a). a\<lparr>a_id := i\<rparr>) (enumerate 0 gs)"

lemma active_loop_space: "isspace_c c \<Longrightarrow> active_loop m (c # s) gs = active_loop m s gs"
  by (subst (1 2) active_loop.simps) (simp add: read_entry_def)

lemma active_loop_lines:
  "\<forall>a \<in> set as. entry_ok m a \<Longrightarrow> length gs + length as < MAX_GROUPS \<Longrightarrow>
   active_loop m (concat (map entry_line as)) gs = Ok (gs @ map (\<lambda>(i, a). a\<lparr>a_id := i\<rparr>) (enumerate (length gs) as))"
proof (induction as arbitrary: gs)
  case Nil
  have "read_entry [] = At_end" by (simp add: read_entry_def)
  then show ?case by (subst active_loop.simps) simp
next
  case (Cons a as)
  have nl: "isspace_c LF" by (simp add: isspace_c_def code_def)
  obtain i where "getserver (a_server a) m = Some i" using Cons.prems(1) by (auto simp: entry_ok_def)
  then have "active_loop m (concat (map entry_line (a # as))) gs =
      active_loop m (concat (map entry_line as)) (gs @ [a\<lparr>a_id := length gs\<rparr>])"
    using Cons.prems by (subst active_loop.simps) (simp add: read_entry_line [of m a] active_loop_space [OF nl])
  also have "\<dots> = Ok ((gs @ [a\<lparr>a_id := length gs\<rparr>]) @ map (\<lambda>(i, a). a\<lparr>a_id := i\<rparr>) (enumerate (length (gs @ [a\<lparr>a_id := length gs\<rparr>])) as))"
    using Cons.prems by (intro Cons.IH) auto
  finally show ?case by simp
qed

lemma numbered_names: "map a_newsgroup (numbered gs) = map a_newsgroup gs"
  by (rule nth_equalityI) (simp_all add: numbered_def nth_enumerate_eq)

lemma strict_order: "sorted (map f xs) \<Longrightarrow> distinct (map f xs) \<Longrightarrow> sorted_wrt (<) (map f xs)"
  by (simp add: strict_sorted_iff)

text \<open>C12: 
  A table that is written and loaded comes back in the order of the names, each row as it was with
  its number in the order; and then the search of the switch finds each of the groups. The rows are
  those the fields of the file can hold.
\<close>

theorem active_file_roundtrip:
  assumes "\<forall>a \<in> set gs. entry_ok m a" and "distinct (map a_newsgroup gs)" and "length gs < MAX_GROUPS"
    and "fs (cf_ActiveFile cf) = Some (write_active gs)"
  shows "\<exists>m'. loadactive fs cf mtime m = Ok m' \<and> m_active m' = numbered (sort_groups gs)
    \<and> (\<forall>a \<in> set gs. \<exists>i. getgroup (a_newsgroup a) m' = Some i \<and> m_active m' ! i = a\<lparr>a_id := i\<rparr>)"
proof -
  let ?gs = "sort_groups gs" and ?m = "m\<lparr>m_active := numbered (sort_groups gs), m_laststatactive := mtime\<rparr>"
  have s: "set ?gs = set gs" "length ?gs = length gs" by (simp_all add: sort_groups_def)
  have "active_loop m (concat (write_active gs)) [] = Ok (numbered ?gs)"
    using active_loop_lines [of ?gs m "[]"] assms(1,3) s by (simp add: write_active_def numbered_def)
  then have l: "loadactive fs cf mtime m = Ok ?m" using assms(4) by (simp add: loadactive_def)
  have "distinct (map a_newsgroup ?gs)"
    using assms(2) by (simp add: sort_groups_def distinct_map)
  then have o: "sorted_wrt (<) (map a_newsgroup (m_active ?m))"
    by (intro strict_order) (simp_all add: numbered_names, simp add: sort_groups_def)
  have "\<exists>i. getgroup (a_newsgroup a) ?m = Some i \<and> m_active ?m ! i = a\<lparr>a_id := i\<rparr>" if a: "a \<in> set gs" for a
  proof -
    from a s obtain i where i: "i < length ?gs" "?gs ! i = a" by (metis in_set_conv_nth)
    have n: "map a_newsgroup (numbered ?gs) ! j = a_newsgroup (?gs ! j)" if "j < length ?gs" for j
      using that by (simp add: numbered_names)
    have len: "length (numbered ?gs) = length ?gs" by (simp add: numbered_def)
    have row: "numbered ?gs ! i = a\<lparr>a_id := i\<rparr>" using i by (simp add: numbered_def nth_enumerate_eq)
    have "take MAX_GROUP (a_newsgroup a) = a_newsgroup a" using assms(1) a by (auto simp: entry_ok_def intro: less_imp_le)
    moreover have "a_newsgroup (numbered ?gs ! j) \<noteq> a_newsgroup (numbered ?gs ! i)" if "j < i" for j
      using o that i n len by (force simp: sorted_wrt_iff_nth_less)
    then have "find_index (\<lambda>x. a_newsgroup x = a_newsgroup a) (numbered ?gs) = Some i"
      using i n len row by (auto simp: find_index_Some)
    ultimately have "getgroup (a_newsgroup a) ?m = Some i" using getgroup_sorted [OF o] by simp
    with row show ?thesis by auto
  qed
  with l show ?thesis by auto
qed

definition three_rows :: "active_t list" where
  "three_rows = map (\<lambda>(n, hi). blank_active\<lparr>a_newsgroup := n, a_server := ''news'', a_mode := CHR ''y'', a_hi := hi\<rparr>)
     [(''comp.lang.ml'', 120), (''sci.math'', 7), (''alt.test'', 9999)]"

theorem active_file_roundtrip_witness:
  "\<exists>m'. loadactive (\<lambda>f. if f = ''active'' then Some (write_active three_rows) else None) (quiet_cfg\<lparr>cf_ActiveFile := ''active''\<rparr>) 5 sample_master = Ok m'
     \<and> map a_newsgroup (m_active m') = [''alt.test'', ''comp.lang.ml'', ''sci.math''] \<and> getgroup ''sci.math'' m' = Some 2"
proof -
  let ?fs = "\<lambda>f. if f = ''active'' then Some (write_active three_rows) else None" and ?cf = "quiet_cfg\<lparr>cf_ActiveFile := ''active''\<rparr>"
  have ok: "\<forall>a \<in> set three_rows. entry_ok sample_master a" "distinct (map a_newsgroup three_rows)" by code_simp+
  have len: "length three_rows < MAX_GROUPS" by (simp add: three_rows_def MAX_GROUPS_def)
  have f: "?fs (cf_ActiveFile ?cf) = Some (write_active three_rows)" by simp
  obtain m' where m': "loadactive ?fs ?cf 5 sample_master = Ok m'" "m_active m' = numbered (sort_groups three_rows)"
    using active_file_roundtrip [where fs = ?fs and cf = ?cf and mtime = 5, OF ok len f] by blast
  have n: "map a_newsgroup (numbered (sort_groups three_rows)) = [''alt.test'', ''comp.lang.ml'', ''sci.math'']"
    "find_index (\<lambda>a. a_newsgroup a = take MAX_GROUP ''sci.math'') (numbered (sort_groups three_rows)) = Some 2"
    "sorted_wrt (<) (map a_newsgroup (numbered (sort_groups three_rows)))" by code_simp+
  then have "getgroup ''sci.math'' m' = Some 2" using m'(2) by (simp add: getgroup_sorted)
  with m' n show ?thesis by auto
qed

end
