(* ===== verification/Auth.thy ===== *)
theory Auth
  imports Socket Prefixmap
begin

text \<open>
  Logging in and the end of a session: \<open>auth.c\<close>, \<open>semaphore.c\<close>, the lookups of a profile by address
  in \<open>auth/prefixmap.c\<close>, the account sharing requests of \<open>auth/nnd_http_auth.c\<close>, the access list of
  the web service in \<open>auth/acl_json.c\<close>, \<open>cmdauthinfo\<close> of \<open>reader.c\<close> and \<open>close_child\<close> of
  \<open>client.c\<close>. The authenticator modules and the web services are parameters of the world. The
  semaphore makes the code between \<open>semlock_lock\<close> and \<open>semlock_unlock\<close> one step of the shared
  memory; what it does to the memory itself is to count. The memory an authenticator result takes and
  gives back is not modelled.
\<close>

section \<open>The semaphore\<close>

definition semlock_lock :: "unit io" where
  "semlock_lock = upd_m (\<lambda>m. m\<lparr>m_nrlocks := add64 (m_nrlocks m) 1\<rparr>)"

definition semlock_unlock :: "unit io" where
  "semlock_unlock = upd_m (\<lambda>m. m\<lparr>m_nrunlocks := add64 (m_nrunlocks m) 1\<rparr>)"

section \<open>Profiles by address\<close>

definition prof_iplookup :: "nat \<Rightarrow> nat \<Rightarrow> master_t \<Rightarrow> nat option" where
  "prof_iplookup p a m =
     (case p_PrefixMap (m_profiles m ! p) of
        None \<Rightarrow> None
      | Some k \<Rightarrow> if pfx_iplookup a (m_pfxmaps m ! k) then None else p_FailProfile (m_profiles m ! p))"

text \<open>The lookup of a null name compares it with the first profile.\<close>

definition auth_iplookup :: "authres_t \<Rightarrow> master_t \<Rightarrow> authres_t outcome" where
  "auth_iplookup ar m =
     (case ar_profile ar of
        None \<Rightarrow> if m_profiles m = [] then Ok ar else Undef
      | Some n \<Rightarrow>
          (case getprofile n m of
             None \<Rightarrow> Ok ar
           | Some p \<Rightarrow>
               (case p_PrefixMap (m_profiles m ! p) of
                  None \<Rightarrow> Ok ar
                | Some k \<Rightarrow>
                    if pfx_iplookup (ar_in_addr ar) (m_pfxmaps m ! k) then Ok ar
                    else (case p_FailProfile (m_profiles m ! p) of
                            None \<Rightarrow> Undef
                          | Some f \<Rightarrow> Ok (ar\<lparr>ar_profile := Some (p_Name (m_profiles m ! f))\<rparr>)))))"

section \<open>Authenticator results\<close>

definition new_authresult :: "client_t \<Rightarrow> master_t \<Rightarrow> authres_t outcome" where
  "new_authresult c m =
     (case (c_auth c, c_acl c) of
        (Some a, Some l) \<Rightarrow>
          obind (strippat (c_username c) (au_mask (m_auths m ! a))) (\<lambda>s.
          Ok \<lparr>ar_username = c_username c, ar_password = c_password c, ar_username_s = s, ar_port = c_id c + 1,
               ar_hostname = c_hostname c, ar_in_addr = c_ip4addr c, ar_authenticated = False, ar_message = None,
               ar_profile = None, ar_posting = acl_post (m_acls m ! l), ar_bytes = 0, ar_userkbit = 0,
               ar_logname = None, ar_readpat = None, ar_postpat = None, ar_timeleft = 0\<rparr>)
      | _ \<Rightarrow> Undef)"

section \<open>The account sharing service\<close>

text \<open>
  The text of the answer goes to the caller's buffer of 2048 bytes from behind the mark \<open>ERR \<close> or
  \<open>OK \<close>, wherever the text ends. Any answer but an error counts as yes.
\<close>

definition text_from :: "nat \<Rightarrow> string \<Rightarrow> string outcome" where
  "text_from k s = (if length s < k then Undef else strcpy_to 2048 (drop k s))"

definition check_http_accountsharing :: "string \<Rightarrow> string \<Rightarrow> int \<Rightarrow> int \<Rightarrow> string \<Rightarrow> (bool \<times> string) io" where
  "check_http_accountsharing user host maxhost maxconn prf =
     bnd (asks (\<lambda>w. e_http (w_env w) (cf_AsLoginURL (cfg w))
            [e_escape (w_env w) user, host, int_str maxhost, int_str maxconn, int_str (e_pid (w_env w)), prf])) (\<lambda>r.
     case r of
       None \<Rightarrow> ret (True, [])
     | Some t \<Rightarrow>
         if chr_at t 0 = CHR ''E'' then bnd (lift_o (text_from 4 t)) (\<lambda>s. ret (False, s))
         else if chr_at t 0 = CHR ''O'' \<and> chr_at t 1 = CHR ''K'' then bnd (lift_o (text_from 3 t)) (\<lambda>s. ret (True, s))
         else bnd (lift_o (text_from 0 t)) (\<lambda>s. ret (True, s)))"

definition http_accountsharing_dropuser :: "string \<Rightarrow> string \<Rightarrow> bool io" where
  "http_accountsharing_dropuser user host =
     bnd (asks (\<lambda>w. e_http (w_env w) (cf_AsLogoutURL (cfg w)) [e_escape (w_env w) user, host, int_str (e_pid (w_env w))])) (\<lambda>r.
     ret (case r of None \<Rightarrow> False | Some t \<Rightarrow> chr_at t 0 = CHR ''O'' \<and> chr_at t 1 = CHR ''K''))"

section \<open>The access list of the web service\<close>

text \<open>
  The answer is nothing, or an entry whose profile is null when the service names none that is
  known. The flags are fields of one bit.
\<close>

definition gethttpacl :: "string \<Rightarrow> world \<Rightarrow> acl_t option outcome" where
  "gethttpacl ip w =
     (case e_http (w_env w) (cf_ACLURL (cfg w)) [ip] of
        None \<Rightarrow> Ok None
      | Some t \<Rightarrow>
          if chr_at t 0 \<noteq> CHR ''{'' then Ok None
          else let flag = (\<lambda>k. odd (e_json_int (w_env w) t k));
                   blank_acl = \<lparr>acl_start = 0, acl_end = 0, acl_size = 0, acl_profile = None, acl_read = False,
                     acl_post = False, acl_apost = False, acl_deny = False, acl_auth = False, acl_stats = False, acl_unlimit = False\<rparr> in
               case e_json_string (w_env w) t ''prf'' of
                 None \<Rightarrow> if m_profiles (w_m w) = [] then Ok (Some blank_acl) else Undef
               | Some n \<Rightarrow>
                   (case getprofile n (w_m w) of
                      None \<Rightarrow> Ok (Some blank_acl)
                    | Some p \<Rightarrow> Ok (Some (blank_acl\<lparr>acl_profile := Some p, acl_read := flag ''r'', acl_post := flag ''p'',
                        acl_apost := flag ''ap'', acl_deny := flag ''d'', acl_auth := flag ''a'', acl_stats := flag ''s'',
                        acl_unlimit := flag ''un''\<rparr>))))"

section \<open>The end of a session\<close>

definition MAX_USERPASS :: nat where "MAX_USERPASS = 64"

definition account :: "unit io" where
  \<comment> \<open>the record of the session that \<open>close_child\<close> gives to the accounting module\<close>
  "account =
     bnd (asks cl) (\<lambda>c.
     bnd (lift_o (if c_username c = [] then strcpy_to MAX_USERPASS (c_hostname c) else Ok (c_username c))) (\<lambda>usr.
     let lg = (if c_logname c = [] then usr else c_logname c) in
     thn (upd_cl (\<lambda>c. c\<lparr>c_username := usr, c_logname := lg\<rparr>))
     (deref (c_profile c) (\<lambda>p.
      bnd (asks (\<lambda>w. m_profiles (w_m w) ! p)) (\<lambda>pf. deref (p_Accounting pf) (\<lambda>a.
      bnd (asks (\<lambda>w. m_aliases (w_m w) ! a)) (\<lambda>al.
      thn (upd (\<lambda>w. if e_acct (w_env w) (al_lib al) then w\<lparr>w_acct := w_acct w @ [(al_lib al, al_args al, cl w)]\<rparr> else w))
      (deref (c_user c) (\<lambda>u.
       bnd (asks (\<lambda>w. (u_bytesleft (m_users (w_m w) ! u), cf_AccountingDelay (cfg w)))) (\<lambda>(left, d).
       if left < 0 then sleeping d else ret ()))))))))))"

definition end_child :: "bool \<Rightarrow> unit io" where
  \<comment> \<open>\<open>close_child\<close>\<close>
  "end_child doacct =
     thn (if doacct then account else ret ())
     (bnd (asks cl) (\<lambda>c. deref (c_profile c) (\<lambda>p.
      bnd (asks (\<lambda>w. m_profiles (w_m w) ! p)) (\<lambda>pf.
      thn (if (0 < p_ASMaxConns pf \<or> 0 < p_ASMaxHosts pf) \<and> c_authenticated c
           then bnd (http_accountsharing_dropuser (c_username c) (c_hostname c)) (\<lambda>_. ret ()) else ret ())
      (thn semlock_lock
      (thn (upd (\<lambda>w. w\<lparr>w_m := close_slot (w_me w) p (w_m w)\<rparr>)) semlock_unlock))))))"

section \<open>AUTHINFO\<close>

text \<open>
  The name and the password come in two commands. The words of a command that has not both of them are
  whatever the stack holds.
\<close>

definition authinfo_word :: "string \<Rightarrow> string \<Rightarrow> string \<Rightarrow> (client_t \<Rightarrow> client_t) option" where
  "authinfo_word sub arg suffix =
     (if strcaseeq sub ''user''
      then Some (\<lambda>c. c\<lparr>c_username := if suffix \<noteq> [] then take (MAX_USERPASS - 2) (arg @ ''@'' @ suffix)
                                 else take (MAX_USERPASS - 1) arg\<rparr>)
      else if strcaseeq sub ''pass'' then Some (\<lambda>c. c\<lparr>c_password := take (MAX_USERPASS - 1) arg\<rparr>)
      else None)"

text \<open>The profile of a user the authenticator has accepted, or none when it has to be rejected.\<close>

definition login_profile :: "authres_t \<Rightarrow> client_t \<Rightarrow> master_t \<Rightarrow> nat option outcome" where
  "login_profile ar c m =
     obind (case ar_profile ar of
              Some n \<Rightarrow> Ok (case find_user_profile (c_username c) m of Some p \<Rightarrow> Some p | None \<Rightarrow> getprofile n m)
            | None \<Rightarrow> (case c_auth c of None \<Rightarrow> Undef | Some a \<Rightarrow> Ok (Some (au_profile (m_auths m ! a))))) (\<lambda>r.
     Ok (map_option (\<lambda>p. case prof_iplookup p (c_ip4addr c) m of None \<Rightarrow> p | Some f \<Rightarrow> f) r))"

definition MSG_AUTH_ERR :: string where "MSG_AUTH_ERR = ''482 Authentication Temporarily Unavailable''"
definition MSG_AUTH_TWICE :: string where "MSG_AUTH_TWICE = ''281 You are already authenticated (please disconnect first)''"
definition MSG_AUTH_USERFULL :: string where "MSG_AUTH_USERFULL = ''482 Too many connections for your user (nntpswitch)''"
definition MSG_AUTH_TOOMANYCON :: string where "MSG_AUTH_TOOMANYCON = ''482 Too many connections in your class''"
definition MSG_AUTH_TOOMANYUSR :: string where "MSG_AUTH_TOOMANYUSR = ''482 Too many users in your class''"

definition unauth :: "unit io" where
  \<comment> \<open>\<open>client->authenticated--\<close>\<close>
  "unauth = upd_cl (\<lambda>c. c\<lparr>c_authenticated := False\<rparr>)"

definition drop_newuser :: "nat option \<Rightarrow> nat \<Rightarrow> unit io" where
  "drop_newuser nu p = deref nu (\<lambda>u. upd_m (\<lambda>m. drop_user (u_id (m_users m ! u)) p m))"

text \<open>The fields of the user and the session that a login sets, under the lock.\<close>

definition user_kbit :: "int \<Rightarrow> nat outcome" where
  "user_kbit k = (if 2 ^ 31 \<le> k * 1000 then Undef else Ok (u32 (cdiv (k * 1000) 8)))"

definition set_login :: "authres_t \<Rightarrow> nat option \<Rightarrow> nat option \<Rightarrow> bool \<Rightarrow> nat \<Rightarrow> unit io" where
  "set_login ar nu oldprf change p =
     thn (if change
          then deref oldprf (\<lambda>q. thn (upd_m (drop_profile_connection q))
            (thn (upd_cl (\<lambda>c. c\<lparr>c_profile := Some p\<rparr>))
                 (upd_m (update_profile p (\<lambda>r. r\<lparr>p_connections := uint_inc (p_connections r)\<rparr>)))))
          else ret ())
     (bnd (asks cl) (\<lambda>c. deref (c_user c) (\<lambda>u. deref oldprf (\<lambda>q.
      thn (upd_m (\<lambda>m. drop_user (u_id (m_users m ! u)) q m))
      (thn (upd_cl (\<lambda>c. c\<lparr>c_user := nu\<rparr>))
      (deref nu (\<lambda>n.
       thn (upd_m (update_user n (\<lambda>x. x\<lparr>u_bytesleft := signed_take_bit 63 (int (ar_bytes ar))\<rparr>)))
       (thn (upd_cl (\<lambda>c. c\<lparr>c_posting := ar_posting ar\<rparr>))
       (bnd (asks (\<lambda>w. p_MaxUserBPS (m_profiles (w_m w) ! p))) (\<lambda>def.
       bnd (lift_o (if 0 < ar_userkbit ar then user_kbit (ar_userkbit ar) else Ok def)) (\<lambda>bps.
       thn (upd_m (update_user n (\<lambda>x. x\<lparr>u_MaxUserBPS := bps,
              u_timeleft := if 0 < ar_timeleft ar then ar_timeleft ar else u_timeleft x\<rparr>)))
       (bnd (lift_o (case ar_readpat ar of None \<Rightarrow> Ok None | Some s \<Rightarrow> obind (strcpy_to MAX_STRING s) (\<lambda>s. Ok (Some s)))) (\<lambda>rp.
       bnd (lift_o (case ar_postpat ar of None \<Rightarrow> Ok None | Some s \<Rightarrow> obind (strcpy_to MAX_STRING s) (\<lambda>s. Ok (Some s)))) (\<lambda>pp.
       thn (upd_m (update_user n (\<lambda>x. x\<lparr>u_readpat := (case rp of None \<Rightarrow> u_readpat x | Some s \<Rightarrow> s),
              u_postpat := (case pp of None \<Rightarrow> u_postpat x | Some s \<Rightarrow> s)\<rparr>)))
       init_ratelimiter))))))))))))))"

text \<open>The login of an accepted user: nothing, or the value with which the command has returned early.\<close>

definition refuse :: "string \<Rightarrow> int option io" where
  "refuse msg = thn unauth (thn semlock_unlock (bnd (swriteclient msg) (\<lambda>r. ret (Some r))))"

definition take_user :: "string \<Rightarrow> nat \<Rightarrow> nat option io" where
  "take_user k p w =
     (case find_user k p (w_m w) of
        Ok (u, m) \<Rightarrow> Some (Ok (u, w\<lparr>w_m := m\<rparr>)) | Die s \<Rightarrow> Some (Die s) | Undef \<Rightarrow> Some Undef)"

definition shared_account :: "nat option \<Rightarrow> nat \<Rightarrow> int option io" where
  \<comment> \<open>the question to the account sharing service, asked without the lock\<close>
  "shared_account nu p =
     bnd (asks (\<lambda>w. (cl w, m_profiles (w_m w) ! p, cf_RetryDelay (cfg w)))) (\<lambda>(c, pf, d).
     if 0 < p_ASMaxConns pf \<or> 0 < p_ASMaxHosts pf
     then thn semlock_unlock
       (bnd (check_http_accountsharing (c_username c) (c_hostname c) (p_ASMaxHosts pf) (p_ASMaxConns pf) (p_Name pf)) (\<lambda>(ok, s).
        if ok then thn semlock_lock (ret None)
        else thn semlock_lock (thn unauth (thn (drop_newuser nu p) (thn semlock_unlock
          (thn (sleeping d) (bnd (writeclient (''482 '' @ s)) (\<lambda>r. ret (Some r)))))))))
     else ret None)"

definition login_user :: "authres_t \<Rightarrow> nat \<Rightarrow> bool \<Rightarrow> nat option \<Rightarrow> int option io" where
  "login_user ar p change oldprf =
     bnd (asks cl) (\<lambda>c.
     bnd (take_user (c_username c) p) (\<lambda>nu.
     bnd (asks (\<lambda>w. (m_users (w_m w), m_profiles (w_m w) ! p, cf_RetryDelay (cfg w)))) (\<lambda>(us, pf, d).
     if nu \<noteq> c_user c \<and> (case nu of None \<Rightarrow> False | Some u \<Rightarrow> u32 (p_MaxUserConcurrent pf) < u_connections (us ! u))
     then thn unauth (thn (drop_newuser nu p) (thn semlock_unlock (thn (sleeping d)
            (bnd (swriteclient MSG_AUTH_USERFULL) (\<lambda>r. ret (Some r))))))
     else bnd (shared_account nu p) (\<lambda>early.
       case early of
         Some r \<Rightarrow> ret (Some r)
       | None \<Rightarrow> thn (set_login ar nu oldprf change p) (thn semlock_unlock (ret None))))))"

definition auth_login :: "authres_t \<Rightarrow> int option io" where
  "auth_login ar =
     thn semlock_lock
     (thn (upd_cl (\<lambda>c. c\<lparr>c_authenticated := True\<rparr>))
     (bnd (lift_o (case ar_logname ar of None \<Rightarrow> Ok None | Some s \<Rightarrow> obind (strcpy_to MAX_USERPASS s) (\<lambda>s. Ok (Some s)))) (\<lambda>lg.
      thn (upd_cl (\<lambda>c. c\<lparr>c_logname := (case lg of None \<Rightarrow> c_logname c | Some s \<Rightarrow> s)\<rparr>))
      (bnd (asks (\<lambda>w. (cl w, w_m w))) (\<lambda>(c, m).
       bnd (lift_o (login_profile ar c m)) (\<lambda>r.
       case r of
         None \<Rightarrow> bnd (refuse MSG_AUTH_ERR) (\<lambda>_. ret (Some 0))
       | Some p \<Rightarrow>
           let pf = m_profiles m ! p; change = (c_profile c \<noteq> Some p) in
           if p_Disabled pf \<noteq> []
           then thn unauth (thn semlock_unlock (bnd (writeclient (''482 '' @ p_Disabled pf)) (\<lambda>r. ret (Some r))))
           else if change \<and> u32 (p_MaxConnections pf) < p_connections pf then refuse MSG_AUTH_TOOMANYCON
           else if change \<and> u32 (p_MaxUsers pf) < p_numusers pf then refuse MSG_AUTH_TOOMANYUSR
           else login_user ar p change (c_profile c)))))))"

definition authenticate :: "int io" where
  \<comment> \<open>\<open>cmdauthinfo\<close> from the lookup of the authenticator on\<close>
  "authenticate =
     thn (upd (\<lambda>w. set_cl (\<lambda>c. c\<lparr>c_auth := getauth (c_username c) (w_m w)\<rparr>) w))
     (bnd (asks (\<lambda>w. (cl w, w_m w, w_env w))) (\<lambda>(c, m, env).
      bnd (lift_o (new_authresult c m)) (\<lambda>ar.
      deref (c_auth c) (\<lambda>a.
      let al = m_aliases m ! au_auth (m_auths m ! a);
          clearpass = upd_cl (\<lambda>c. c\<lparr>c_password := []\<rparr>)
      in case e_auth env (al_lib al) of
           None \<Rightarrow> thn clearpass (bnd (swriteclient MSG_AUTH_ERR) (\<lambda>_. ret 0))
         | Some f \<Rightarrow>
             let ar' = f ar (al_args al) in
             thn clearpass
             (bnd (if ar_authenticated ar' then auth_login ar' else ret None) (\<lambda>r.
              case r of
                Some i \<Rightarrow> ret i
              | None \<Rightarrow> bnd (swriteclient (case ar_message ar' of None \<Rightarrow> MSG_AUTH_ERR | Some s \<Rightarrow> s)) (\<lambda>_. ret 0)))))))"

definition cmdauthinfo :: "string \<Rightarrow> int io" where
  "cmdauthinfo args =
     (let fmt = [FCls (\<lambda>c. \<not> (eol c \<or> blank c)) (Some 16), FWs, FCls (\<lambda>c. \<not> eol c) (Some 64)];
          sub = sv (sscanf fmt args) 0 []; arg = sv (sscanf fmt args) 1 [] in
      bnd (asks cl) (\<lambda>c.
      if c_authenticated c then swriteclient MSG_AUTH_TWICE
      else if sscanf_ret fmt args < 1 then crash
      else bnd (if strcaseeq sub ''user'' then deref (c_vhost c) (\<lambda>v. asks (\<lambda>w. v_AddSuffix (m_vhosts (w_m w) ! v))) else ret []) (\<lambda>suffix.
      case authinfo_word sub arg suffix of
        None \<Rightarrow> swriteclient ''501 Unsupported AUTHINFO command''
      | Some f \<Rightarrow>
          if sscanf_ret fmt args < 2 then crash
          else thn (upd_cl f)
            (bnd (asks cl) (\<lambda>c. if c_username c = [] \<or> c_password c = [] then swriteclient ''381 More Authentication Required''
             else authenticate)))))"

section \<open>Frames\<close>

lemma session_tables_users:
  "session_tables m (drop_user i p m)" "session_tables m (drop_profile_connection p m)"
  "find_user k p m = Ok (u, m') \<Longrightarrow> session_tables m m'"
  by (auto simp: session_tables_def drop_user_def drop_profile_connection_def update_profile_def Let_def find_user_def
      split: option.splits)

context quiet_frame
begin

lemma locks [session_ops]: "keeps R semlock_lock" "keeps R semlock_unlock"
  unfolding semlock_lock_def semlock_unlock_def upd_m_def
  by (intro upd_step table_step; simp add: session_tables_def)+

lemma users [session_ops]:
  "keeps R (upd_m (\<lambda>m. drop_user (f m) p m))" "keeps R (upd_m (drop_profile_connection p))" "keeps R (take_user k p)"
proof -
  show "keeps R (upd_m (\<lambda>m. drop_user (f m) p m))" "keeps R (upd_m (drop_profile_connection p))"
    unfolding upd_m_def by (intro upd_step table_step session_tables_users)+
  show "keeps R (take_user k p)" unfolding keeps_def take_user_def
    by (auto split: outcome.splits intro!: table_step dest: session_tables_users(3))
qed

lemma sharing [session_ops]: "keeps R (check_http_accountsharing u h a b p)" "keeps R (http_accountsharing_dropuser u h)"
  unfolding check_http_accountsharing_def http_accountsharing_dropuser_def by (intro rules session_ops)+

lemma unauth [session_ops]: "keeps R unauth" "keeps R (refuse msg)" "keeps R (drop_newuser nu p)"
  unfolding refuse_def unauth_def drop_newuser_def by (intro rules session_ops; simp)+

lemma login [session_ops]: "keeps R (set_login ar nu q b p)" "keeps R (shared_account nu p)"
  unfolding set_login_def shared_account_def by (intro rules session_ops; simp)+

lemma auth_login [session_ops]: "keeps R (login_user ar p b q)" "keeps R (auth_login ar)"
  unfolding auth_login_def login_user_def by (intro rules session_ops; simp)+

lemma authenticate [session_ops]: "keeps R authenticate"
  unfolding authenticate_def Let_def by (intro rules session_ops cl_step; simp)

lemma case_word:
  "keeps R m \<Longrightarrow> (\<And>f. (\<And>c. c_id (f c) = c_id c \<and> c_inuse (f c) = c_inuse c) \<Longrightarrow> keeps R (k f)) \<Longrightarrow>
   keeps R (case authinfo_word sub arg suffix of None \<Rightarrow> m | Some f \<Rightarrow> k f)"
  by (simp add: authinfo_word_def)

lemma cmdauthinfo [session_ops]: "keeps R (cmdauthinfo args)"
  unfolding cmdauthinfo_def by (intro case_word rules session_ops; simp)

lemma account [session_ops]: "keeps R account"
  unfolding account_def by (intro rules session_ops io_step; simp add: refl)

end

text \<open>The end of the process of a session frees its slot, and no other.\<close>

definition ended :: "world \<Rightarrow> world \<Rightarrow> bool" where
  "ended w w' \<longleftrightarrow> w_me w' = w_me w \<and> length (m_clients (w_m w')) = length (m_clients (w_m w))
     \<and> (in_slot w \<and> c_id (cl w) = w_me w \<longrightarrow>
          own_slot w w' \<and> m_connections (w_m w') = m_connections (w_m w) - 1 \<and> cl w' = zero_client)"

lemma ended_bnd: "keeps own_slot m \<Longrightarrow> keeps live m \<Longrightarrow> (\<And>a. keeps ended (f a)) \<Longrightarrow> keeps ended (bnd m f)"
proof (unfold keeps_def bnd_Ok, intro allI impI, elim exE conjE)
  fix w b w' a w1
  assume k: "\<forall>w a w'. m w = Some (Ok (a, w')) \<longrightarrow> own_slot w w'" "\<forall>w a w'. m w = Some (Ok (a, w')) \<longrightarrow> live w w'"
    and e: "\<And>a. \<forall>w b w'. f a w = Some (Ok (b, w')) \<longrightarrow> ended w w'"
    and m: "m w = Some (Ok (a, w1))" "f a w1 = Some (Ok (b, w'))"
  have l: "own_slot w w1" "live w w1" using k m(1) by blast+
  moreover have "ended w1 w'" using e m(2) by blast
  moreover have "own_slot w w'" if "own_slot w1 w'" using own.trans [OF l(1) that] .
  ultimately show "ended w w'" using live_in_slot [OF l(2)] by (auto simp: ended_def live_def)
qed

lemma ended_thn: "keeps own_slot m \<Longrightarrow> keeps live m \<Longrightarrow> keeps ended k \<Longrightarrow> keeps ended (thn m k)"
  unfolding thn_def by (rule ended_bnd)

lemma ended_rules: "keeps ended crash" "(\<And>x. keeps ended (f x)) \<Longrightarrow> keeps ended (deref p f)"
  by (simp_all add: keeps_def crash_def, cases p) (simp_all add: crash_def)

lemma close_slot_frees: "keeps ended (thn (upd (\<lambda>w. w\<lparr>w_m := close_slot (w_me w) p (w_m w)\<rparr>)) semlock_unlock)"
proof -
  let ?m = "\<lambda>w. close_slot (w_me w) p (w_m w)"
  define m1 where "m1 w = (case c_user (cl w) of None \<Rightarrow> drop_profile_connection p (w_m w) | Some u \<Rightarrow> drop_user u p (drop_profile_connection p (w_m w)))" for w
  have t: "session_tables (w_m w) (m1 w)" for w
    using session_tables_users(1) [of "drop_profile_connection p (w_m w)"] session_tables_users(2) [of "w_m w" p]
    unfolding m1_def by (cases "c_user (cl w)") (simp_all add: session_tables_def)
  have c: "?m w = (free_client (c_id (cl w)) (m1 w))\<lparr>m_connections := m_connections (m1 w) - 1\<rparr>" for w
    using session_tables_users(2) [of "w_m w" p]
    by (auto simp: close_slot_def Let_def m1_def cl_def free_client_def session_tables_def split: option.split)
  have "ended w (w\<lparr>w_m := (?m w)\<lparr>m_nrunlocks := n\<rparr>\<rparr>)" for w n
    using t [of w] by (auto simp: ended_def c free_client_def own_slot_def session_tables_def cl_def in_slot_def)
  then show ?thesis by (simp add: keeps_def run semlock_unlock_def)
qed

lemma end_child_frees: "keeps ended (end_child b)"
proof -
  have a: "keeps own_slot account" "keeps live account" by (rule own.account live.account)+
  show ?thesis unfolding end_child_def
    by (intro ended_thn ended_bnd ended_rules close_slot_frees; intro a own.rules live.rules session_ops)
qed

end
