(* ===== verification/Reader.thy ===== *)
theory Reader
  imports Auth Active
begin

text \<open>
  \<open>reader.c\<close>: the commands that read. A command is passed on to the backend of the session and its
  answer is passed back; selecting a group connects to the group's backend; an article named by its
  message-id is looked for on all backends.
\<close>

section \<open>Commands\<close>

datatype cmdnum = cmd_mode | cmd_slave | cmd_authinfo | cmd_list | cmd_xgtitle | cmd_group | cmd_listgroup
  | cmd_newgroups | cmd_over | cmd_xover | cmd_xzver | cmd_xhdr | cmd_xzhdr | cmd_xpat | cmd_newnews | cmd_stat
  | cmd_head | cmd_body | cmd_article | cmd_post | cmd_next | cmd_last | cmd_help | cmd_date | cmd_quit
  | cmd_statistics | cmd_ihave | cmd_http | cmd_unsupported

text \<open>The name is null in the last row of the table; the use counts are in the world.\<close>

record cmdinfo =
  ci_command :: "string option"
  ci_num :: cmdnum
  ci_auth :: bool
  ci_acct :: bool
  ci_limit :: bool

definition MSG_SERVER_DOWN :: string where "MSG_SERVER_DOWN = ''403 Remote Server Unavailable''"
definition MSG_NOSUCHGROUP :: string where "MSG_NOSUCHGROUP = ''411 No such group''"
definition MSG_ARTICLECANT :: string where "MSG_ARTICLECANT = ''430 Cant retrieve article, try joining a newsgroup first''"
definition MSG_ARTICLENOPERM :: string where "MSG_ARTICLENOPERM = ''430 Cant retrieve article, permission denied''"
definition MAX_SERVERRSP :: nat where "MAX_SERVERRSP = 512"

section \<open>Leaving a group and a backend\<close>

definition closegroup :: "unit io" where
  "closegroup =
     upd_cl (\<lambda>c. if c_group c \<noteq> None \<and> (0 < c_grouparts c \<or> 0 < c_groupbytes c)
                 then c\<lparr>c_grouparts := 0, c_groupbytes := 0\<rparr> else c)"

definition client_quit :: "unit io" where
  "client_quit = bnd (asks cl) (\<lambda>c. if c_connected c then thn closegroup disconnect_server else ret ())"

definition send_date :: "int io" where
  "send_date = bnd (asks (\<lambda>w. e_strftime (w_env w) ''%Y%m%d%H%M%S'' (now w))) (\<lambda>s. writeclient (''111 '' @ s @ CRLF))"

section \<open>Passing a command\<close>

definition server_down :: "int io" where
  "server_down = bnd (swriteclient MSG_SERVER_DOWN) (\<lambda>_. thn disconnect_server (ret 0))"

definition ask_server :: "string \<Rightarrow> string \<Rightarrow> string option io" where
  \<comment> \<open>the command and the first line of the answer\<close>
  "ask_server command args =
     bnd (writeserver (command @ '' '' @ args @ CRLF)) (\<lambda>ok. if ok then readserverline else ret None)"

text \<open>An article that is not there is asked for again; the log names the server and the group.\<close>

primrec retry_loop :: "nat \<Rightarrow> string \<Rightarrow> string \<Rightarrow> bool \<Rightarrow> string \<Rightarrow> string option io" where
  "retry_loop 0 command args art b = ret (Some b)"
| "retry_loop (Suc n) command args art b =
     (if art \<and> (atoi b = 423 \<or> atoi b = 430)
      then bnd (ask_server command args) (\<lambda>r.
        case r of
          None \<Rightarrow> ret None
        | Some b' \<Rightarrow>
            thn (if atoi b' < 400 then bnd (asks cl) (\<lambda>c. deref (c_groupserver c) (\<lambda>_. ret ())) else ret ())
            (retry_loop n command args art b'))
      else ret (Some b))"

definition pass_account :: "cmdinfo \<Rightarrow> nat \<Rightarrow> unit io" where
  "pass_account cmd n =
     thn (if ci_acct cmd
          then thn (upd_cl (\<lambda>c. c\<lparr>c_bytes := add64 (c_bytes c) n, c_rbytes := add64 (c_rbytes c) n\<rparr>))
            (bnd (asks cl) (\<lambda>c. deref (c_user c) (\<lambda>u.
             upd_m (update_user u (\<lambda>x. if 0 < u_bytesleft x then x\<lparr>u_bytesleft := u_bytesleft x - int n\<rparr> else x)))))
          else ret ())
     (upd_cl (\<lambda>c. c\<lparr>c_groupbytes := add64 (c_groupbytes c) n\<rparr>))"

text \<open>The answer up to the lone dot; nothing when the backend is gone.\<close>

partial_function (option) pass_loop :: "cmdinfo \<Rightarrow> string \<Rightarrow> world \<Rightarrow> (int option \<times> world) outcome option" where
  "pass_loop cmd chk w =
     bnd (asks cl) (\<lambda>c.
     if c_error c \<noteq> 0 then ret (Some 0)
     else bnd nreadserver (\<lambda>s.
       if s = [] then ret None
       else bnd (slwriteclient s (ci_limit cmd)) (\<lambda>r.
         if r \<noteq> 0 then ret (Some (- 1))
         else thn (pass_account cmd (length s))
           (if fst (checkbuf_isend chk s) then ret (Some 0) else pass_loop cmd (snd (checkbuf_isend chk s)))))) w"

declare pass_loop.simps [code]

definition pass_reply :: "cmdinfo \<Rightarrow> string \<Rightarrow> int option io" where
  \<comment> \<open>the first line is with the client: what follows it\<close>
  "pass_reply cmd b =
     (let r = atoi b in
      thn (if r = 0 then bnd (asks cl) (\<lambda>c. deref (c_currserver c) (\<lambda>_. ret ())) else ret ())
      (thn (bnd (asks (\<lambda>w. (cf_LogMissing (cfg w), c_group (cl w)))) (\<lambda>(lg, g).
            if r = 423 \<and> lg then deref g (\<lambda>_. ret ()) else ret ()))
      (if 399 < r then ret (Some 0) else pass_loop cmd checkbuf_init)))"

definition passcmd :: "string \<Rightarrow> string \<Rightarrow> cmdinfo \<Rightarrow> int io" where
  "passcmd command args cmd =
     bnd (asks (\<lambda>w. nat (cf_NoSuchArticleRetries (cfg w)))) (\<lambda>n.
     bnd (bnd (ask_server command args) (\<lambda>r.
          case r of
            None \<Rightarrow> ret None
          | Some b \<Rightarrow> retry_loop n command args (ci_num cmd = cmd_body \<or> ci_num cmd = cmd_article) b)) (\<lambda>r.
     case r of
       None \<Rightarrow> server_down
     | Some b \<Rightarrow>
         bnd (swriteclient b) (\<lambda>e.
         if e \<noteq> 0 then server_down
         else bnd (pass_reply cmd b) (\<lambda>q. case q of None \<Rightarrow> server_down | Some i \<Rightarrow> ret i))))"

section \<open>Selecting a group\<close>

definition select_group :: "string \<Rightarrow> bool \<Rightarrow> int io" where
  \<comment> \<open>the command for a group that is selected, and its answer\<close>
  "select_group g quiet =
     bnd (writeserver (''GROUP '' @ g @ CRLF)) (\<lambda>ok.
     if \<not> ok then ret (- 1)
     else bnd (readserver MAX_SERVERRSP (MAX_SERVERRSP - 1)) (\<lambda>b.
       case b of None \<Rightarrow> ret (- 1) | Some b \<Rightarrow> if quiet then ret 0 else swriteclient b))"

definition change_group :: "nat \<Rightarrow> string \<Rightarrow> bool \<Rightarrow> int io" where
  "change_group a g quiet =
     bnd (asks (\<lambda>w. (getserver (a_server (m_active (w_m w) ! a)) (w_m w), cl w, w_m w, cf_DownDelay (cfg w)))) (\<lambda>(s, c, m, d).
     case s of
       None \<Rightarrow> swriteclient ''500 Cant find server for group''
     | Some s \<Rightarrow>
         thn (case c_groupserver c of
                None \<Rightarrow> ret ()
              | Some o' \<Rightarrow> if c_connected c \<and> strcmp (s_Groups (m_servers m ! s)) (s_Groups (m_servers m ! o')) \<noteq> 0
                           then disconnect_server else ret ())
         (thn closegroup
         (thn (upd_cl (\<lambda>c. c\<lparr>c_group := Some a\<rparr>))
         (bnd (connect_groupserver (s_Name (m_servers m ! s))) (\<lambda>r.
          case r of
            CONNECT_ERR \<Rightarrow> swriteclient ''500 Error selecting server''
          | CONNECT_DOWN \<Rightarrow> thn (sleeping d) (writeclient (MSG_SERVER_DOWN @ CRLF))
          | CONNECT_OK \<Rightarrow>
              thn (upd_cl (\<lambda>c. c\<lparr>c_group := Some a, c_groups := uint_inc (c_groups c)\<rparr>)) (select_group g quiet))))))"

definition no_group :: "bool \<Rightarrow> int io" where
  "no_group quiet = (if quiet then ret 1 else bnd (swriteclient MSG_NOSUCHGROUP) (\<lambda>_. ret 1))"

definition group :: "string \<Rightarrow> bool \<Rightarrow> int io" where
  "group g quiet =
     (if g = [] then bnd (swriteclient ''500 You must select a group'') (\<lambda>_. ret 1)
      else bnd (asks (\<lambda>w. (cl w, w_m w))) (\<lambda>(c, m).
        if case c_group c of None \<Rightarrow> True | Some k \<Rightarrow> strcmp (a_newsgroup (m_active m ! k)) g \<noteq> 0
        then bnd (matches_pat g u_readpat) (\<lambda>ok.
             if \<not> ok then no_group quiet
             else case getgroup g m of None \<Rightarrow> no_group quiet | Some a \<Rightarrow> change_group a g quiet)
        else select_group g quiet))"

section \<open>Lists\<close>

definition into_bbuf :: "string \<Rightarrow> string io" where
  "into_bbuf s = bnd (asks (\<lambda>w. cf_BufSize (cfg w))) (\<lambda>sz. if sz < length s then crash else ret s)"

text \<open>The buffer of 16 bytes has no room for the null behind a word of 16 characters.\<close>

definition cmdlist :: "string \<Rightarrow> int io" where
  "cmdlist args =
     (if args = [] then listactive ''*''
      else let fmt = [FCls (\<lambda>c. \<not> (eol c \<or> blank c)) (Some 16), FWs, FCls (\<lambda>c. \<not> eol c) (Some 256)];
               cmd = sv (sscanf fmt args) 0 []; pat = sv (sscanf fmt args) 1 [] in
      if sscanf_ret fmt args < 1 \<or> 16 \<le> length cmd then crash
      else bnd (into_bbuf (if pat = [] then ''*'' else pat)) (\<lambda>p.
        if strncaseeq cmd ''active.times'' 12 then thn listactivetimes (ret 0)
        else if strncaseeq cmd ''active'' 6 then thn (listactive p) (ret 0)
        else if strncaseeq cmd ''newsgroups'' 10 then thn (listnewsgroups p) (ret 0)
        else if strncaseeq cmd ''overview'' 8 then thn listoverviewfmt (ret 0)
        else swriteclient ''500 Unsupported LIST command''))"

definition cmdxgtitle :: "string \<Rightarrow> int io" where
  "cmdxgtitle args =
     (if args = [] then listxgtitle ''*''
      else let pat = sv (sscanf [FCls (\<lambda>c. \<not> eol c) (Some 256)] args) 0 [] in
        bnd (into_bbuf (if pat = [] then ''*'' else pat)) (\<lambda>p. thn (listxgtitle p) (ret 0)))"

section \<open>Articles by message-id\<close>

datatype article_result = CHECK_ARTICLE_OK | CHECK_ARTICLE_FAIL | CHECK_ARTICLE_NOPERM

definition MAX_HEADER :: nat where "MAX_HEADER = 1024"

definition lift_po :: "'a outcome option \<Rightarrow> 'a io" where
  "lift_po x w = (case x of None \<Rightarrow> None | Some r \<Rightarrow> lift_o r w)"

definition hdr_fmt :: "conv list" where
  "hdr_fmt = [FCls (\<lambda>c. \<not> blank c) (Some 63), FWs, FCls (\<lambda>c. \<not> eol c) (Some 1023)]"

text \<open>
  The header lines of the article, into a list on the heap. A line that starts with a blank goes under
  the name before it; the name and the value of a line that has none are those of the line before, or
  nothing the program has set. A line too long for the copy has no null behind it.
\<close>

partial_function (option) head_loop ::
  "hheap \<Rightarrow> nat \<Rightarrow> nat option \<Rightarrow> nat option \<Rightarrow> string option \<Rightarrow> string option \<Rightarrow> world
   \<Rightarrow> ((hheap \<times> nat option) \<times> world) outcome option" where
  "head_loop h k first lst hn vl w =
     bnd readserverline (\<lambda>l.
     case l of
       None \<Rightarrow> ret (h, first)
     | Some b \<Rightarrow>
         if sscanf_ret hdr_fmt b = 0 \<and> MAX_HEADER - 1 \<le> length b then crash
         else deref (if 1 \<le> sscanf_ret hdr_fmt b then Some (sv (sscanf hdr_fmt b) 0 []) else hn) (\<lambda>x.
         deref (if sscanf_ret hdr_fmt b = 0 then Some b
                else if 2 \<le> sscanf_ret hdr_fmt b then Some (sv (sscanf hdr_fmt b) 1 []) else vl) (\<lambda>y.
         bnd (lift_po (insert_hlist h lst x y (Some k))) (\<lambda>r.
         if chr_at x 0 = CHR ''.'' then ret (fst r, if first = None then Some (snd r) else first)
         else head_loop (fst r) (k + 1) (if first = None then Some (snd r) else first) (Some (snd r)) (Some x) (Some y))))) w"

declare head_loop.simps [code]

text \<open>The list is freed before the value of a header of it is used.\<close>

definition too_old :: "hheap \<Rightarrow> nat option \<Rightarrow> nat \<Rightarrow> bool io" where
  "too_old h p retention =
     bnd (lift_po (hlist_get_value h p ''NNTP-Posting-Date:'')) (\<lambda>d1.
     bnd (case d1 of Some s \<Rightarrow> ret (Some s) | None \<Rightarrow> lift_po (hlist_get_value h p ''Date:'')) (\<lambda>d.
     asks (\<lambda>w. (case d of None \<Rightarrow> 0 | Some s \<Rightarrow> e_parsedate (w_env w) s) < now w - int (retention * 86400 mod 2 ^ 32))))"

definition judge_headers :: "hheap \<Rightarrow> nat option \<Rightarrow> nat \<Rightarrow> article_result io" where
  "judge_headers h p retention =
     bnd (if 0 < retention then too_old h p retention else ret False) (\<lambda>old.
     if old then bnd (lift_po (free_hlist h p)) (\<lambda>_. ret CHECK_ARTICLE_NOPERM)
     else bnd (lift_po (hlist_get_value h p ''Newsgroups:'')) (\<lambda>ng.
       bnd (lift_po (free_hlist h p)) (\<lambda>h'.
       case ng of
         None \<Rightarrow> ret CHECK_ARTICLE_FAIL
       | Some v \<Rightarrow> bnd (asks (\<lambda>w. e_stale (w_env w) v)) (\<lambda>v'. bnd (matches_pat v' u_readpat) (\<lambda>ok.
                     ret (if ok then CHECK_ARTICLE_OK else CHECK_ARTICLE_NOPERM))))))"

definition check_headperm :: "string \<Rightarrow> article_result io" where
  "check_headperm msgid =
     bnd (asks (\<lambda>w. (cl w, w_m w, cfg w))) (\<lambda>(c, m, cf).
     deref (c_user c) (\<lambda>u. deref (c_profile c) (\<lambda>p.
     let retention = p_Retention (m_profiles m ! p) in
     if cf_LocalDreader cf \<and> strcmp (u_readpat (m_users m ! u)) ''all'' = 0 \<and> retention = 0 then ret CHECK_ARTICLE_OK
     else bnd (ask_server ''HEAD'' msgid) (\<lambda>r.
       case r of
         None \<Rightarrow> ret CHECK_ARTICLE_FAIL
       | Some b \<Rightarrow>
           if 399 < atoi b then ret CHECK_ARTICLE_FAIL
           else bnd (head_loop (\<lambda>_. None) 0 None None None None) (\<lambda>(h, p). judge_headers h p retention)))))"

primrec find_loop :: "nat list \<Rightarrow> int \<Rightarrow> nat option \<Rightarrow> string \<Rightarrow> article_result io" where
  "find_loop [] oldlev olds msgid = ret CHECK_ARTICLE_FAIL"
| "find_loop (i # is) oldlev olds msgid =
     bnd (asks (\<lambda>w. m_servers (w_m w) ! i)) (\<lambda>s.
     if int (s_Level s) \<noteq> oldlev \<and> olds \<noteq> Some i \<and> strcmp (s_Name s) ''default'' \<noteq> 0
     then bnd (connect_groupserver (s_Name s)) (\<lambda>r.
          if r = CONNECT_OK
          then bnd (check_headperm msgid) (\<lambda>x.
               if x = CHECK_ARTICLE_OK \<or> x = CHECK_ARTICLE_NOPERM then ret x else find_loop is (int (s_Level s)) olds msgid)
          else find_loop is (int (s_Level s)) olds msgid)
     else find_loop is oldlev olds msgid)"

definition find_article_server :: "string \<Rightarrow> article_result io" where
  "find_article_server msgid =
     (if chr_at msgid 0 \<noteq> CHR ''<'' then ret CHECK_ARTICLE_FAIL
      else bnd (asks (\<lambda>w. (c_groupserver (cl w), w_m w))) (\<lambda>(olds, m).
        bnd (case olds of None \<Rightarrow> ret CHECK_ARTICLE_FAIL | Some s \<Rightarrow> check_headperm msgid) (\<lambda>x.
        if x = CHECK_ARTICLE_OK \<or> x = CHECK_ARTICLE_NOPERM then ret x
        else find_loop [0..<length (m_servers m)]
               (case olds of None \<Rightarrow> - 1 | Some s \<Rightarrow> int (s_Level (m_servers m ! s))) olds msgid)))"

definition catch_art_server :: "string \<Rightarrow> bool io" where
  "catch_art_server msgid =
     bnd (asks (\<lambda>w. (cl w, w_m w))) (\<lambda>(c, m).
     if c_group c \<noteq> None \<and> chr_at msgid 0 \<noteq> CHR ''<'' then ret True
     else if chr_at msgid 0 \<noteq> CHR ''<'' then thn (swriteclient MSG_ARTICLECANT) (ret False)
     else deref (c_profile c) (\<lambda>p.
       if p_ArticleSearch (m_profiles m ! p) = 0 then thn (swriteclient MSG_ARTICLENOPERM) (ret False)
       else bnd (find_article_server msgid) (\<lambda>x.
         case x of
           CHECK_ARTICLE_FAIL \<Rightarrow> thn (swriteclient MSG_ARTICLECANT) (ret False)
         | CHECK_ARTICLE_NOPERM \<Rightarrow> thn (swriteclient MSG_ARTICLENOPERM) (ret False)
         | CHECK_ARTICLE_OK \<Rightarrow> ret True)))"

section \<open>Frames\<close>

context quiet_frame
begin

lemma leaving [session_ops]: "keeps R closegroup" "keeps R client_quit" "keeps R send_date" "keeps R server_down"
  unfolding client_quit_def closegroup_def send_date_def server_down_def by (intro rules session_ops; simp)+

lemma ask_server [session_ops]: "keeps R (ask_server command args)"
  unfolding ask_server_def by (intro rules session_ops)

lemma retry_loop [session_ops]: "keeps R (retry_loop n command args art b)"
  by (induction n arbitrary: b) (simp_all, (intro rules session_ops conjI impI | assumption | rule allI)+)

lemma pass_account [session_ops]: "keeps R (pass_account cmd n)"
  unfolding pass_account_def by (intro rules session_ops; simp)

lemma pass_loop [session_ops]: "keeps R (pass_loop cmd chk)"
proof -
  have "\<forall>c k. keeps R (pass_loop c k)"
  proof (rule pass_loop.fixp_induct, unfold curry_def, goal_cases)
    case (3 rec)
    then have rec: "keeps R (rec c k)" for c k by blast
    show ?case by (intro allI rules session_ops rec; simp)
  qed (intro keeps_loop)+
  then show ?thesis by blast
qed

lemma pass_reply [session_ops]: "keeps R (pass_reply cmd b)"
  unfolding pass_reply_def by (intro rules session_ops)

lemma passcmd [session_ops]: "keeps R (passcmd command args cmd)"
  unfolding passcmd_def by (intro rules session_ops)

lemma select_group [session_ops]: "keeps R (select_group g quiet)" "keeps R (no_group quiet)" "keeps R (into_bbuf s)"
  unfolding select_group_def no_group_def into_bbuf_def by (intro rules session_ops)+

lemma lists [session_ops]: "keeps R (cmdlist args)" "keeps R (cmdxgtitle args)"
  unfolding cmdlist_def cmdxgtitle_def Let_def by (intro rules session_ops)+

lemma lift_po [session_ops]: "keeps R (lift_po x)"
  by (cases x) (simp_all add: keeps_def lift_po_def lift_o_def refl split: outcome.splits)

lemma head_loop [session_ops]: "keeps R (head_loop h k first lst hn vl)"
proof -
  have "\<forall>h k a b c d. keeps R (head_loop h k a b c d)"
  proof (rule head_loop.fixp_induct, unfold curry_def, goal_cases)
    case (3 rec)
    then have rec: "keeps R (rec h k a b c d)" for h k a b c d by blast
    show ?case by (intro allI rules session_ops rec; simp)
  qed (intro keeps_loop)+
  then show ?thesis by blast
qed

lemma headers [session_ops]: "keeps R (too_old h p n)" "keeps R (judge_headers h p n)"
  unfolding judge_headers_def too_old_def by (intro rules session_ops)+

lemma check_headperm [session_ops]: "keeps R (check_headperm msgid)"
  unfolding check_headperm_def Let_def by (intro rules session_ops)

end

context session_frame
begin

lemma case_result [session_ops]:
  "keeps R m1 \<Longrightarrow> keeps R m2 \<Longrightarrow> keeps R m3 \<Longrightarrow> keeps R (case r of CONNECT_OK \<Rightarrow> m1 | CONNECT_ERR \<Rightarrow> m2 | CONNECT_DOWN \<Rightarrow> m3)"
  by (cases r) simp_all

lemma case_article [session_ops]:
  "keeps R m1 \<Longrightarrow> keeps R m2 \<Longrightarrow> keeps R m3 \<Longrightarrow>
   keeps R (case x of CHECK_ARTICLE_OK \<Rightarrow> m1 | CHECK_ARTICLE_FAIL \<Rightarrow> m2 | CHECK_ARTICLE_NOPERM \<Rightarrow> m3)"
  by (cases x) simp_all

lemma group [session_ops]: "keeps R (change_group a g quiet)" "keeps R (group g quiet)"
  unfolding group_def change_group_def by (intro rules session_ops; simp)+

lemma find_loop [session_ops]: "keeps R (find_loop is lev olds msgid)"
  by (induction "is" arbitrary: lev) (simp_all, (intro rules session_ops conjI impI | assumption | rule allI)+)

lemma catch_art_server [session_ops]: "keeps R (find_article_server msgid)" "keeps R (catch_art_server msgid)"
  unfolding catch_art_server_def find_article_server_def by (intro rules session_ops)+

end


section \<open>The bytes of an answer\<close>

text \<open>
  \<open>relay a i o n\<close>: the switch has taken the bytes \<open>i\<close> from the backend, given the bytes \<open>o\<close> to the client
  and put \<open>n\<close> bytes on the account of the session, where \<open>a\<close> says that the command is accounted at all.
\<close>

definition incoming :: "ev list \<Rightarrow> string" where
  "incoming es = concat (map (\<lambda>e. case e of Got s \<Rightarrow> s | _ \<Rightarrow> []) es)"

definition relay_bytes :: "string \<Rightarrow> string \<Rightarrow> world \<Rightarrow> world \<Rightarrow> bool" where
  "relay_bytes i out w w' \<longleftrightarrow> c_socket (cl w') = c_socket (cl w) \<and> c_serversock (cl w') = c_serversock (cl w)
     \<and> c_profile (cl w') = c_profile (cl w) \<and> length (m_profiles (w_m w')) = length (m_profiles (w_m w))
     \<and> incoming (w_in w (c_serversock (cl w))) = i @ incoming (w_in w' (c_serversock (cl w)))
     \<and> w_out w' (c_socket (cl w)) = w_out w (c_socket (cl w)) @ out"

definition relay_counts :: "bool \<Rightarrow> nat \<Rightarrow> nat \<Rightarrow> world \<Rightarrow> world \<Rightarrow> bool" where
  "relay_counts acct n sent w w' \<longleftrightarrow> c_groupbytes (cl w') mod 2 ^ 64 = (c_groupbytes (cl w) + n) mod 2 ^ 64
     \<and> c_bytes (cl w') mod 2 ^ 64 = (c_bytes (cl w) + (if acct then n else 0)) mod 2 ^ 64
     \<and> c_rbytes (cl w') mod 2 ^ 64 = (c_rbytes (cl w) + (if acct then n else 0)) mod 2 ^ 64
     \<and> (\<forall>p < length (m_profiles (w_m w)). c_profile (cl w) = Some p \<longrightarrow>
          p_bytes (m_profiles (w_m w') ! p) mod 2 ^ 64 = (p_bytes (m_profiles (w_m w) ! p) + sent) mod 2 ^ 64)"

definition relay :: "bool \<Rightarrow> string \<Rightarrow> string \<Rightarrow> nat \<Rightarrow> world \<Rightarrow> world \<Rightarrow> bool" where
  "relay acct i out n w w' \<longleftrightarrow> w_me w' = w_me w \<and> length (m_clients (w_m w')) = length (m_clients (w_m w))
     \<and> (in_slot w \<longrightarrow> relay_bytes i out w w' \<and> relay_counts acct n (length out) w w')"

lemmas relay_defs = relay_def relay_bytes_def relay_counts_def

lemma add_mod_trans: "(a::nat) mod m = (b + k) mod m \<Longrightarrow> c mod m = (a + l) mod m \<Longrightarrow> c mod m = (b + (k + l)) mod m"
  by (metis add.assoc mod_add_left_eq)

lemma relay_refl: "relay a [] [] 0 w w"
  by (simp add: relay_defs)

lemma relay_counts_trans:
  assumes "relay_counts a n s w w1" and "relay_counts a k t w1 w'" and "relay_bytes i x w w1"
  shows "relay_counts a (n + k) (s + t) w w'"
proof -
  have k: "(if a then n + k else 0) = (if a then n else 0) + (if a then k else 0)" by simp
  have p: "c_profile (cl w1) = c_profile (cl w)" "length (m_profiles (w_m w1)) = length (m_profiles (w_m w))"
    using assms(3) by (simp_all add: relay_bytes_def)
  show ?thesis unfolding relay_counts_def k
    using assms(1,2) [unfolded relay_counts_def p] by (blast intro: add_mod_trans)
qed

lemma relay_trans:
  assumes "relay a i s n w w1" and "relay a j t k w1 w'"
  shows "relay a (i @ j) (s @ t) (n + k) w w'"
proof -
  have "in_slot w1 = in_slot w" using assms(1) by (simp add: relay_def in_slot_def)
  then show ?thesis using assms relay_counts_trans [of a n "length s" w w1 k "length t" w' i s]
    by (auto simp: relay_def relay_bytes_def)
qed

interpretation still: frame "relay a [] [] 0" for a
  by unfold_locales (auto simp: relay_refl dest: relay_trans [where n = 0 and k = 0])

lemma incoming_simps [simp]: "incoming [] = []" "incoming (Got s # es) = s @ incoming es" "incoming (Idle # es) = incoming es"
  "incoming (Broken # es) = incoming es"
  by (simp_all add: incoming_def)

lemma rd_incoming: "rd n es = (r, es') \<Longrightarrow> incoming es = (case r of Bytes s \<Rightarrow> s | Rerr \<Rightarrow> []) @ incoming es'"
  by (induction n es rule: rd.induct) (auto split: if_splits)

lemma sel_incoming: "sel es = (b, es') \<Longrightarrow> incoming es = incoming es'"
  by (induction es rule: sel.induct) (auto split: if_splits)

lemma set_cl_length [simp]: "length (m_clients (w_m (set_cl f w))) = length (m_clients (w_m w))"
  by (simp add: set_cl_def)

lemma still_cl:
  "(\<And>c. c_socket (f c) = c_socket c \<and> c_serversock (f c) = c_serversock c \<and> c_profile (f c) = c_profile c \<and> c_groupbytes (f c) = c_groupbytes c
      \<and> c_bytes (f c) = c_bytes c \<and> c_rbytes (f c) = c_rbytes c) \<Longrightarrow> keeps (relay a [] [] 0) (upd_cl f)"
  by (auto simp: keeps_def run_Ok relay_defs)

lemma still_tables:
  "m_clients m = m_clients (w_m w) \<Longrightarrow> map p_bytes (m_profiles m) = map p_bytes (m_profiles (w_m w)) \<Longrightarrow> relay a [] [] 0 w (w\<lparr>w_m := m\<rparr>)"
proof -
  assume c: "m_clients m = m_clients (w_m w)" and p: "map p_bytes (m_profiles m) = map p_bytes (m_profiles (w_m w))"
  have "length (m_profiles m) = length (m_profiles (w_m w))" using p by (metis length_map)
  moreover have "p_bytes (m_profiles m ! k) = p_bytes (m_profiles (w_m w) ! k)" if "k < length (m_profiles (w_m w))" for k
    using p that calculation by (metis nth_map)
  ultimately show ?thesis using c by (simp add: relay_defs)
qed

lemma still_profile: "(\<And>q. p_bytes (f q) = p_bytes q) \<Longrightarrow> keeps (relay a [] [] 0) (upd_m (update_profile p f))"
  by (auto simp: keeps_def run_Ok update_profile_def intro!: still_tables nth_equalityI)
     (metis list_update_beyond nth_list_update_eq nth_list_update_neq not_le)

lemma still_user: "keeps (relay a [] [] 0) (upd_m (update_user u f))"
  by (auto simp: keeps_def run_Ok update_user_def intro!: still_tables)

lemma still_sel: "keeps (relay a [] [] 0) (sock_sel fd)" "keeps (relay a [] [] 0) (sock_wsel fd)" "keeps (relay a [] [] 0) (usleep us)"
proof -
  show "keeps (relay a [] [] 0) (sock_sel fd)"
    by (auto simp: keeps_def sock_sel_def relay_defs split: if_split_asm prod.splits dest: sel_incoming)
  show "keeps (relay a [] [] 0) (sock_wsel fd)"
    by (auto simp: keeps_def sock_wsel_def relay_defs split: if_split_asm list.splits wres.splits)
  show "keeps (relay a [] [] 0) (usleep us)"
    by (auto simp: keeps_def usleep_def run_Ok relay_defs)
qed

lemma still_error: "keeps (relay a [] [] 0) (set_errormsg s)" "keeps (relay a [] [] 0) (server_error s)"
proof -
  show e: "keeps (relay a [] [] 0) (set_errormsg s)"
    by (auto simp: keeps_def set_errormsg_def run_Ok relay_defs Let_def split: option.split)
  show "keeps (relay a [] [] 0) (server_error s)"
    unfolding server_error_def by (intro still.rules e)
qed

lemma still_limits: "keeps (relay a [] [] 0) check_ratelimits" "keeps (relay a [] [] 0) check_ratelimits_prof"
  unfolding check_ratelimits_def check_ratelimits_prof_def Let_def
  by (intro still.rules still_user still_profile still_sel; simp)+

lemma sock_rd_relays:
  assumes "sock_rd fd n w = Some (Ok (r, w'))" and "in_slot w \<longrightarrow> fd = c_serversock (cl w)"
  shows "relay a (case r of Bytes s \<Rightarrow> s | Rerr \<Rightarrow> []) [] 0 w w'"
proof (cases "w_open w fd")
  case True
  obtain r1 es where r: "rd n (w_in w fd) = (r1, es)" by fastforce
  with True assms(1) have "r1 = r" "w' = w\<lparr>w_in := (w_in w)(fd := es)\<rparr>" by (auto simp: sock_rd_def)
  then show ?thesis using rd_incoming [OF r] assms(2) by (cases "in_slot w") (simp_all add: relay_defs)
qed (use assms in \<open>auto simp: sock_rd_def relay_refl\<close>)

lemma nreadserver_relays:
  assumes "nreadserver w = Some (Ok (s, w'))"
  shows "relay a s [] 0 w w'"
proof -
  let ?fd = "c_serversock (cl w)"
  from assms obtain b w1 where b: "sock_sel ?fd w = Some (Ok (b, w1))"
    and k: "(if \<not> b then thn (server_error ''read timeout'') (ret [])
     else bnd (sock_rd ?fd (cf_BufSize (cfg w))) (\<lambda>r.
       case r of
         Rerr \<Rightarrow> thn (server_error ''cant read from server'') (ret [])
       | Bytes s \<Rightarrow> thn (upd_cl (\<lambda>c. c\<lparr>c_serverbytes := add64 (c_serverbytes c) (length s)\<rparr>)) (ret s))) w1 = Some (Ok (s, w'))"
    unfolding nreadserver_def by (auto simp: bnd_Ok basic_Ok(2))
  have w1: "relay a [] [] 0 w w1" using still_sel(1) b by (rule keepsD)
  have e: "keeps (relay a [] [] 0) (thn (server_error x) (ret y))" for x and y :: string
    by (intro still.rules still_error)
  show ?thesis
  proof (cases b)
    case False
    with k have "thn (server_error ''read timeout'') (ret []) w1 = Some (Ok (s, w'))" by simp
    then have "relay a [] [] 0 w1 w'" "s = []" using keepsD [OF e] by (auto simp: run_Ok)
    then show ?thesis using relay_trans [OF w1] by simp
  next
    case True
    with k obtain r w2 where r: "sock_rd ?fd (cf_BufSize (cfg w)) w1 = Some (Ok (r, w2))"
      and l: "(case r of
         Rerr \<Rightarrow> thn (server_error ''cant read from server'') (ret [])
       | Bytes s \<Rightarrow> thn (upd_cl (\<lambda>c. c\<lparr>c_serverbytes := add64 (c_serverbytes c) (length s)\<rparr>)) (ret s)) w2 = Some (Ok (s, w'))"
      by (auto simp: bnd_Ok)
    have "in_slot w1 = in_slot w" using w1 by (simp add: relay_defs in_slot_def)
    then have "relay a (case r of Bytes s \<Rightarrow> s | Rerr \<Rightarrow> []) [] 0 w1 w2"
      using w1 by (intro sock_rd_relays [OF r]) (simp add: relay_defs)
    from relay_trans [OF w1 this] have w2: "relay a (case r of Bytes s \<Rightarrow> s | Rerr \<Rightarrow> []) [] 0 w w2" by simp
    have "relay a [] [] 0 w2 w' \<and> (case r of Bytes s \<Rightarrow> s | Rerr \<Rightarrow> []) = s"
    proof (cases r)
      case (Bytes t)
      have "keeps (relay a [] [] 0) (thn (upd_cl (\<lambda>c. c\<lparr>c_serverbytes := add64 (c_serverbytes c) (length t)\<rparr>)) (ret t))"
        by (intro still.rules still_cl) simp
      with l Bytes show ?thesis by (auto simp: run_Ok dest: keepsD)
    next
      case Rerr
      with l have "thn (server_error ''cant read from server'') (ret []) w2 = Some (Ok (s, w'))" by simp
      with Rerr show ?thesis using keepsD [OF e] by (auto simp: run_Ok)
    qed
    then show ?thesis using relay_trans [OF w2] by force
  qed
qed

lemma sock_wr_bytes:
  assumes "sock_wr fd s w = Some (Ok (True, w1))" and "in_slot w \<longrightarrow> fd = c_socket (cl w) \<and> c_profile (cl w) = Some p"
    and "\<And>q. p_bytes (f q) = add64 (p_bytes q) (length s)"
  shows "relay a [] s 0 w (w1\<lparr>w_m := update_profile p f (w_m w1)\<rparr>)"
proof -
  have "w_open w fd" using assms(1) by (auto simp: sock_wr_def split: if_split_asm)
  with assms(1) obtain rs where "w1 = w\<lparr>w_wr := (w_wr w)(fd := rs), w_out := (w_out w)(fd := w_out w fd @ s)\<rparr>"
    by (auto simp: sock_wr_def split: list.splits wres.splits)
  then show ?thesis using assms(2,3)
    by (simp add: relay_defs update_profile_def add64_def cl_def)
qed

lemma bnd_asks: "bnd (asks f) k w = k (f w) w"
  by (simp add: bnd_def asks_def)

lemma slwriteclient_relays:
  assumes "slwriteclient s limited w = Some (Ok (0, w'))"
  shows "relay a [] s 0 w w'"
proof -
  let ?fd = "c_socket (cl w)"
  let ?p = "\<lambda>q. q\<lparr>p_rl := (p_rl q)\<lparr>rl_curbytes := u32 (int (rl_curbytes (p_rl q)) + int (length s))\<rparr>,
              p_bytes := add64 (p_bytes q) (length s), p_rbytes := add64 (p_rbytes q) (length s)\<rparr>"
  let ?u = "\<lambda>q. q\<lparr>u_rl := (u_rl q)\<lparr>rl_curbytes := u32 (int (rl_curbytes (u_rl q)) + int (length s))\<rparr>\<rparr>"
  define slow where "slow = (if limited then thn check_ratelimits check_ratelimits_prof else ret ())"
  let ?send = "bnd (sock_wr ?fd s) (\<lambda>ok.
     if \<not> ok then (if c_useSSL (cl w) then ret (- 1 :: int)
                   else thn (set_errormsg ''cant slwrite to client'') (ret (- 1 :: int)))
     else deref (c_profile (cl w)) (\<lambda>p. deref (c_user (cl w)) (\<lambda>u.
       thn (upd_m (update_profile p ?p)) (thn (upd_m (update_user u ?u)) (thn slow (ret (0::int)))))))"
  have eq: "slwriteclient s limited w =
     bnd (sock_wsel ?fd) (\<lambda>b. if \<not> b then thn (set_errormsg ''slwrite timeout'') (ret (- 1 :: int)) else ?send) w"
    unfolding slwriteclient_def slow_def [symmetric] by (simp only: bnd_asks)
  from assms [unfolded eq bnd_Ok [of "sock_wsel ?fd"]] obtain b w1 where s: "sock_wsel ?fd w = Some (Ok (b, w1))"
    and k0: "(if \<not> b then thn (set_errormsg ''slwrite timeout'') (ret (- 1 :: int)) else ?send) w1 = Some (Ok (0, w'))"
    by blast
  have b: "b"
  proof (rule ccontr)
    assume "\<not> b"
    with k0 have "thn (set_errormsg ''slwrite timeout'') (ret (- 1 :: int)) w1 = Some (Ok (0, w'))" by simp
    then show False by (auto simp: thn_Ok basic_Ok(1))
  qed
  with k0 have "?send w1 = Some (Ok (0, w'))" by simp
  then obtain ok w2 where t: "sock_wr ?fd s w1 = Some (Ok (ok, w2))" and k1: "(if \<not> ok then (if c_useSSL (cl w) then ret (- 1 :: int)
                   else thn (set_errormsg ''cant slwrite to client'') (ret (- 1 :: int)))
     else deref (c_profile (cl w)) (\<lambda>p. deref (c_user (cl w)) (\<lambda>u.
       thn (upd_m (update_profile p ?p)) (thn (upd_m (update_user u ?u)) (thn slow (ret (0::int))))))) w2 = Some (Ok (0, w'))"
    by (auto simp: bnd_Ok)
  then have ok: "ok" by (cases ok; cases "c_useSSL (cl w)") (auto simp: run_Ok)
  with k1 obtain p u where p: "c_profile (cl w) = Some p"
    and "thn (upd_m (update_profile p ?p)) (thn (upd_m (update_user u ?u)) (thn slow (ret (0::int)))) w2 = Some (Ok (0, w'))"
    by (auto simp: deref_Ok)
  then have k: "thn (upd_m (update_user u ?u)) (thn slow (ret (0::int))) (w2\<lparr>w_m := update_profile p ?p (w_m w2)\<rparr>) = Some (Ok (0, w'))"
    by (simp only: thn_Ok [where m = "upd_m (update_profile p ?p)"] basic_Ok) blast
  note s = s [unfolded eqTrueI [OF b]] and t = t [unfolded eqTrueI [OF ok]]
  have w1: "relay a [] [] 0 w w1" using still_sel(2) s by (rule keepsD)
  then have "in_slot w1 \<longrightarrow> ?fd = c_socket (cl w1) \<and> c_profile (cl w1) = Some p" using p by (simp add: relay_defs in_slot_def)
  then have "relay a [] s 0 w1 (w2\<lparr>w_m := update_profile p ?p (w_m w2)\<rparr>)" by (intro sock_wr_bytes [OF t]) simp_all
  moreover have "keeps (relay a [] [] 0) (thn (upd_m (update_user u ?u)) (thn slow (ret (0::int))))"
    unfolding slow_def by (intro still.rules still_user still_limits)
  from keepsD [OF this k] have "relay a [] [] 0 (w2\<lparr>w_m := update_profile p ?p (w_m w2)\<rparr>) w'" .
  ultimately show ?thesis using relay_trans [OF w1] relay_trans by fastforce
qed

lemma pass_account_relays:
  assumes "pass_account cmd n w = Some (Ok (u, w'))"
  shows "relay (ci_acct cmd) [] [] n w w'"
proof (cases "ci_acct cmd")
  case True
  with assms obtain v where "w' = set_cl (\<lambda>c. c\<lparr>c_groupbytes := add64 (c_groupbytes c) n\<rparr>) v"
    and "\<exists>u f. v = (set_cl (\<lambda>c. c\<lparr>c_bytes := add64 (c_bytes c) n, c_rbytes := add64 (c_rbytes c) n\<rparr>) w)\<lparr>w_m := update_user u f
          (w_m (set_cl (\<lambda>c. c\<lparr>c_bytes := add64 (c_bytes c) n, c_rbytes := add64 (c_rbytes c) n\<rparr>) w))\<rparr>"
    unfolding pass_account_def by (auto simp: run_Ok)
  then show ?thesis using True by (auto simp: relay_defs add64_def)
next
  case False
  with assms have "w' = set_cl (\<lambda>c. c\<lparr>c_groupbytes := add64 (c_groupbytes c) n\<rparr>) w"
    unfolding pass_account_def by (auto simp: run_Ok)
  then show ?thesis using False by (auto simp: relay_defs add64_def)
qed

text \<open>
  Passing an answer refines the reader of an article: the answer goes through in pieces, each given to
  the client as it came and accounted in full, until the check buffer sees the end of the article.
\<close>

definition passes :: "cmdinfo \<Rightarrow> string \<Rightarrow> world \<Rightarrow> int option \<Rightarrow> world \<Rightarrow> bool" where
  "passes cmd chk w r w' \<longleftrightarrow> r = Some (- 1) \<or> (\<exists>ts. relay (ci_acct cmd) (concat ts) (concat ts) (length (concat ts)) w w'
     \<and> (r = Some 0 \<and> c_error (cl w') = 0 \<longrightarrow> read_article chk ts = Some (length ts)))"

lemma passes_more:
  assumes "relay (ci_acct cmd) s s (length s) w w1" and "checkbuf_isend chk s = (False, chk')" and "passes cmd chk' w1 r w'"
  shows "passes cmd chk w r w'"
proof (cases "r = Some (- 1)")
  case False
  with assms(3) obtain ts where t: "relay (ci_acct cmd) (concat ts) (concat ts) (length (concat ts)) w1 w'"
      "r = Some 0 \<and> c_error (cl w') = 0 \<longrightarrow> read_article chk' ts = Some (length ts)"
    unfolding passes_def by blast
  have "relay (ci_acct cmd) (concat (s # ts)) (concat (s # ts)) (length (concat (s # ts))) w w'"
    using relay_trans [OF assms(1) t(1)] by simp
  moreover have "read_article chk (s # ts) = Some (length (s # ts))" if "r = Some 0 \<and> c_error (cl w') = 0"
    using t(2) that assms(2) by simp
  ultimately show ?thesis unfolding passes_def by blast
qed (simp add: passes_def)

lemma pass_step:
  assumes "bnd (asks cl) (\<lambda>c.
     if c_error c \<noteq> 0 then ret (Some 0)
     else bnd nreadserver (\<lambda>s.
       if s = [] then ret None
       else bnd (slwriteclient s (ci_limit cmd)) (\<lambda>e.
         if e \<noteq> 0 then ret (Some (- 1))
         else thn (pass_account cmd (length s))
           (if fst (checkbuf_isend chk s) then ret (Some 0) else rec cmd (snd (checkbuf_isend chk s)))))) w = Some (Ok (r, w'))"
    and "\<And>chk w. rec cmd chk w = Some (Ok (r, w')) \<Longrightarrow> passes cmd chk w r w'"
  shows "passes cmd chk w r w'"
proof -
  have nil: "passes cmd chk w r w'" if "relay (ci_acct cmd) [] [] 0 w w'" "r = None \<or> c_error (cl w') \<noteq> 0"
    unfolding passes_def by (intro disjI2 exI [of _ "[]"]) (use that in auto)
  show ?thesis
  proof (cases "c_error (cl w) = 0")
    case False
    with assms(1) show ?thesis by (intro nil) (auto simp: run_Ok relay_refl)
  next
    case True
    with assms(1) obtain s w1 where s: "nreadserver w = Some (Ok (s, w1))"
      and k: "(if s = [] then ret None
       else bnd (slwriteclient s (ci_limit cmd)) (\<lambda>e.
         if e \<noteq> 0 then ret (Some (- 1))
         else thn (pass_account cmd (length s))
           (if fst (checkbuf_isend chk s) then ret (Some 0) else rec cmd (snd (checkbuf_isend chk s))))) w1 = Some (Ok (r, w'))"
      by (auto simp: bnd_Ok basic_Ok(2))
    note rd = nreadserver_relays [OF s, of "ci_acct cmd"]
    show ?thesis
    proof (cases "s = []")
      case True
      with k rd show ?thesis by (intro nil) (auto simp: run_Ok)
    next
      case False
      with k obtain e w2 where e: "slwriteclient s (ci_limit cmd) w1 = Some (Ok (e, w2))"
        and l: "(if e \<noteq> 0 then ret (Some (- 1))
         else thn (pass_account cmd (length s))
           (if fst (checkbuf_isend chk s) then ret (Some 0) else rec cmd (snd (checkbuf_isend chk s)))) w2 = Some (Ok (r, w'))"
        by (auto simp: bnd_Ok)
      show ?thesis
      proof (cases "e = 0")
        case False
        with l show ?thesis by (simp add: run_Ok passes_def)
      next
        case True
        with l obtain u w3 where a: "pass_account cmd (length s) w2 = Some (Ok (u, w3))"
          and n: "(if fst (checkbuf_isend chk s) then ret (Some 0) else rec cmd (snd (checkbuf_isend chk s))) w3 = Some (Ok (r, w'))"
          by (auto simp: thn_Ok)
        have w3: "relay (ci_acct cmd) s s (length s) w w3"
          using relay_trans [OF relay_trans [OF rd slwriteclient_relays [OF e [unfolded True]]] pass_account_relays [OF a]] by simp
        obtain b chk' where c: "checkbuf_isend chk s = (b, chk')" by fastforce
        show ?thesis
        proof (cases b)
          case True
          with n c have "r = Some 0" "w' = w3" by (simp_all add: run_Ok)
          then show ?thesis unfolding passes_def using w3 c True by (intro disjI2 exI [of _ "[s]"]) simp
        next
          case False
          with n c have "rec cmd chk' w3 = Some (Ok (r, w'))" by simp
          from assms(2) [OF this] show ?thesis using w3 c False by (intro passes_more [OF w3]) simp_all
        qed
      qed
    qed
  qed
qed

lemma pass_loop_passes: "pass_loop cmd chk w = Some (Ok (r, w')) \<Longrightarrow> passes cmd chk w r w'"
proof -
  have "\<forall>cmd chk w r w'. pass_loop cmd chk w = Some (Ok (r, w')) \<longrightarrow> passes cmd chk w r w'"
  proof (rule pass_loop.fixp_induct, unfold curry_def, goal_cases)
    case 1
    show ?case unfolding returns_iff by (intro admissible_all step_admissible)
  next
    case 2
    show ?case by simp
  next
    case (3 rec)
    then have rec: "rec cmd chk w = Some (Ok (r, w')) \<Longrightarrow> passes cmd chk w r w'" for cmd chk w r w' by blast
    show ?case by (intro allI impI, erule pass_step, erule rec)
  qed
  then show "pass_loop cmd chk w = Some (Ok (r, w')) \<Longrightarrow> passes cmd chk w r w'" by blast
qed

section \<open>Properties\<close>

text \<open>C3: 
  The body of an answer that \<open>passcmd\<close> hands on without an error reaches the client unchanged: what was
  taken from the backend is what was written to the client, byte for byte and in order, it is added in
  full to the counters of the session, the group and the profile, and the loop stops at the piece with
  which the reader of an article stops.
\<close>

theorem answer_passed_in_full:
  assumes "pass_loop cmd checkbuf_init w = Some (Ok (Some 0, w'))" and "in_slot w" and "c_error (cl w') = 0"
  shows "\<exists>ts. read_article checkbuf_init ts = Some (length ts) \<and> relay_bytes (concat ts) (concat ts) w w'
    \<and> relay_counts (ci_acct cmd) (length (concat ts)) (length (concat ts)) w w'"
  using pass_loop_passes [OF assms(1)] assms(2,3) by (auto simp: passes_def relay_def)

text \<open>A backend in the middle of an answer, which comes in two pieces, with the next answer behind it.\<close>

definition article_world :: world where
  "article_world = (set_cl (\<lambda>c. c\<lparr>c_serversock := 7\<rparr>) sample_world)\<lparr>w_open := (\<lambda>_. True),
     w_in := (\<lambda>_. [])(7 := [Got (''first'' @ CRLF), Got (''second'' @ CRLF @ ''.'' @ CRLF), Got ''next''])\<rparr>"

definition article_command :: cmdinfo where
  "article_command = \<lparr>ci_command = Some ''ARTICLE'', ci_num = cmd_article, ci_auth = True, ci_acct = True, ci_limit = True\<rparr>"

theorem answer_passed_in_full_witness:
  "\<exists>w' t. pass_loop article_command checkbuf_init article_world = Some (Ok (Some 0, w'))
     \<and> w_out w' 5 = ''first'' @ CRLF @ ''second'' @ CRLF @ ''.'' @ CRLF \<and> relay_bytes t t article_world w'
     \<and> relay_counts True (length t) (length t) article_world w'"
proof -
  have "runs (pass_loop article_command checkbuf_init) article_world (\<lambda>r w'. r = Some 0 \<and> c_error (cl w') = 0
      \<and> w_out w' 5 = ''first'' @ CRLF @ ''second'' @ CRLF @ ''.'' @ CRLF)" by code_simp
  then obtain w' where r: "pass_loop article_command checkbuf_init article_world = Some (Ok (Some 0, w'))" and e: "c_error (cl w') = 0"
    and o: "w_out w' 5 = ''first'' @ CRLF @ ''second'' @ CRLF @ ''.'' @ CRLF" unfolding runs_iff by blast
  have "in_slot article_world" by code_simp
  from answer_passed_in_full [OF r this e] have "\<exists>t. relay_bytes t t article_world w' \<and> relay_counts True (length t) (length t) article_world w'"
    by (auto simp: article_command_def)
  with r o show ?thesis by blast
qed

end
