(* ===== verification/Post.thy ===== *)
theory Post
  imports Reader
begin

text \<open>
  \<open>post.c\<close>: posting an article. The headers of the client are checked, some are left out and others are
  added, into a list on the heap; the body is read to the lone dot; the article goes to the post
  server with \<open>IHAVE\<close>, or to the moderator of its first moderated group by mail. \<open>ihave\<close> passes an
  article through in slave mode. Writing the spool file of a mail does not fail.
\<close>

definition BUF_SIZE :: nat where "BUF_SIZE = 524288"
definition MAX_POST_AGE :: int where "MAX_POST_AGE = 86400"

definition MSG_NOPOSTING :: string where "MSG_NOPOSTING = ''440 Posting Denied''"
definition MSG_POST_CANCEL :: string where "MSG_POST_CANCEL = ''441 Post Cancelled''"
definition MSG_POST_HDRTOOLONG :: string where "MSG_POST_HDRTOOLONG = ''441 Header too long''"
definition MSG_POST_WRONGHEADER :: string where "MSG_POST_WRONGHEADER = ''441 Newsgroups, From or Subject missing''"
definition MSG_POST_WRONGEMAIL :: string where "MSG_POST_WRONGEMAIL = ''441 From address not in internet syntax''"
definition MSG_POST_WRONGMSGID :: string where "MSG_POST_WRONGMSGID = ''441 Incorrect Message-ID syntax''"
definition MSG_POST_TOOOLD :: string where "MSG_POST_TOOOLD = ''441 Post is too old, check your system clock''"
definition MSG_POST_TOONEW :: string where "MSG_POST_TOONEW = ''441 Post is too new, check your system clock''"

section \<open>Headers\<close>

record post_state =
  ps_newsgroups :: nat
  ps_from :: nat
  ps_subject :: nat
  ps_msgid :: nat
  ps_date :: nat
  ps_org :: nat
  ps_control :: nat
  ps_approved :: nat
  ps_groups :: "string option"
  ps_realmsgid :: "string option"
  ps_list :: "hheap \<times> nat"

text \<open>The list starts at address 0; the number is the next free address.\<close>

definition add_hdr :: "string \<Rightarrow> string \<Rightarrow> hheap \<times> nat \<Rightarrow> (hheap \<times> nat) outcome option" where
  "add_hdr hdr val hk =
     map_option (\<lambda>r. obind r (\<lambda>(h', a). Ok (h', snd hk + 1)))
       (insert_hlist (fst hk) (if snd hk = 0 then None else Some 0) hdr val (Some (snd hk)))"

definition named :: "string \<Rightarrow> string \<Rightarrow> bool" where
  \<comment> \<open>\<open>!strncasecmp (hedr, name, strlen (name))\<close>\<close>
  "named hedr nm \<longleftrightarrow> strncaseeq hedr nm (length nm)"

definition system_headers :: "string list" where
  "system_headers = [''NNTP-Posting-Host:'', ''NNTP-Posting-Date:'', ''Complaints-To:'', ''X-Complaints-To:'', ''X-Trace:'',
     ''Path:'', ''To:'', ''Cc:'', ''Bcc:'', ''X-NNTP-Posting'', ''X-Abuse'', ''Lines'', ''Injection-Info'', ''Injection-Date'']"

definition header_words :: "string \<Rightarrow> string \<times> string" where
  "header_words b =
     (if sscanf_ret hdr_fmt b = 0 then ([], take (MAX_HEADER - 1) b)
      else (sv (sscanf hdr_fmt b) 0 [], sv (sscanf hdr_fmt b) 1 []))"

definition skipped :: "profile_t \<Rightarrow> bool \<Rightarrow> string \<Rightarrow> string \<Rightarrow> bool" where
  "skipped pf apost hedr val \<longleftrightarrow>
     val = [] \<or> (\<exists>nm \<in> set system_headers. named hedr nm) \<or> (named hedr ''Approved:'' \<and> \<not> apost)
     \<or> (p_ForceOrganization pf \<noteq> 0 \<and> named hedr ''Organization:'')"

definition tick :: "bool \<Rightarrow> nat \<Rightarrow> nat" where
  "tick b n = (if b then n + 1 else n)"

definition count_header :: "string \<Rightarrow> string \<Rightarrow> post_state \<Rightarrow> post_state" where
  "count_header hedr val ps = ps\<lparr>
     ps_approved := tick (named hedr ''Approved:'') (ps_approved ps),
     ps_newsgroups := tick (named hedr ''Newsgroups:'') (ps_newsgroups ps),
     ps_groups := (if named hedr ''Newsgroups:'' then Some val else ps_groups ps),
     ps_from := tick (named hedr ''From:'') (ps_from ps),
     ps_subject := tick (named hedr ''Subject:'') (ps_subject ps),
     ps_date := tick (named hedr ''Date:'') (ps_date ps),
     ps_org := tick (named hedr ''Organization:'') (ps_org ps),
     ps_control := tick (named hedr ''Control:'') (ps_control ps),
     ps_msgid := tick (named hedr ''Message-ID:'') (ps_msgid ps),
     ps_realmsgid := (if named hedr ''Message-ID:'' then Some val else ps_realmsgid ps)\<rparr>"

text \<open>
  One line. The copy of the newsgroups has no null of its own when it fills the buffer; the
  message-id is copied into 128 bytes.
\<close>

definition post_header :: "profile_t \<Rightarrow> bool \<Rightarrow> string \<Rightarrow> post_state \<Rightarrow> post_state outcome option" where
  "post_header pf apost b ps =
     (let (hedr, val) = header_words b in
      if skipped pf apost hedr val then Some (Ok ps)
      else if named hedr ''Newsgroups:'' \<and> MAX_HEADER - 1 \<le> length val then Some Undef
      else if named hedr ''Message-ID:'' \<and> 128 \<le> length val then Some Undef
      else (case striprn val of
              Ok v \<Rightarrow> map_option (\<lambda>r. obind r (\<lambda>hk. Ok ((count_header hedr val ps)\<lparr>ps_list := hk\<rparr>)))
                        (add_hdr hedr v (ps_list ps))
            | _ \<Rightarrow> Some Undef))"

definition chop_line :: "char \<Rightarrow> string \<Rightarrow> string outcome" where
  \<comment> \<open>\<open>chop\<close> of a line in the post buffer; of an empty one it reads the byte in front of it\<close>
  "chop_line before b =
     (case chop b of
        Undef \<Rightarrow> if before \<in> {CR, LF, SP} then Undef else Ok []
      | r \<Rightarrow> r)"

partial_function (option) wait_finish_client :: "world \<Rightarrow> (unit \<times> world) outcome option" where
  "wait_finish_client w =
     bnd (asks cl) (\<lambda>c.
     if c_error c \<noteq> 0 then ret ()
     else bnd (readclient BUF_SIZE False) (\<lambda>l.
       case l of
         None \<Rightarrow> ret ()
       | Some b \<Rightarrow> if chr_at b 0 = CHR ''.'' \<and> (chr_at b 1 = CR \<or> chr_at b 1 = LF) then ret () else wait_finish_client)) w"

declare wait_finish_client.simps [code]

text \<open>The header lines up to the empty one, or the value with which the command has returned.\<close>

partial_function (option) header_loop ::
  "profile_t \<Rightarrow> bool \<Rightarrow> post_state \<Rightarrow> world \<Rightarrow> ((int + post_state) \<times> world) outcome option" where
  "header_loop pf apost ps w =
     bnd (readclient BUF_SIZE False) (\<lambda>l.
     case l of
       None \<Rightarrow> ret (Inr ps)
     | Some b0 \<Rightarrow>
         bnd (bnd (asks (\<lambda>w. e_before (w_env w))) (\<lambda>fc. lift_o (chop_line fc b0))) (\<lambda>b.
         if b = [] then ret (Inr ps)
         else if b = ''.'' then bnd (swriteclient MSG_POST_CANCEL) (\<lambda>r. ret (Inl r))
         else if MAX_HEADER \<le> length b
              then thn wait_finish_client (bnd (swriteclient MSG_POST_HDRTOOLONG) (\<lambda>r. ret (Inl r)))
         else bnd (lift_po (post_header pf apost b ps)) (\<lambda>ps'. header_loop pf apost ps'))) w"

declare header_loop.simps [code]

section \<open>The body\<close>

definition bytes_of :: "rres \<Rightarrow> string" where
  "bytes_of r = (case r of Bytes s \<Rightarrow> s | Rerr \<Rightarrow> [])"

partial_function (option) body_loop :: "string \<Rightarrow> string \<Rightarrow> world \<Rightarrow> ((bool \<times> string) \<times> world) outcome option" where
  "body_loop chk acc w =
     bnd (asks cl) (\<lambda>c.
     if c_error c \<noteq> 0 \<or> c_timeout c \<noteq> 0 then ret (False, acc)
     else bnd (bnd (client_read_socket BUF_SIZE) (\<lambda>r. ret (bytes_of r))) (\<lambda>s.
       if s = [] then ret (False, acc)
       else if fst (checkbuf_isend chk s) then ret (True, acc @ s)
       else body_loop (snd (checkbuf_isend chk s)) (acc @ s))) w"

declare body_loop.simps [code]

section \<open>Moderated groups\<close>

text \<open>The first group that is unknown, the address of the moderator, and the number of groups looked at.\<close>

fun check_mod :: "string list \<Rightarrow> cfg_t \<Rightarrow> master_t \<Rightarrow> nat \<Rightarrow> string option \<times> string option \<times> nat" where
  "check_mod [] cf m n = (None, None, n)"
| "check_mod (p # ps) cf m n =
     (case getgroup p m of
        None \<Rightarrow> (Some p, None, n + 1)
      | Some a \<Rightarrow>
          if a_mode (m_active m ! a) = CHR ''m''
          then (None, Some (map (\<lambda>c. if c = CHR ''.'' then CHR ''-'' else c) p @ ''@'' @ cf_ModeratorDomain cf), n + 1)
          else check_mod ps cf m (n + 1))"

definition check_moderated :: "string \<Rightarrow> cfg_t \<Rightarrow> master_t \<Rightarrow> (string option \<times> string option \<times> nat) outcome" where
  "check_moderated groups cf m = (case strtok '','' groups of [] \<Rightarrow> Undef | ps \<Rightarrow> Ok (check_mod ps cf m 0))"

section \<open>Sending\<close>

partial_function (option) hlist_items :: "hheap \<Rightarrow> nat option \<Rightarrow> (string \<times> string) list outcome option" where
  "hlist_items h p =
     (case p of None \<Rightarrow> Some (Ok [])
      | Some a \<Rightarrow> (case h a of None \<Rightarrow> Some Undef
          | Some n \<Rightarrow> Option.bind (hlist_items h (n_next n)) (\<lambda>r. Some (obind r (\<lambda>xs. Ok ((n_hdr n, n_val n) # xs))))))"

declare hlist_items.simps [code]

definition send_email :: "(string \<times> string) list \<Rightarrow> string \<Rightarrow> string \<Rightarrow> int io" where
  \<comment> \<open>the name of the spool file has 18 characters\<close>
  "send_email hdrs postbuf address =
     (let spool = concat (map (\<lambda>(h, v). h @ '' '' @ v @ CRLF) hdrs) @ ''To: '' @ address @ CRLF @ CRLF @ postbuf in
      bnd (asks (\<lambda>w. (cf_MailerPath (cfg w), e_mail (w_env w)))) (\<lambda>(mailer, mail).
      if MAX_STRING \<le> length mailer + length address + 22 then crash
      else if mail (mailer @ '' '' @ address) spool \<noteq> 0
           then writeclient (''441 Couldn't mail your post to the moderator, please try again'' @ CRLF)
           else writeclient (''240 Thanks, post mailed to moderator'' @ CRLF)))"

definition format_reply :: "string \<Rightarrow> int io" where
  \<comment> \<open>a reply of a server given to the client as the format of a print\<close>
  "format_reply b = (if CHR ''%'' \<in> set b then crash else writeclient b)"

primrec send_headers :: "(string \<times> string) list \<Rightarrow> bool io" where
  "send_headers [] = ret True"
| "send_headers (x # xs) = bnd (writeserver (fst x @ '' '' @ snd x)) (\<lambda>ok. if ok then send_headers xs else ret False)"

definition leave_post_server :: "int io" where
  "leave_post_server =
     thn (upd_cl (\<lambda>c. c\<lparr>c_serversock := c_postsock c\<rparr>))
     (thn disconnect_server
     (thn (upd_cl (\<lambda>c. c\<lparr>c_serversock := 0, c_postsock := 0, c_connected := False\<rparr>)) (ret 0)))"

definition read_reply :: "string option io" where
  "read_reply = readserver 256 255"

definition offer_post :: "(string \<times> string) list \<Rightarrow> string \<Rightarrow> string \<Rightarrow> int \<Rightarrow> int io" where
  \<comment> \<open>\<open>send_ihave\<close> from the command on\<close>
  "offer_post hdrs msgid postbuf oldsock =
     bnd (writeserver (''IHAVE '' @ msgid @ CRLF)) (\<lambda>ok. if \<not> ok then ret 1 else
     bnd read_reply (\<lambda>r. case r of None \<Rightarrow> ret 1 | Some b \<Rightarrow>
     if 400 \<le> atoi b then thn (swriteclient b) leave_post_server else
     bnd (send_headers hdrs) (\<lambda>ok. if \<not> ok then ret 1 else
     bnd (writeserver CRLF) (\<lambda>ok. if \<not> ok then ret 1 else
     bnd (bnd (asks (\<lambda>w. c_serversock (cl w))) (\<lambda>fd. sock_wr fd postbuf)) (\<lambda>_.
     if postbuf = [] then leave_post_server else
     bnd read_reply (\<lambda>r. case r of None \<Rightarrow> ret 1 | Some b \<Rightarrow>
     if 299 < atoi b then thn (format_reply b) leave_post_server else
     thn (writeclient (''240 Thanks!'' @ CRLF))
     (bnd (asks (\<lambda>w. length (cstr postbuf) + (if NUL \<in> set postbuf then 0 else e_behind (w_env w) postbuf))) (\<lambda>n.
      thn (upd_cl (\<lambda>c. c\<lparr>c_serverarts := uint_inc (c_serverarts c), c_serverbytes := add64 (c_serverbytes c) n, c_serversock := oldsock\<rparr>))
      (ret 0)))))))))"

definition send_ihave :: "(string \<times> string) list \<Rightarrow> string \<Rightarrow> string \<Rightarrow> int io" where
  "send_ihave hdrs msgid postbuf =
     bnd (asks (\<lambda>w. (cl w, cfg w))) (\<lambda>(c, cf).
     bnd (if c_postsock c = 0 then connect_server_nntp (cf_PostServer cf) (cf_PostServerPort cf) else ret (Some (c_postsock c))) (\<lambda>s.
     case s of
       None \<Rightarrow> bnd (writeclient (MSG_SERVER_DOWN @ CRLF)) (\<lambda>_. ret 0)
     | Some fd \<Rightarrow>
         thn (upd_cl (\<lambda>c. c\<lparr>c_postsock := fd, c_serversock := fd\<rparr>)) (offer_post hdrs msgid postbuf (c_serversock c))))"

section \<open>The post command\<close>

fun hex_str :: "nat \<Rightarrow> string" where
  \<comment> \<open>\<open>%lx\<close>\<close>
  "hex_str n = (if n < 16 then [''0123456789abcdef'' ! n] else hex_str (n div 16) @ [''0123456789abcdef'' ! (n mod 16)])"

declare hex_str.simps [simp del]

definition trace_id :: "nat \<Rightarrow> int \<Rightarrow> int \<Rightarrow> string" where
  "trace_id ip t pid =
     pad0 5 (hex_str (nat (t mod 1000000))) @ hex_str (nat (t div 1000000)) @ hex_str (ip XOR 0xA5A5A5A5) @ prec_str 5 pid"

definition new_msgid :: "nat \<Rightarrow> int \<Rightarrow> int \<Rightarrow> string \<Rightarrow> string" where
  "new_msgid ip t pid host =
     ''<'' @ hex_str (nat (t mod 1000000)) @ ''$'' @ hex_str (nat (t div 1000000)) @ ''$'' @ hex_str ip @ ''$'' @ int_str pid
       @ ''@'' @ host @ ''>''"

definition add :: "string \<Rightarrow> string \<Rightarrow> hheap \<times> nat \<Rightarrow> (hheap \<times> nat) io" where
  "add hdr val hk = lift_po (add_hdr hdr val hk)"

definition add_if :: "bool \<Rightarrow> string \<Rightarrow> string \<Rightarrow> hheap \<times> nat \<Rightarrow> (hheap \<times> nat) io" where
  "add_if b hdr val hk = (if b then add hdr val hk else ret hk)"

definition value_of :: "string \<Rightarrow> hheap \<times> nat \<Rightarrow> string option io" where
  "value_of hdr hk = lift_po (hlist_get_value (fst hk) (Some 0) hdr)"

text \<open>The message-id the article has or gets; nothing when the client's is not one.\<close>

definition post_message_id :: "post_state \<Rightarrow> client_t \<Rightarrow> profile_t \<Rightarrow> int \<Rightarrow> int \<Rightarrow> ((hheap \<times> nat) \<times> string) option io" where
  "post_message_id ps c pf t pid =
     (if ps_msgid ps = 0
      then let m = new_msgid (c_ip4addr c) t pid (p_Hostname pf) in
           if 128 \<le> length m then crash else bnd (add ''Message-ID:'' m (ps_list ps)) (\<lambda>hk. ret (Some (hk, m)))
      else bnd (value_of ''Message-Id:'' (ps_list ps)) (\<lambda>v.
           if (case v of None \<Rightarrow> False | Some s \<Rightarrow> check_message_id s)
           then deref (ps_realmsgid ps) (\<lambda>m. ret (Some (ps_list ps, m))) else ret None))"

text \<open>The date the article has or gets, or the refusal. A date that cannot be read is replaced.\<close>

definition post_date :: "post_state \<Rightarrow> string \<Rightarrow> hheap \<times> nat \<Rightarrow> (string + hheap \<times> nat) io" where
  "post_date ps timestr hk =
     (if ps_date ps = 0 then bnd (add ''Date:'' timestr hk) (\<lambda>hk'. ret (Inr hk'))
      else bnd (value_of ''Date:'' hk) (\<lambda>v. deref v (\<lambda>s.
        bnd (asks (\<lambda>w. (e_parsedate (w_env w) s, now w))) (\<lambda>(d, t).
        if d = 0 \<or> d = - 1
        then bnd (lift_po (hlist_replace_value (fst hk) (Some 0) ''Date:'' timestr)) (\<lambda>r. ret (Inr (fst r, snd hk)))
        else if MAX_POST_AGE < t - d then ret (Inl MSG_POST_TOOOLD)
        else if t - d < - MAX_POST_AGE then ret (Inl MSG_POST_TOONEW)
        else ret (Inr hk)))))"

definition with_footer :: "profile_t \<Rightarrow> string \<Rightarrow> string" where
  "with_footer pf body =
     (if p_FooterFile pf = [] then body
      else take (length body - 3) body @ take (p_FooterSize pf) (p_Footer pf) @ ''.'' @ CRLF)"

definition count_lines :: "string \<Rightarrow> nat" where
  "count_lines b = length (filter (\<lambda>i. b ! i = CR \<and> b ! Suc i = LF) [0..<length b - 3])"

definition send_post :: "post_state \<Rightarrow> hheap \<times> nat \<Rightarrow> string \<Rightarrow> string \<Rightarrow> string \<Rightarrow> nat \<Rightarrow> int io" where
  "send_post ps hk groups msgid body p =
     bnd (asks (\<lambda>w. (cfg w, w_m w))) (\<lambda>(cf, m).
     bnd (lift_o (check_moderated groups cf m)) (\<lambda>(unknown, mailto, n).
     if unknown \<noteq> None then writeclient (MSG_NOSUCHGROUP @ CRLF)
     else if p_MaxCross (m_profiles m ! p) < int n then writeclient (''441 Too many newsgroups'' @ CRLF)
     else bnd (lift_po (hlist_items (fst hk) (Some 0))) (\<lambda>hdrs.
       bnd (if ps_approved ps = 0 \<and> mailto \<noteq> None then send_email hdrs body (the mailto) else send_ihave hdrs msgid body) (\<lambda>i.
       thn (upd_cl (\<lambda>c. c\<lparr>c_posts := uint_inc (c_posts c), c_postbytes := add64 (c_postbytes c) (length body)\<rparr>))
       (thn (upd_m (update_profile p (\<lambda>q. q\<lparr>p_postarticles := add64 (p_postarticles q) 1,
              p_postbytes := add64 (p_postbytes q) (length body)\<rparr>)))
       (ret i))))))"

definition complete_post :: "post_state \<Rightarrow> hheap \<times> nat \<Rightarrow> string \<Rightarrow> string \<Rightarrow> string \<Rightarrow> nat \<Rightarrow> int \<Rightarrow> int io" where
  \<comment> \<open>from the system headers on\<close>
  "complete_post ps hk groups msgid body p t =
     bnd (asks (\<lambda>w. (cl w, m_profiles (w_m w) ! p, w_env w))) (\<lambda>(c, pf, env).
     let timestr = e_strftime env ''%a, %d %b %Y %H:%M:%S %z'' (t div 1000000);
         org = (ps_org ps = 0 \<and> p_Organization pf \<noteq> []);
         host = c_hostname c @ '' ('' @ inet_ntoa (c_ip4addr c) @ '')'' in
     if org \<and> 254 \<le> length (p_Organization pf) then crash
     else bnd (add ''X-Complaints-To:'' (p_XComplaintsTo pf) hk) (\<lambda>hk.
     bnd (add_if org ''Organization:'' (p_Organization pf) hk) (\<lambda>hk.
     bnd (post_date ps timestr hk) (\<lambda>r.
     case r of
       Inl msg \<Rightarrow> swriteclient msg
     | Inr hk \<Rightarrow>
         let body' = with_footer pf body in
         if p_AddNNTPPostingHost pf \<noteq> 0 \<and> 256 \<le> length host then crash
         else bnd (add ''Lines:'' (nat_str (count_lines body')) hk) (\<lambda>hk.
         bnd (add_if (c_useSSL c \<and> p_XHeaderSSLUpload pf \<noteq> []) ''X-Upload:'' (p_XHeaderSSLUpload pf) hk) (\<lambda>hk.
         bnd (add_if (p_AddNNTPPostingHost pf \<noteq> 0) ''NNTP-Posting-Host:'' host hk) (\<lambda>hk.
         bnd (add ''NNTP-Posting-Date:'' timestr hk) (\<lambda>hk.
         bnd (add_if (cf_PostXTraceHeader (e_cfg env)) ''X-Trace:'' (trace_id (c_ip4addr c) t (e_pid env)) hk) (\<lambda>hk.
         send_post ps hk groups msgid body' p)))))))))"

definition judge_post :: "post_state \<Rightarrow> string \<Rightarrow> nat \<Rightarrow> int io" where
  \<comment> \<open>the checks on the headers of the client\<close>
  "judge_post ps body p =
     bnd (asks (\<lambda>w. (cl w, m_profiles (w_m w) ! p, w_clock w, e_pid (w_env w)))) (\<lambda>(c, pf, t, pid).
     if ps_newsgroups ps = 0 \<or> ps_from ps = 0 \<or> ps_subject ps = 0 then swriteclient MSG_POST_WRONGHEADER
     else bnd (value_of ''From:'' (ps_list ps)) (\<lambda>from.
     if \<not> (case from of None \<Rightarrow> False | Some s \<Rightarrow> check_email s) then swriteclient MSG_POST_WRONGEMAIL
     else deref (ps_groups ps) (\<lambda>groups.
     bnd (matches_pat groups u_postpat) (\<lambda>ok.
     if \<not> ok then swriteclient MSG_NOPOSTING
     else if p_NoControl pf = 1 \<and> ps_control ps = 1 then swriteclient MSG_NOPOSTING
     else bnd (post_message_id ps c pf t pid) (\<lambda>r.
       case r of
         None \<Rightarrow> swriteclient MSG_POST_WRONGMSGID
       | Some (hk, msgid) \<Rightarrow> complete_post ps hk groups msgid body p t)))))"

definition no_headers :: post_state where
  "no_headers = \<lparr>ps_newsgroups = 0, ps_from = 0, ps_subject = 0, ps_msgid = 0, ps_date = 0, ps_org = 0, ps_control = 0,
     ps_approved = 0, ps_groups = None, ps_realmsgid = None, ps_list = (\<lambda>_. None, 0)\<rparr>"

definition post :: "int io" where
  "post =
     thn (writeclient (''340 Try Me!'' @ CRLF))
     (bnd (asks cl) (\<lambda>c. deref (c_profile c) (\<lambda>p. deref (c_acl c) (\<lambda>l.
      bnd (asks (\<lambda>w. (m_profiles (w_m w) ! p, m_acls (w_m w) ! l))) (\<lambda>(pf, acl).
      if 256 \<le> length (p_Hostname pf) + 13 then crash
      else bnd (add ''Path:'' (p_Hostname pf @ ''!not-for-mail'') (ps_list no_headers)) (\<lambda>hk.
        bnd (header_loop pf (acl_apost acl) (no_headers\<lparr>ps_list := hk\<rparr>)) (\<lambda>r.
        case r of
          Inl i \<Rightarrow> ret i
        | Inr ps \<Rightarrow>
            bnd (body_loop checkbuf_init []) (\<lambda>(ended, body).
            if \<not> ended then ret 1 else judge_post ps body p))))))))"

section \<open>Slave mode\<close>

partial_function (option) relay_loop :: "string \<Rightarrow> nat \<Rightarrow> world \<Rightarrow> (nat \<times> world) outcome option" where
  "relay_loop chk n w =
     bnd (asks cl) (\<lambda>c.
     if c_error c \<noteq> 0 \<or> c_timeout c \<noteq> 0 then ret n
     else bnd (bnd (client_read_socket BUF_SIZE) (\<lambda>r. ret (bytes_of r))) (\<lambda>s.
       if s = [] then ret n
       else thn (write_socket (c_serversock c) s)
         (if fst (checkbuf_isend chk s) then ret (n + length s)
          else relay_loop (snd (checkbuf_isend chk s)) (n + length s)))) w"

declare relay_loop.simps [code]

text \<open>Any descriptor but 0 is taken for a failed connection.\<close>

definition ihave :: "string \<Rightarrow> int io" where
  "ihave msgid =
     bnd (asks (\<lambda>w. (cl w, m_active (w_m w), cfg w))) (\<lambda>(c, as, cf).
     thn (if c_connected c then disconnect_server else ret ())
     (bnd (connect_server_nntp (cf_PostServer cf) (cf_PostServerPort cf)) (\<lambda>s.
      if s \<noteq> Some 0 then bnd (writeclient (MSG_SERVER_DOWN @ CRLF)) (\<lambda>_. ret 0)
      else bnd (writeserver (''IHAVE '' @ msgid @ CRLF)) (\<lambda>ok. if \<not> ok then ret 1 else
        bnd read_reply (\<lambda>r. case r of None \<Rightarrow> ret 1 | Some b \<Rightarrow>
        if 399 < atoi b then thn (format_reply b) (thn disconnect_server (ret 0)) else
        thn (format_reply b)
        (bnd (relay_loop checkbuf_init 0) (\<lambda>n.
         bnd read_reply (\<lambda>r. case r of None \<Rightarrow> ret 1 | Some b \<Rightarrow>
         if 299 < atoi b then thn (format_reply b) (thn disconnect_server (ret 0)) else
         thn (format_reply b)
         (thn (upd_cl (\<lambda>c. c\<lparr>c_serverarts := uint_inc (c_serverarts c), c_serverbytes := add64 (c_serverbytes c) n\<rparr>))
         (thn disconnect_server
         (case c_group c of None \<Rightarrow> ret 0 | Some g \<Rightarrow> bnd (group (a_newsgroup (as ! g)) True) (\<lambda>_. ret 0))))))))))))"

section \<open>Frames\<close>

context quiet_frame
begin

lemma wait_finish_client [session_ops]: "keeps R wait_finish_client"
proof (rule wait_finish_client.fixp_induct, goal_cases)
  case 1
  show ?case by (rule keeps_admissible [where h = "\<lambda>w. w"])
next
  case (3 rec)
  then show ?case by (intro rules session_ops)
qed (intro keeps_loop)

lemma header_loop [session_ops]: "keeps R (header_loop pf ap ps)"
proof -
  have "\<forall>pf ap ps. keeps R (header_loop pf ap ps)"
  proof (rule header_loop.fixp_induct, unfold curry_def, goal_cases)
    case (3 rec)
    then have rec: "keeps R (rec pf ap ps)" for pf ap ps by blast
    show ?case by (intro allI rules session_ops rec; simp)
  qed (intro keeps_loop)+
  then show ?thesis by blast
qed

lemma body_loop [session_ops]: "keeps R (body_loop chk acc)"
proof -
  have "\<forall>chk acc. keeps R (body_loop chk acc)"
  proof (rule body_loop.fixp_induct, unfold curry_def, goal_cases)
    case (3 rec)
    then have rec: "keeps R (rec chk acc)" for chk acc by blast
    show ?case by (intro allI rules session_ops rec; simp)
  qed (intro keeps_loop)+
  then show ?thesis by blast
qed

lemma relay_loop [session_ops]: "keeps R (relay_loop chk n)"
proof -
  have "\<forall>chk n. keeps R (relay_loop chk n)"
  proof (rule relay_loop.fixp_induct, unfold curry_def, goal_cases)
    case (3 rec)
    then have rec: "keeps R (rec chk n)" for chk n by blast
    show ?case by (intro allI rules session_ops rec; simp)
  qed (intro keeps_loop)+
  then show ?thesis by blast
qed

lemma adding [session_ops]: "keeps R (add x y hk)" "keeps R (add_if b x y hk)" "keeps R (value_of x hk)"
  unfolding add_if_def add_def value_of_def by (intro rules session_ops)+

lemma mail [session_ops]: "keeps R (send_email hs b a)" "keeps R (format_reply b)" "keeps R read_reply"
  unfolding send_email_def format_reply_def read_reply_def Let_def by (intro rules session_ops)+

lemma send_headers [session_ops]: "keeps R (send_headers hs)"
  by (induction hs) (simp_all, (intro rules session_ops | assumption)+)

lemma offer_post [session_ops]: "keeps R leave_post_server" "keeps R (offer_post hs m b s)"
  unfolding offer_post_def leave_post_server_def by (intro rules session_ops; simp)+

lemma dates [session_ops]: "keeps R (post_message_id ps c pf t pid)" "keeps R (post_date ps ts hk)"
  unfolding post_message_id_def post_date_def Let_def by (intro rules session_ops)+

end

context session_frame
begin

lemma send_post [session_ops]: "keeps R (send_ihave hs m b)" "keeps R (send_post ps hk gs m b p)"
  unfolding send_post_def send_ihave_def by (intro rules session_ops; simp)+

lemma judge_post [session_ops]: "keeps R (complete_post ps hk gs m b p t)" "keeps R (judge_post ps b p)"
  unfolding judge_post_def complete_post_def Let_def by (intro rules session_ops)+

lemma post [session_ops]: "keeps R post" "keeps R (ihave m)"
  unfolding post_def ihave_def by (intro rules session_ops; simp)+

end


section \<open>The headers a client can set\<close>

definition post_list :: "hheap \<times> nat \<Rightarrow> (string \<times> string) list \<Rightarrow> bool" where
  "post_list hk xs \<longleftrightarrow> chain (fst hk) (if snd hk = 0 then None else Some 0) [0..<snd hk] xs \<and> (\<forall>a \<ge> snd hk. fst hk a = None)"

lemma post_list_hlist: "post_list hk xs \<Longrightarrow> hlist (fst hk) (if snd hk = 0 then None else Some 0) xs"
  unfolding post_list_def hlist_def using distinct_upt by blast

lemma add_hdr_appends:
  assumes "post_list hk xs"
  shows "\<exists>hk'. add_hdr x v hk = Some (Ok hk') \<and> post_list hk' (xs @ [(x, v)]) \<and> 0 < snd hk'"
proof -
  obtain h k where hk: "hk = (h, k)" by fastforce
  have c: "chain h (if k = 0 then None else Some 0) [0..<k] xs" and free: "\<forall>a \<ge> k. h a = None"
    using assms by (auto simp: post_list_def hk)
  show ?thesis
  proof (cases "k = 0")
    case True
    with c free show ?thesis by (auto simp: hk add_hdr_def insert_hlist_def hlist_end.simps post_list_def)
  next
    case False
    then have l: "[0..<k] \<noteq> []" "last [0..<k] = k - 1" "k - 1 < k" by (cases k; simp)+
    then obtain n where n: "h (k - 1) = Some n" using chain_allocated [OF c, of "k - 1"] by auto
    have e: "hlist_end h (Some 0) None = Some (Ok (Some (k - 1)))" using chain_end [OF c, of None] False l by simp
    let ?h = "h(k - 1 \<mapsto> n\<lparr>n_next := Some k\<rparr>, k \<mapsto> \<lparr>n_hdr = x, n_val = v, n_next = None\<rparr>)"
    have "chain ?h (Some 0) ([0..<k] @ [k]) (xs @ [(x, v)])"
      using chain_append [OF c distinct_upt l(1), of k n x v] free n False l by simp
    then show ?thesis using e n free False by (auto simp: hk add_hdr_def insert_hlist_def Let_def post_list_def)
  qed
qed

text \<open>
  What a header of the client has to be to stay: none the switch sets itself, none that would send a
  mail to someone else, no approval without the right to it, no organization when the profile has one.
\<close>

definition reserved :: "string list" where
  "reserved = [''Path:'', ''X-Complaints-To:'', ''Lines:'', ''NNTP-Posting-Host:'', ''NNTP-Posting-Date:'', ''X-Trace:'',
     ''To:'', ''Cc:'', ''Bcc:'']"

definition settable :: "profile_t \<Rightarrow> bool \<Rightarrow> string \<Rightarrow> bool" where
  "settable pf apost hdr \<longleftrightarrow> (\<forall>nm \<in> set reserved. \<not> strcaseeq hdr nm) \<and> (strcaseeq hdr ''Approved:'' \<longrightarrow> apost)
     \<and> (p_ForceOrganization pf \<noteq> 0 \<longrightarrow> \<not> strcaseeq hdr ''Organization:'')"

lemma named_prefix: "strcaseeq hdr nm \<Longrightarrow> take (length p) nm = p \<Longrightarrow> named hdr p"
  by (simp add: named_def strcaseeq_def strncaseeq_def take_map [symmetric]) (metis take_map)

lemma not_skipped_settable: "\<not> skipped pf apost hdr y \<Longrightarrow> settable pf apost hdr"
proof -
  assume s: "\<not> skipped pf apost hdr y"
  have "\<not> strcaseeq hdr nm" if "nm \<in> set reserved" for nm
  proof
    assume e: "strcaseeq hdr nm"
    have "\<forall>nm \<in> set reserved. \<exists>p \<in> set system_headers. take (length p) nm = p" by code_simp
    with that e named_prefix have "\<exists>p \<in> set system_headers. named hdr p" by blast
    with s show False by (simp add: skipped_def)
  qed
  moreover have "named hdr nm" if "strcaseeq hdr nm" for nm using that by (rule named_prefix) simp
  ultimately show ?thesis using s by (auto simp: settable_def skipped_def)
qed

definition headers_named :: "string \<Rightarrow> (string \<times> string) list \<Rightarrow> nat" where
  "headers_named nm xs = length (filter (\<lambda>x. named (fst x) nm) xs)"

definition tallied :: "post_state \<Rightarrow> (string \<times> string) list \<Rightarrow> bool" where
  "tallied ps xs \<longleftrightarrow> ps_newsgroups ps = headers_named ''Newsgroups:'' xs \<and> ps_from ps = headers_named ''From:'' xs
     \<and> ps_subject ps = headers_named ''Subject:'' xs \<and> ps_msgid ps = headers_named ''Message-ID:'' xs
     \<and> ps_date ps = headers_named ''Date:'' xs \<and> ps_org ps = headers_named ''Organization:'' xs
     \<and> ps_control ps = headers_named ''Control:'' xs \<and> ps_approved ps = headers_named ''Approved:'' xs"

definition collects :: "profile_t \<Rightarrow> bool \<Rightarrow> (string \<times> string) list \<Rightarrow> post_state \<Rightarrow> bool" where
  "collects pf apost start ps \<longleftrightarrow>
     (\<exists>xs. post_list (ps_list ps) (start @ xs) \<and> list_all (\<lambda>x. settable pf apost (fst x)) xs \<and> tallied ps xs)"

lemma tallied_count: "tallied ps xs \<Longrightarrow> tallied ((count_header x y ps)\<lparr>ps_list := hk\<rparr>) (xs @ [(x, v)])"
  by (simp add: tallied_def headers_named_def count_header_def tick_def)

lemma post_header_collects:
  assumes "collects pf apost start ps" and "post_header pf apost b ps = Some (Ok ps')"
  shows "collects pf apost start ps'"
proof -
  obtain x y where w: "header_words b = (x, y)" by fastforce
  show ?thesis
  proof (cases "skipped pf apost x y")
    case True
    with assms w show ?thesis by (simp add: post_header_def)
  next
    case False
    from assms(1) obtain xs where xs: "post_list (ps_list ps) (start @ xs)" "list_all (\<lambda>x. settable pf apost (fst x)) xs" "tallied ps xs"
      unfolding collects_def by blast
    from assms(2) w False obtain v hk where v: "add_hdr x v (ps_list ps) = Some (Ok hk)"
      and ps': "ps' = (count_header x y ps)\<lparr>ps_list := hk\<rparr>"
      by (auto simp: post_header_def split: if_split_asm outcome.splits option.splits)
    from add_hdr_appends [OF xs(1), of x v] v have "post_list hk (start @ xs @ [(x, v)])" by auto
    moreover have "settable pf apost x" using False by (rule not_skipped_settable)
    ultimately show ?thesis using xs(2) tallied_count [OF xs(3)] unfolding collects_def ps'
      by (intro exI [of _ "xs @ [(x, v)]"]) simp
  qed
qed

lemma header_loop_collects:
  "header_loop pf apost ps w = Some (Ok (Inr ps', w')) \<Longrightarrow> collects pf apost start ps \<Longrightarrow> collects pf apost start ps'"
proof -
  have "\<forall>pf apost ps w r w'. header_loop pf apost ps w = Some (Ok (r, w')) \<longrightarrow>
      (\<forall>ps'. r = Inr ps' \<longrightarrow> collects pf apost start ps \<longrightarrow> collects pf apost start ps')"
  proof (rule header_loop.fixp_induct, unfold curry_def, goal_cases)
    case 1
    show ?case unfolding returns_iff by (intro admissible_all step_admissible)
  next
    case 2
    show ?case by simp
  next
    case (3 rec)
    then have rec: "rec pf apost ps w = Some (Ok (Inr ps', w')) \<Longrightarrow> collects pf apost start ps \<Longrightarrow> collects pf apost start ps'"
      for pf apost ps w ps' w' by blast
    show ?case
      by (auto simp: run_Ok lift_po_def split: option.splits if_split_asm outcome.splits dest: rec post_header_collects)
  qed
  then show "header_loop pf apost ps w = Some (Ok (Inr ps', w')) \<Longrightarrow> collects pf apost start ps \<Longrightarrow> collects pf apost start ps'"
    by blast
qed

section \<open>Properties\<close>

text \<open>C7: 
  No client forges a header of the system: after the header lines, whatever they were, the list holds the
  Path of the switch and then headers none of which is one the switch itself sets, no Approved without
  the right to approve, no Organization when the profile forces its own; and the counters the later
  checks rely on are the numbers of the headers in the list.
\<close>

theorem no_forged_headers:
  assumes "add_hdr ''Path:'' p (ps_list no_headers) = Some (Ok hk)"
    and "header_loop pf apost (no_headers\<lparr>ps_list := hk\<rparr>) w = Some (Ok (Inr ps, w'))"
  shows "\<exists>xs. hlist (fst (ps_list ps)) (Some 0) ((''Path:'', p) # xs) \<and> list_all (\<lambda>x. settable pf apost (fst x)) xs \<and> tallied ps xs"
proof -
  have "post_list (ps_list no_headers) []" by (simp add: post_list_def no_headers_def)
  from add_hdr_appends [OF this, of "''Path:''" p] assms(1) have hk: "post_list hk [(''Path:'', p)]" by simp
  have "collects pf apost [(''Path:'', p)] (no_headers\<lparr>ps_list := hk\<rparr>)"
    unfolding collects_def using hk by (intro exI [of _ "[]"]) (simp add: tallied_def headers_named_def no_headers_def)
  from header_loop_collects [OF assms(2) this] obtain xs where xs: "post_list (ps_list ps) ((''Path:'', p) # xs)"
      "list_all (\<lambda>x. settable pf apost (fst x)) xs" "tallied ps xs"
    unfolding collects_def by auto
  have "snd (ps_list ps) \<noteq> 0"
  proof
    assume "snd (ps_list ps) = 0"
    with xs(1) show False by (simp add: post_list_def)
  qed
  with post_list_hlist [OF xs(1)] xs show ?thesis by auto
qed

definition poster_world :: world where
  "poster_world = sample_world\<lparr>w_in := (\<lambda>_. [])(5 := [Got (''From: a@b.example'' @ CRLF), Got (''Path: forged!site'' @ CRLF),
     Got (''approved: me'' @ CRLF), Got (''Subject: x'' @ CRLF), Got CRLF])\<rparr>"

theorem no_forged_headers_witness:
  "\<exists>hk ps w' xs. add_hdr ''Path:'' ''site!not-for-mail'' (ps_list no_headers) = Some (Ok hk)
     \<and> header_loop zero_profile False (no_headers\<lparr>ps_list := hk\<rparr>) poster_world = Some (Ok (Inr ps, w'))
     \<and> ps_from ps = 1 \<and> ps_subject ps = 1 \<and> ps_approved ps = 0 \<and> tallied ps xs
     \<and> hlist (fst (ps_list ps)) (Some 0) ((''Path:'', ''site!not-for-mail'') # xs)"
proof -
  let ?hk = "case add_hdr ''Path:'' ''site!not-for-mail'' (ps_list no_headers) of Some (Ok hk) \<Rightarrow> hk | _ \<Rightarrow> (\<lambda>_. None, 0)"
  have "case add_hdr ''Path:'' ''site!not-for-mail'' (ps_list no_headers) of Some (Ok hk) \<Rightarrow> True | _ \<Rightarrow> False" by code_simp
  then have hk: "add_hdr ''Path:'' ''site!not-for-mail'' (ps_list no_headers) = Some (Ok ?hk)"
    by (auto split: option.splits outcome.splits)
  have "runs (header_loop zero_profile False (no_headers\<lparr>ps_list := ?hk\<rparr>)) poster_world
      (\<lambda>r w'. case r of Inr ps \<Rightarrow> ps_from ps = 1 \<and> ps_subject ps = 1 \<and> ps_approved ps = 0 | _ \<Rightarrow> False)" by code_simp
  then obtain ps w' where r: "header_loop zero_profile False (no_headers\<lparr>ps_list := ?hk\<rparr>) poster_world = Some (Ok (Inr ps, w'))"
    and c: "ps_from ps = 1" "ps_subject ps = 1" "ps_approved ps = 0"
    unfolding runs_iff by (elim exE conjE) (split sum.split_asm, blast+)
  from no_forged_headers [OF hk r] hk r c show ?thesis by blast
qed


text \<open>
  \<open>NoControl\<close> looks for exactly one Control header: an article with two or more of them, counted as the
  loop over the headers counts, is judged as an article that has none.
\<close>

theorem doubled_control_unseen:
  assumes "tallied ps xs" and "headers_named ''Control:'' xs \<noteq> 1"
  shows "judge_post ps body p = judge_post (ps\<lparr>ps_control := 0\<rparr>) body p"
proof -
  have c: "ps_control ps \<noteq> 1" using assms by (simp add: tallied_def)
  have m: "post_message_id (ps\<lparr>ps_control := 0\<rparr>) = post_message_id ps"
    by (intro ext) (simp add: post_message_id_def Let_def cong: if_cong)
  have d: "post_date (ps\<lparr>ps_control := 0\<rparr>) = post_date ps" by (intro ext) (simp add: post_date_def cong: if_cong)
  have s: "send_post (ps\<lparr>ps_control := 0\<rparr>) = send_post ps" by (intro ext) (simp add: send_post_def cong: if_cong)
  have k: "complete_post (ps\<lparr>ps_control := 0\<rparr>) = complete_post ps"
    by (intro ext) (simp add: complete_post_def d s Let_def cong: if_cong sum.case_cong)
  show ?thesis using c by (simp add: judge_post_def m k cong: if_cong)
qed

theorem doubled_control_unseen_witness:
  "judge_post (no_headers\<lparr>ps_control := 2\<rparr>) [] 0 = judge_post no_headers [] 0"
proof -
  have "tallied (no_headers\<lparr>ps_control := 2\<rparr>) [(''Control:'', ''cancel <1@x>''), (''Control:'', ''cancel <1@x>'')]"
    "headers_named ''Control:'' [(''Control:'', ''cancel <1@x>''), (''Control:'', ''cancel <1@x>'')] \<noteq> 1" by code_simp+
  from doubled_control_unseen [OF this] show ?thesis by (simp add: no_headers_def)
qed

lemma connected_descriptor:
  assumes "connect_server_nntp host port w = Some (Ok (s, w'))" and "w_dials w = Accept fd ok es ws # ds"
  shows "s \<in> {None, Some fd}"
  using assms by (auto simp: connect_server_nntp_def connect_socket_def run_Ok Let_def split: if_split_asm)

text \<open>
  \<open>ihave\<close> takes every descriptor but 0 for a failure: whenever the connection to the post server succeeds,
  with any other descriptor, the feeding client is told that the server is down, and nothing is fed.
\<close>

theorem ihave_refuses_on_success:
  assumes "w_dials w = Accept fd ok es ws # ds" and "fd \<noteq> 0" and "\<not> c_connected (cl w)"
  shows "ihave msgid w = bnd (connect_server_nntp (cf_PostServer (cfg w)) (cf_PostServerPort (cfg w)))
    (\<lambda>_. bnd (writeclient (MSG_SERVER_DOWN @ CRLF)) (\<lambda>_. ret 0)) w"
proof (cases "connect_server_nntp (cf_PostServer (cfg w)) (cf_PostServerPort (cfg w)) w")
  case (Some r)
  then show ?thesis
  proof (cases r)
    case (Ok p)
    obtain s w1 where p: "p = (s, w1)" by fastforce
    have "s \<noteq> Some 0" using connected_descriptor [OF _ assms(1)] Some Ok p assms(2) by auto
    with Some Ok p assms(3) show ?thesis by (simp add: ihave_def bnd_def thn_def asks_def ret_def)
  qed (use assms(3) in \<open>simp_all add: ihave_def bnd_def thn_def asks_def ret_def\<close>)
qed (use assms(3) in \<open>simp add: ihave_def bnd_def thn_def asks_def ret_def\<close>)

theorem ihave_refuses_on_success_witness:
  "runs (ihave ''<1@x>'') (sample_world\<lparr>w_dials := [Accept 8 True [Got (''200 post'' @ CRLF)] []]\<rparr>)
     (\<lambda>r w'. r = 0 \<and> w_out w' 5 = MSG_SERVER_DOWN @ CRLF \<and> w_out w' 8 = [] \<and> w_open w' 8)"
proof -
  let ?w = "sample_world\<lparr>w_dials := [Accept 8 True [Got (''200 post'' @ CRLF)] []]\<rparr>"
  have "\<not> c_connected (cl ?w)" by code_simp
  with ihave_refuses_on_success [of ?w 8 True "[Got (''200 post'' @ CRLF)]" "[]" "[]" "''<1@x>''"]
  have "ihave ''<1@x>'' ?w = bnd (connect_server_nntp (cf_PostServer (cfg ?w)) (cf_PostServerPort (cfg ?w)))
    (\<lambda>_. bnd (writeclient (MSG_SERVER_DOWN @ CRLF)) (\<lambda>_. ret 0)) ?w" by simp
  moreover have "runs (bnd (connect_server_nntp (cf_PostServer (cfg ?w)) (cf_PostServerPort (cfg ?w)))
    (\<lambda>_. bnd (writeclient (MSG_SERVER_DOWN @ CRLF)) (\<lambda>_. ret (0::int)))) ?w
    (\<lambda>r w'. r = 0 \<and> w_out w' 5 = MSG_SERVER_DOWN @ CRLF \<and> w_out w' 8 = [] \<and> w_open w' 8)" by code_simp
  ultimately show ?thesis by (simp add: runs_def)
qed

end
