(* ===== verification/Statistics.thy ===== *)
theory Statistics
  imports Reader
begin

text \<open>
  \<open>statistics.c\<close> and \<open>timerproc.c\<close>: the statistics command, the files the timer process writes, the one
  it loads at a start, and the byte counts for the web service. Opening a file for writing does not fail;
  a file that is written replaces the one of its name. Single and double precision numbers are reals.
\<close>

section \<open>Numbers\<close>

definition fix_str :: "nat \<Rightarrow> real \<Rightarrow> string" where
  \<comment> \<open>\<open>%.<d>f\<close>\<close>
  "fix_str d x =
     (let n = nat \<lfloor>\<bar>x\<bar> * 10 ^ d + 1 / 2\<rfloor>; s = nat_str (n div 10 ^ d) @ ''.'' @ pad0 d (nat_str (n mod 10 ^ d)) in
      if x < 0 then CHR ''-'' # s else s)"

definition forks_per_sec :: "nat \<Rightarrow> int \<Rightarrow> string" where
  "forks_per_sec forks up =
     (if up = 0 then (if forks = 0 then ''-nan'' else ''inf'') else fix_str 2 (real forks / real_of_int up))"

section \<open>The command\<close>

primrec say_all :: "string list \<Rightarrow> unit io" where
  "say_all [] = ret ()"
| "say_all (l # ls) = thn (writeclient l) (say_all ls)"

definition cmdstatistics_pdump :: "nat \<Rightarrow> unit io" where
  "cmdstatistics_pdump p =
     bnd (asks (\<lambda>w. (m_profiles (w_m w) ! p, w_m w))) (\<lambda>(pf, m).
     thn (say_all [''name: '' @ p_Name pf, ''ReadPat: '' @ p_ReadPat pf, ''PostPat: '' @ p_PostPat pf,
       ''MaxConnections: '' @ int_str (p_MaxConnections pf), ''MaxUserConcurrent: '' @ int_str (p_MaxUserConcurrent pf),
       ''MaxHostConcurrent: '' @ int_str (p_MaxHostConcurrent pf), ''Slave: '' @ int_str (p_Slave pf),
       ''MaxUsers: '' @ int_str (p_MaxUsers pf), ''MaxSessionTime: '' @ int_str (p_MaxSessionTime pf),
       ''MaxSessionBytes: '' @ int_str (signed64 (p_MaxSessionBytes pf)), ''MaxUserBPS: '' @ nat_str (p_MaxUserBPS pf),
       ''MaxProfileBPS: '' @ nat_str (p_MaxProfileBPS pf), ''XComplaintsTo: '' @ p_XComplaintsTo pf,
       ''Organization: '' @ p_Organization pf, ''ForceOrganization: '' @ int_str (p_ForceOrganization pf),
       ''AddNNTPPostingHost: '' @ int_str (p_AddNNTPPostingHost pf), ''Hostname: '' @ p_Hostname pf,
       ''FooterFile: '' @ p_FooterFile pf, ''Footer: '' @ p_Footer pf, ''FooterSize: '' @ nat_str (p_FooterSize pf),
       ''NoControl: '' @ int_str (p_NoControl pf), ''ArticleSearch: '' @ int_str (p_ArticleSearch pf),
       ''ClientReadTimeout: '' @ int_str (p_ClientReadTimeout pf), ''-- accounting detail''])
     (deref (p_Accounting pf) (\<lambda>a. let al = m_aliases m ! a in
      say_all [''Accounting/name: '' @ al_name al, ''Accounting/lib: '' @ al_lib al, ''Accounting/args: '' @ al_args al,
       ''Limits: '' @ nat_str (length (p_Limits pf)), ''-- statistics'', ''connections: '' @ nat_str (p_connections pf),
       ''numusers: '' @ nat_str (p_numusers pf), ''realusers: '' @ nat_str (p_realusers pf), ''bytes: '' @ nat_str (p_bytes pf),
       ''articles: '' @ nat_str (p_articles pf), ''-- ratelimiter'', ''rl_curbytes: '' @ nat_str (rl_curbytes (p_rl pf)),
       ''rl_lastbytes: '' @ nat_str (rl_lastbytes (p_rl pf)), ''rl_sleep: '' @ fix_str 6 (rl_sleep (p_rl pf)),
       ''rl_curbps: '' @ fix_str 6 (rl_curbps (p_rl pf)), ''UserRLFactorU: '' @ fix_str 6 (p_UserRLFactorU pf),
       ''UserRLFactorD: '' @ fix_str 6 (p_UserRLFactorD pf), ''ProfileRLFactorU: '' @ fix_str 6 (p_ProfileRLFactorU pf),
       ''ProfileRLFactorD: '' @ fix_str 6 (p_ProfileRLFactorD pf)])))"

definition cmdstatistics_user :: "nat \<Rightarrow> unit io" where
  "cmdstatistics_user u =
     bnd (asks (\<lambda>w. m_users (w_m w) ! u)) (\<lambda>us.
     say_all [''-- user information'', ''key: '' @ u_key us, ''id: '' @ nat_str (u_id us),
       ''MaxUserBPS: '' @ nat_str (u_MaxUserBPS us), ''bytesleft: '' @ nat_str (u64 (u_bytesleft us)),
       ''connections: '' @ nat_str (u_connections us), ''realuser: '' @ nat_str (u_realuser us),
       ''timeleft: '' @ nat_str (u32 (u_timeleft us)), ''rl_curbytes: '' @ nat_str (rl_curbytes (u_rl us)),
       ''rl_lastbytes: '' @ nat_str (rl_lastbytes (u_rl us)), ''rl_sleep: '' @ fix_str 6 (rl_sleep (u_rl us)),
       ''rl_curbps: '' @ fix_str 6 (rl_curbps (u_rl us))])"

definition profile_line :: "profile_t \<Rightarrow> string" where
  "profile_line pf =
     ''profile '' @ p_Name pf @ '' '' @ nat_str (p_connections pf) @ '' '' @ nat_str (p_numusers pf) @ '' '' @ nat_str (p_realusers pf)
       @ '' '' @ nat_str (p_bytes pf) @ '' '' @ nat_str (p_articles pf) @ '' '' @ nat_str (p_postbytes pf) @ '' '' @ nat_str (p_postarticles pf)"

definition server_line :: "server_t \<Rightarrow> string" where
  "server_line s = ''server '' @ s_Name s @ '' '' @ int_str (signed_take_bit 31 (int (s_connections s)))"

definition head_lines :: "world \<Rightarrow> string list" where
  "head_lines w =
     (let m = w_m w; up = now w - int (m_serverstart m) in
      [''uptime '' @ nat_str (u64 up), ''nrforks '' @ nat_str (m_nrforks m), ''forkspersec '' @ forks_per_sec (m_nrforks m) up,
       ''nrlocks '' @ nat_str (m_nrlocks m), ''nrunlocks '' @ nat_str (m_nrunlocks m),
       ''-- name, connections, users, realusers, bytes, arts, postbytes, postarts''])"

primrec say_profiles :: "nat list \<Rightarrow> unit io" where
  "say_profiles [] = ret ()"
| "say_profiles (i # is) =
     bnd (asks (\<lambda>w. m_profiles (w_m w) ! i)) (\<lambda>pf. thn (writeclient (profile_line pf @ CRLF)) (say_profiles is))"

primrec say_servers :: "nat list \<Rightarrow> unit io" where
  "say_servers [] = ret ()"
| "say_servers (i # is) =
     bnd (asks (\<lambda>w. m_servers (w_m w) ! i)) (\<lambda>s. thn (writeclient (server_line s)) (say_servers is))"

section \<open>Files\<close>

definition write_file :: "string \<Rightarrow> string list \<Rightarrow> unit io" where
  \<comment> \<open>written under a temporary name of 256 bytes with the process id, then renamed\<close>
  "write_file name ls =
     bnd (asks (\<lambda>w. length (name @ ''.'' @ int_str (e_pid (w_env w))))) (\<lambda>n.
     if MAX_STRING \<le> n then crash else upd (\<lambda>w. w\<lparr>w_files := w_files w @ [(name, concat (map (\<lambda>l. l @ [LF]) ls))]\<rparr>))"

definition stats_text :: "world \<Rightarrow> string list" where
  "stats_text w = head_lines w @ map profile_line (m_profiles (w_m w))
     @ [''-- Server connections:''] @ map server_line (m_servers (w_m w))"

definition cmdstatistics_writestats :: "unit io" where
  "cmdstatistics_writestats =
     bnd (asks (\<lambda>w. (cf_StatsFile (cfg w), stats_text w))) (\<lambda>(f, ls). write_file f ls)"

definition quoted :: "string \<Rightarrow> string" where
  "quoted s = [QUOTE] @ s @ [QUOTE]"

definition client_line :: "int \<Rightarrow> master_t \<Rightarrow> client_t \<Rightarrow> string option" where
  "client_line t m c =
     map_option (\<lambda>p. int_str (signed_take_bit 31 (int (c_id c))) @ '' h='' @ quoted (c_hostname c) @ '' r='' @ quoted (p_Name (m_profiles m ! p))
       @ '' s='' @ quoted (int_str (signed_take_bit 31 (t - c_connectsince c)))
       @ '' u='' @ quoted (if c_authenticated c then c_username c else []) @ '' P='' @ quoted (int_str (c_pid c))) (c_profile c)"

definition cmdstatistics_write :: "unit io" where
  "cmdstatistics_write =
     bnd (asks (\<lambda>w. (cf_ConnDumpFile (cfg w), map (client_line (now w) (w_m w)) (filter c_inuse (m_clients (w_m w)))))) (\<lambda>(f, ls).
     if None \<in> set ls then crash else write_file f (map the ls))"

definition cmdstatistics :: "string \<Rightarrow> unit io" where
  "cmdstatistics opt =
     bnd (asks cl) (\<lambda>c. deref (c_acl c) (\<lambda>l. bnd (asks (\<lambda>w. acl_stats (m_acls (w_m w) ! l))) (\<lambda>st.
     if \<not> st then bnd (swriteclient ''500 Unsupported'') (\<lambda>_. ret ())
     else thn semlock_lock
       (thn (if strcaseeq opt ''write'' then cmdstatistics_write else ret ())
       (thn (if strcaseeq opt ''pdump''
             then deref (c_profile c) (\<lambda>p. deref (c_user c) (\<lambda>u.
               thn (writeclient (''100 Profile Dump'' @ CRLF)) (thn (cmdstatistics_pdump p) (cmdstatistics_user u))))
             else bnd (asks (\<lambda>w. (head_lines w, [0..<length (m_profiles (w_m w))], [0..<length (m_servers (w_m w))]))) (\<lambda>(hs, ps, ss).
               thn (writeclient (''100 Statistics'' @ CRLF))
               (thn (say_all hs) (thn (say_profiles ps) (thn (swriteclient ''-- Server connections:'') (say_servers ss))))))
       (thn (writeclient ''.'') semlock_unlock))))))"

text \<open>The counters of a profile as the file of the last run has them; its numbers have no sign.\<close>

definition ull :: "string \<Rightarrow> nat" where
  "ull s = min (2 ^ 64 - 1) (digits_acc 0 s)"

definition stats_fmt :: "conv list" where
  "stats_fmt = [FLit ''profile'', FWs, FStr (Some 255), FWs, FInt None, FWs, FInt None, FWs, FInt None, FWs, FCls isdigit_c None, FWs, FCls isdigit_c None]"

definition stats_line :: "string \<Rightarrow> master_t \<Rightarrow> master_t outcome" where
  "stats_line b m =
     (let vs = sscanf stats_fmt b; n = sv vs 0 [] in
      if chr_at b 0 \<in> {CR, LF, CHR ''#'', CHR '';'', CHR ''-''} then Ok m
      else if 1 \<le> sscanf_ret stats_fmt b \<and> MAX_NAME \<le> length n then Undef
      else if sscanf_ret stats_fmt b \<noteq> 6 then Ok m
      else (case getprofile n m of
              None \<Rightarrow> Ok m
            | Some p \<Rightarrow> Ok (update_profile p (\<lambda>q. q\<lparr>p_bytes := ull (sv vs 4 []), p_articles := ull (sv vs 5 [])\<rparr>) m)))"

primrec stats_lines :: "string list \<Rightarrow> master_t \<Rightarrow> master_t outcome" where
  "stats_lines [] m = Ok m"
| "stats_lines (b # bs) m = obind (stats_line b m) (stats_lines bs)"

definition cmdstatistics_loadfile :: "files \<Rightarrow> cfg_t \<Rightarrow> master_t \<Rightarrow> master_t outcome" where
  "cmdstatistics_loadfile fs cf m = (case fs (cf_StatsFile cf) of None \<Rightarrow> Ok m | Some ls \<Rightarrow> stats_lines ls m)"

definition load_statsfile :: "files \<Rightarrow> cfg_t \<Rightarrow> int option \<Rightarrow> int \<Rightarrow> master_t \<Rightarrow> master_t outcome" where
  \<comment> \<open>the time of the last change of the file, when there is one, and the time now\<close>
  "load_statsfile fs cf mtime t m =
     (case mtime of None \<Rightarrow> Ok m | Some f \<Rightarrow> if t - cf_StatsFilePeriod cf < f then cmdstatistics_loadfile fs cf m else Ok m)"

section \<open>Byte counts for the web service\<close>

text \<open>The counts are set back to 0 before the service is asked to take them.\<close>

definition take_client_bytes :: "client_t list \<Rightarrow> (string \<times> nat) list \<times> client_t list" where
  "take_client_bytes cs =
     (map (\<lambda>c. (if c_authenticated c then c_username c else c_hostname c, c_rbytes c)) (filter c_inuse cs),
      map (\<lambda>c. if c_inuse c then c\<lparr>c_rbytes := 0\<rparr> else c) cs)"

definition take_profile_bytes :: "profile_t list \<Rightarrow> (string \<times> nat) list \<times> profile_t list" where
  "take_profile_bytes ps =
     (map (\<lambda>p. (p_Name p, p_rbytes p)) (filter (\<lambda>p. 0 < p_bytes p) ps),
      map (\<lambda>p. if 0 < p_bytes p then p\<lparr>p_rbytes := 0\<rparr> else p) ps)"

definition cmdstatistics_write_bytes_json :: "master_t \<Rightarrow> ((string \<times> nat) list \<times> (string \<times> nat) list) \<times> master_t" where
  "cmdstatistics_write_bytes_json m =
     (let (us, cs) = take_client_bytes (m_clients m); (ps, pfs) = take_profile_bytes (m_profiles m) in
      ((us, ps), m\<lparr>m_clients := cs, m_profiles := pfs\<rparr>))"

text \<open>One round of \<open>timer_loop\<close>, 10 seconds each; the sixth part of them writes.\<close>

definition timer_round :: "nat \<Rightarrow> nat io" where
  "timer_round n =
     thn (sleeping 10)
     (thn (if n mod 6 = 0
           then thn cmdstatistics_writestats (thn cmdstatistics_write
             (bnd (asks (\<lambda>w. cf_JSONRL (cfg w))) (\<lambda>j. if j then upd_m (\<lambda>m. snd (cmdstatistics_write_bytes_json m)) else ret ())))
           else ret ())
     (ret (n + 1)))"

section \<open>Frames\<close>

context quiet_frame
begin

lemma say_all [session_ops]: "keeps R (say_all ls)"
  by (induction ls) (simp_all, (intro rules session_ops | assumption)+)

lemma say_rows [session_ops]: "keeps R (say_profiles is)" "keeps R (say_servers is)"
proof -
  show "keeps R (say_profiles is)" by (induction "is") (simp_all, (intro rules session_ops | assumption)+)
  show "keeps R (say_servers is)" by (induction "is") (simp_all, (intro rules session_ops | assumption)+)
qed

lemma write_file [session_ops]: "keeps R (write_file f ls)"
  unfolding write_file_def by (intro rules session_ops io_step; simp)

lemma statistics [session_ops]: "keeps R cmdstatistics_write" "keeps R (cmdstatistics opt)"
  unfolding cmdstatistics_def cmdstatistics_write_def cmdstatistics_pdump_def cmdstatistics_user_def Let_def
  by (intro rules session_ops)+

end


section \<open>The counters across a restart\<close>

lemma scan_ws_word: "w \<noteq> [] \<Longrightarrow> \<forall>c \<in> set w. \<not> isspace_c c \<Longrightarrow> scan (FWs # fs) (SP # w @ s) = scan fs (w @ s)"
  by (cases w) (auto simp: isspace_c_def)

lemma nat_str_word: "\<forall>c \<in> set (nat_str n). \<not> isspace_c c"
  using nat_str_digits isdigit_not_space by blast

lemma scan_number:
  assumes "\<not> isdigit_c c"
  shows "scan (FInt None # fs) (nat_str n @ c # s) = (IV (atoi (nat_str n)) # fst (scan fs (c # s)), snd (scan fs (c # s)))"
    and "scan (FCls isdigit_c None # fs) (nat_str n @ c # s) = (SV (nat_str n) # fst (scan fs (c # s)), snd (scan fs (c # s)))"
proof -
  have d: "dropWhile isspace_c (nat_str n @ c # s) = nat_str n @ c # s"
    using nat_str_word [of n] by (cases "nat_str n") auto
  have t: "int_token (nat_str n @ c # s) = nat_str n" using assms nat_str_digits by (intro int_token_digits) auto
  have w: "takeWhile isdigit_c (nat_str n @ c # s) = nat_str n" using assms nat_str_digits by (intro takeWhile_word) auto
  have e: "\<exists>x \<in> set (nat_str n). isdigit_c x" using nat_str_digits [of n] by (cases "nat_str n") auto
  show "scan (FInt None # fs) (nat_str n @ c # s) = (IV (atoi (nat_str n)) # fst (scan fs (c # s)), snd (scan fs (c # s)))"
    using e by (auto simp: d t at_most_def Let_def split: prod.splits)
  show "scan (FCls isdigit_c None # fs) (nat_str n @ c # s) = (SV (nat_str n) # fst (scan fs (c # s)), snd (scan fs (c # s)))"
    by (simp add: w at_most_def split: prod.splits)
qed

lemma scan_profile_line:
  assumes "p_Name pf \<noteq> []" and "\<forall>c \<in> set (p_Name pf). \<not> isspace_c c" and "length (p_Name pf) < MAX_NAME"
  shows "scan stats_fmt (profile_line pf @ [LF]) =
    ([SV (p_Name pf), IV (atoi (nat_str (p_connections pf))), IV (atoi (nat_str (p_numusers pf))), IV (atoi (nat_str (p_realusers pf))),
      SV (nat_str (p_bytes pf)), SV (nat_str (p_articles pf))], False)"
proof -
  have sp: "\<not> isdigit_c SP" "isspace_c SP" by (simp_all add: isdigit_c_def isspace_c_def code_def)
  show ?thesis unfolding stats_fmt_def profile_line_def append_assoc
    using assms sp
    by (simp add: scan_ws_word [OF assms(1,2)] scan_ws_word [OF nat_str_nonempty nat_str_word] scan_word MAX_NAME_def scan_number
        del: scan.simps(2) scan.simps(4) scan.simps(5) scan.simps(7))
qed

definition countable_profile :: "profile_t \<Rightarrow> bool" where
  "countable_profile pf \<longleftrightarrow> p_Name pf \<noteq> [] \<and> (\<forall>c \<in> set (p_Name pf). \<not> isspace_c c) \<and> length (p_Name pf) < MAX_NAME
     \<and> p_bytes pf < 2 ^ 64 \<and> p_articles pf < 2 ^ 64"

definition with_counters :: "profile_t \<Rightarrow> profile_t \<Rightarrow> profile_t" where
  "with_counters pf q = q\<lparr>p_bytes := p_bytes pf, p_articles := p_articles pf\<rparr>"

lemma ull_nat_str: "n < 2 ^ 64 \<Longrightarrow> ull (nat_str n) = n"
  by (simp add: ull_def digits_acc_nat_str)

lemma stats_line_profile:
  assumes "countable_profile pf"
  shows "stats_line (profile_line pf @ [LF]) m =
    Ok (case getprofile (p_Name pf) m of None \<Rightarrow> m | Some p \<Rightarrow> update_profile p (with_counters pf) m)"
proof -
  have n: "p_Name pf \<noteq> []" "\<forall>c \<in> set (p_Name pf). \<not> isspace_c c" "length (p_Name pf) < MAX_NAME"
    and b: "p_bytes pf < 2 ^ 64" "p_articles pf < 2 ^ 64" using assms by (simp_all add: countable_profile_def)
  let ?vs = "[SV (p_Name pf), IV (atoi (nat_str (p_connections pf))), IV (atoi (nat_str (p_numusers pf))), IV (atoi (nat_str (p_realusers pf))),
      SV (nat_str (p_bytes pf)), SV (nat_str (p_articles pf))]"
  have s: "sscanf stats_fmt (profile_line pf @ [LF]) = ?vs" "sscanf_ret stats_fmt (profile_line pf @ [LF]) = 6"
    using scan_profile_line [OF n] by (simp_all add: sscanf_def sscanf_ret_def)
  have v: "sv ?vs 0 [] = p_Name pf" "sv ?vs 4 [] = nat_str (p_bytes pf)" "sv ?vs 5 [] = nat_str (p_articles pf)" by (simp_all add: sv_def)
  have c: "chr_at (profile_line pf @ [LF]) 0 = CHR ''p''" by (simp add: profile_line_def chr_at_def)
  have w: "with_counters pf = (\<lambda>q. q\<lparr>p_bytes := p_bytes pf, p_articles := p_articles pf\<rparr>)" by (simp add: fun_eq_iff with_counters_def)
  show ?thesis using n(3) b
    by (cases "getprofile (p_Name pf) m") (simp_all add: stats_line_def s c Let_def v w ull_nat_str)
qed

lemma stats_line_other: "b \<noteq> [] \<Longrightarrow> b ! 0 \<noteq> CHR ''p'' \<Longrightarrow> stats_line b m = Ok m"
proof -
  assume b: "b \<noteq> []" "b ! 0 \<noteq> CHR ''p''"
  then have "take 7 b \<noteq> ''profile''" by (cases b) auto
  then have "fst (scan stats_fmt b) = []" by (simp add: stats_fmt_def eval_nat_numeral del: scan.simps(2,4,5,7))
  then have "sscanf_ret stats_fmt b < 1" by (cases "scan stats_fmt b") (simp add: sscanf_ret_def)
  then show ?thesis by (simp add: stats_line_def Let_def)
qed

lemma stats_lines_append: "stats_lines (xs @ ys) m = obind (stats_lines xs m) (stats_lines ys)"
proof (induction xs arbitrary: m)
  case (Cons x xs)
  then show ?case by (cases "stats_line x m") simp_all
qed simp

lemma stats_lines_other: "(\<And>b. b \<in> set bs \<Longrightarrow> b \<noteq> [] \<and> b ! 0 \<noteq> CHR ''p'') \<Longrightarrow> stats_lines bs m = Ok m"
  by (induction bs) (simp_all add: stats_line_other)

lemma update_named:
  assumes "distinct (map p_Name (m_profiles m))"
  shows "(case getprofile n m of None \<Rightarrow> m | Some p \<Rightarrow> update_profile p f m) =
    m\<lparr>m_profiles := map (\<lambda>q. if p_Name q = n then f q else q) (m_profiles m)\<rparr>"
proof (cases "getprofile n m")
  case None
  then have "map (\<lambda>q. if p_Name q = n then f q else q) (m_profiles m) = m_profiles m"
    by (intro map_idI) (auto simp: getprofile_def find_index_None)
  with None show ?thesis by simp
next
  case (Some p)
  then have p: "p < length (m_profiles m)" "p_Name (m_profiles m ! p) = n" by (auto simp: getprofile_def find_index_Some)
  have "p_Name (m_profiles m ! j) = n \<longleftrightarrow> j = p" if "j < length (m_profiles m)" for j
    using assms p that by (metis distinct_conv_nth length_map nth_map)
  then have "(m_profiles m)[p := f (m_profiles m ! p)] = map (\<lambda>q. if p_Name q = n then f q else q) (m_profiles m)"
    by (intro nth_equalityI) (auto simp: nth_list_update)
  with Some show ?thesis by (simp add: update_profile_def)
qed

lemma stats_lines_profiles:
  assumes "\<forall>pf \<in> set ps. countable_profile pf" and "distinct (map p_Name ps)" and "distinct (map p_Name (m_profiles m))"
  shows "stats_lines (map (\<lambda>pf. profile_line pf @ [LF]) ps) m =
    Ok (m\<lparr>m_profiles := map (\<lambda>q. case find (\<lambda>pf. p_Name pf = p_Name q) ps of None \<Rightarrow> q | Some pf \<Rightarrow> with_counters pf q) (m_profiles m)\<rparr>)"
  using assms
proof (induction ps arbitrary: m)
  case (Cons pf ps)
  let ?f = "\<lambda>q. if p_Name q = p_Name pf then with_counters pf q else q"
  let ?m = "m\<lparr>m_profiles := map ?f (m_profiles m)\<rparr>"
  let ?g = "\<lambda>ps q. case find (\<lambda>pf. p_Name pf = p_Name q) ps of None \<Rightarrow> q | Some pf \<Rightarrow> with_counters pf q"
  have n: "map p_Name (m_profiles ?m) = map p_Name (m_profiles m)" by (simp add: with_counters_def)
  have s: "stats_line (profile_line pf @ [LF]) m = Ok ?m"
    using Cons.prems by (simp add: stats_line_profile update_named)
  have "find (\<lambda>x. p_Name x = p_Name pf) ps = None"
    using Cons.prems(2) by (auto simp: find_None_iff image_iff)
  then have "?g ps (?f q) = ?g (pf # ps) q" for q
    by (cases "p_Name q = p_Name pf") (simp_all add: with_counters_def eq_commute [of "p_Name pf"])
  then have "map (?g ps) (m_profiles ?m) = map (?g (pf # ps)) (m_profiles m)" by simp
  moreover have "stats_lines (map (\<lambda>pf. profile_line pf @ [LF]) ps) ?m = Ok (?m\<lparr>m_profiles := map (?g ps) (m_profiles ?m)\<rparr>)"
  proof (rule Cons.IH)
    show "distinct (map p_Name (m_profiles ?m))" unfolding n by (rule Cons.prems(3))
  qed (use Cons.prems in simp_all)
  ultimately show ?case using s by simp
qed simp

section \<open>Properties\<close>

text \<open>C18: 
  The counters of the profiles survive a restart: from the file the timer wrote, a load with the same
  profiles sets the bytes and the articles of every profile to what they were. What it leaves alone are
  the counters of the posts, although the file has them.
\<close>

theorem stats_survive_restart:
  assumes "fs (cf_StatsFile cf) = Some (map (\<lambda>l. l @ [LF]) (stats_text w))" and "t - cf_StatsFilePeriod cf < mtime"
    and "\<forall>pf \<in> set (m_profiles (w_m w)). countable_profile pf" and "distinct (map p_Name (m_profiles (w_m w)))"
    and "map p_Name (m_profiles m) = map p_Name (m_profiles (w_m w))"
  shows "\<exists>m'. load_statsfile fs cf (Some mtime) t m = Ok m'
    \<and> map p_bytes (m_profiles m') = map p_bytes (m_profiles (w_m w)) \<and> map p_articles (m_profiles m') = map p_articles (m_profiles (w_m w))
    \<and> map p_postbytes (m_profiles m') = map p_postbytes (m_profiles m)"
proof -
  let ?ps = "m_profiles (w_m w)"
  let ?f = "\<lambda>q. case find (\<lambda>pf. p_Name pf = p_Name q) ?ps of None \<Rightarrow> q | Some pf \<Rightarrow> with_counters pf q"
  have h: "stats_lines (map (\<lambda>l. l @ [LF]) (head_lines w)) m = Ok m" for m
    by (rule stats_lines_other) (auto simp: head_lines_def Let_def)
  have s: "stats_lines (map (\<lambda>l. l @ [LF]) (''-- Server connections:'' # map server_line (m_servers (w_m w)))) m = Ok m" for m
    by (rule stats_lines_other) (auto simp: server_line_def)
  have l: "load_statsfile fs cf (Some mtime) t m = Ok (m\<lparr>m_profiles := map ?f (m_profiles m)\<rparr>)"
  proof -
    have "distinct (map p_Name (m_profiles m))" using assms(4,5) by simp
    note ps = stats_lines_profiles [OF assms(3,4) this]
    have "load_statsfile fs cf (Some mtime) t m = stats_lines (map (\<lambda>l. l @ [LF]) (stats_text w)) m"
      using assms(1,2) by (simp add: load_statsfile_def cmdstatistics_loadfile_def)
    also have "map (\<lambda>l. l @ [LF]) (stats_text w) = map (\<lambda>l. l @ [LF]) (head_lines w) @ map (\<lambda>pf. profile_line pf @ [LF]) ?ps
        @ map (\<lambda>l. l @ [LF]) (''-- Server connections:'' # map server_line (m_servers (w_m w)))"
      by (simp add: stats_text_def)
    finally show ?thesis by (simp only: stats_lines_append h s ps obind.simps)
  qed
  have "find (\<lambda>pf. p_Name pf = p_Name (m_profiles m ! i)) ?ps = Some (?ps ! i)" if "i < length ?ps" for i
  proof -
    have len: "length (m_profiles m) = length ?ps" using assms(5) by (metis length_map)
    have n: "p_Name (m_profiles m ! i) = p_Name (?ps ! i)" using assms(5) that len by (metis nth_map)
    have "p_Name (?ps ! j) \<noteq> p_Name (?ps ! i)" if "j < i" for j
      using nth_eq_iff_index_eq [OF assms(4), of j i] that \<open>i < length ?ps\<close> by simp
    with n that show ?thesis by (auto simp: find_Some_iff)
  qed
  then have f: "?f (m_profiles m ! i) = with_counters (?ps ! i) (m_profiles m ! i)" if "i < length ?ps" for i using that by simp
  have len: "length (m_profiles m) = length ?ps" using assms(5) by (metis length_map)
  have "map p_bytes (map ?f (m_profiles m)) = map p_bytes ?ps" "map p_articles (map ?f (m_profiles m)) = map p_articles ?ps"
    "map p_postbytes (map ?f (m_profiles m)) = map p_postbytes (m_profiles m)"
    by (intro nth_equalityI; simp add: len f with_counters_def)+
  moreover have p: "m_profiles (m\<lparr>m_profiles := ps\<rparr>) = ps" for ps by simp
  ultimately show ?thesis unfolding l by (intro exI [of _ "m\<lparr>m_profiles := map ?f (m_profiles m)\<rparr>"]) (simp only: p simp_thms)
qed

definition counted_world :: world where
  "counted_world = sample_world\<lparr>w_m := sample_master\<lparr>m_profiles := [zero_profile\<lparr>p_Name := ''default'', p_bytes := 12345678901, p_articles := 7\<rparr>,
     zero_profile\<lparr>p_Name := ''staff'', p_bytes := 5\<rparr>]\<rparr>\<rparr>"

definition stats_files :: files where
  "stats_files = (\<lambda>f. if f = ''stats'' then Some (map (\<lambda>l. l @ [LF]) (stats_text counted_world)) else None)"

theorem stats_survive_restart_witness:
  "\<exists>m'. load_statsfile stats_files (quiet_cfg\<lparr>cf_StatsFile := ''stats'', cf_StatsFilePeriod := 60\<rparr>) (Some 100) 120
       (sample_master\<lparr>m_profiles := [zero_profile\<lparr>p_Name := ''default''\<rparr>, zero_profile\<lparr>p_Name := ''staff''\<rparr>]\<rparr>) = Ok m'
     \<and> map p_bytes (m_profiles m') = [12345678901, 5] \<and> map p_articles (m_profiles m') = [7, 0]"
proof -
  let ?cf = "quiet_cfg\<lparr>cf_StatsFile := ''stats'', cf_StatsFilePeriod := 60\<rparr>"
  let ?m = "sample_master\<lparr>m_profiles := [zero_profile\<lparr>p_Name := ''default''\<rparr>, zero_profile\<lparr>p_Name := ''staff''\<rparr>]\<rparr>"
  have f: "stats_files (cf_StatsFile ?cf) = Some (map (\<lambda>l. l @ [LF]) (stats_text counted_world))" by (simp add: stats_files_def)
  have t: "(120::int) - cf_StatsFilePeriod ?cf < 100" by simp
  have c: "\<forall>pf \<in> set (m_profiles (w_m counted_world)). countable_profile pf" "distinct (map p_Name (m_profiles (w_m counted_world)))"
    "map p_Name (m_profiles ?m) = map p_Name (m_profiles (w_m counted_world))"
    by (simp_all add: counted_world_def countable_profile_def MAX_NAME_def isspace_c_def code_def zero_profile_def)
  have b: "map p_bytes (m_profiles (w_m counted_world)) = [12345678901, 5]" "map p_articles (m_profiles (w_m counted_world)) = [7, 0]"
    by (simp_all add: counted_world_def zero_profile_def)
  from stats_survive_restart [of stats_files ?cf counted_world 120 100 ?m, OF f t c]
  obtain m' where "load_statsfile stats_files ?cf (Some 100) 120 ?m = Ok m'"
    and "map p_bytes (m_profiles m') = [12345678901, 5]" "map p_articles (m_profiles m') = [7, 0]"
    unfolding b by (elim exE conjE) (rule that)
  then show ?thesis by (intro exI conjI)
qed

end
