(* ===== verification/Nntpd.thy ===== *)
theory Nntpd
  imports Post Statistics
begin

text \<open>
  \<open>nntpd.c\<close>: the table of the commands, the parser that runs a command, and the life of the process of a
  client from the accepted connection to the end of its slot.
\<close>

section \<open>The table of the commands\<close>

definition commands :: "cmdinfo list" where
  "commands =
     map (\<lambda>(s, n, auth, acct, lim). \<lparr>ci_command = s, ci_num = n, ci_auth = auth, ci_acct = acct, ci_limit = lim\<rparr>)
     [(Some ''MODE'', cmd_mode, True, False, False),
      (Some ''SLAVE'', cmd_slave, False, False, False),
      (Some ''AUTHINFO'', cmd_authinfo, False, False, False),
      (Some ''LIST'', cmd_list, True, False, False),
      (Some ''XGTITLE'', cmd_xgtitle, True, False, False),
      (Some ''GROUP'', cmd_group, True, False, False),
      (Some ''LISTGROUP'', cmd_listgroup, True, False, False),
      (Some ''NEWGROUPS'', cmd_newgroups, True, False, False),
      (Some ''OVER'', cmd_over, True, False, False),
      (Some ''XOVER'', cmd_xover, True, False, False),
      (Some ''XZVER'', cmd_xzver, True, False, False),
      (Some ''XHDR'', cmd_xhdr, True, False, False),
      (Some ''XZHDR'', cmd_xzhdr, True, False, False),
      (Some ''XPAT'', cmd_xpat, True, False, False),
      (Some ''NEWNEWS'', cmd_newnews, True, False, False),
      (Some ''STAT'', cmd_stat, True, False, False),
      (Some ''HEAD'', cmd_head, True, True, True),
      (Some ''BODY'', cmd_body, True, True, True),
      (Some ''ARTICLE'', cmd_article, True, True, True),
      (Some ''POST'', cmd_post, True, False, False),
      (Some ''NEXT'', cmd_next, True, False, False),
      (Some ''LAST'', cmd_last, True, False, False),
      (Some ''HELP'', cmd_help, False, False, False),
      (Some ''DATE'', cmd_date, False, False, False),
      (Some ''QUIT'', cmd_quit, False, False, False),
      (Some ''STATISTICS'', cmd_statistics, False, False, False),
      (Some ''IHAVE'', cmd_ihave, False, False, False),
      (Some ''GET'', cmd_http, False, False, False),
      (None, cmd_unsupported, False, False, False)]"

definition find_command :: "string \<Rightarrow> nat" where
  "find_command a0 =
     (case find_index (\<lambda>c. case ci_command c of None \<Rightarrow> True | Some n \<Rightarrow> strcaseeq a0 n) commands of
        None \<Rightarrow> length commands - 1 | Some i \<Rightarrow> i)"

section \<open>Handlers\<close>

text \<open>A command goes on with a value, the exit of its process is \<open>None\<close>.\<close>

definition stop :: "int option io" where
  \<comment> \<open>\<open>client_quit (); close_child (true); _exit (0)\<close>\<close>
  "stop = thn client_quit (thn (end_child True) (ret None))"

definition return :: "int io \<Rightarrow> int option io" where
  "return m = bnd m (\<lambda>i. ret (Some i))"

definition client_error :: "string \<Rightarrow> int option io" where
  "client_error txt = thn (writeclient (''502 '' @ txt @ CRLF)) (thn (end_child True) (ret None))"

definition counters :: "client_t \<Rightarrow> string" where
  "counters c = ''articles '' @ nat_str (c_articles c) @ '', bytes '' @ nat_str (c_bytes c) @ '', groups '' @ nat_str (c_groups c)
     @ '', posts '' @ nat_str (c_posts c) @ '', postbytes '' @ nat_str (c_postbytes c) @ CRLF"

definition MSG_NOGROUP :: string where "MSG_NOGROUP = ''412 No group selected''"
definition MSG_UNSUPPORTED :: string where "MSG_UNSUPPORTED = ''500 Unsupported''"
definition MSG_AUTHREQUIRED :: string where "MSG_AUTHREQUIRED = ''480 Authentication Required''"

definition helptxt :: string where
  "helptxt = concat (map (\<lambda>l. l @ CRLF)
     [''100 Supported Commands'', ''   MODE READER'', ''   AUTHINFO USER <username>'', ''   AUTHINFO PASS <password>'',
      ''   LIST <active|newsgroups|overview.fmt|active.times> <pattern>'', ''   XGTITLE <pattern>'', ''   GROUP <newsgroup>'',
      ''   LISTGROUP <newsgroup>'', ''   NEWGROUPS <yy><yymmdd> <hhmmss>'', ''   OVER <range|msgid>'', ''   XOVER <range|msgid>'',
      ''   XZVER <range|msgid>'', ''   XHDR <header> <range|msgid>'', ''   XZHDR <header> <range|msgid>'',
      ''   XPAT <header> <range|msgid> <pattern> <pattern..>'', ''   NEWNEWS <newsgroup> <yymmdd> <hhmmss> <gmt|utc>'',
      ''   STAT <msgid|number>'', ''   HEAD <msgid|number>'', ''   BODY <msgid|number>'', ''   ARTICLE <msgid|number>'',
      ''   POST'', ''   NEXT'', ''   LAST'', ''   HELP'', ''   DATE'', ''   QUIT'',
      ''The NEWNEWS command is only partly supported for single newsgroups only.'', ''''])"

definition do_quit :: "int option io" where
  "do_quit = bnd (asks cl) (\<lambda>c. thn (writeclient (''205 Exit '' @ counters c)) stop)"

definition do_mode :: "string \<Rightarrow> int io" where
  "do_mode a1 =
     (if strcaseeq a1 ''reader''
      then bnd (asks cl) (\<lambda>c.
        let sure = bnd (asks (\<lambda>w. c_posting (cl w))) (\<lambda>p. writeclient (if p then ''200 Sure!'' @ CRLF else ''201 Sure!'' @ CRLF)) in
        if c_connected c
        then bnd (writeserver (''MODE READER'' @ CRLF)) (\<lambda>ok. if \<not> ok then ret 1 else
             bnd (readserver 512 (MAX_SERVERRSP - 1)) (\<lambda>r. case r of None \<Rightarrow> ret 1 | Some b \<Rightarrow>
             if 299 < atoi b
             then bnd (asks cl) (\<lambda>c. deref (c_currserver c) (\<lambda>_. thn (format_reply b) (ret 1)))
             else sure))
        else sure)
      else swriteclient ''500 Unsupported MODE command'')"

definition do_listgroup :: "string \<Rightarrow> string \<Rightarrow> cmdinfo \<Rightarrow> int io" where
  "do_listgroup a0 a1 cmd =
     (if a1 \<noteq> []
      then bnd (group a1 True) (\<lambda>r. if r = 0 then passcmd a0 a1 cmd else swriteclient MSG_NOSUCHGROUP)
      else bnd (asks cl) (\<lambda>c. if c_group c = None then swriteclient MSG_NOGROUP else passcmd a0 [] cmd))"

definition do_over :: "string \<Rightarrow> string \<Rightarrow> cmdinfo \<Rightarrow> int io" where
  "do_over a0 a1 cmd =
     bnd (asks (\<lambda>w. (cl w, m_active (w_m w)))) (\<lambda>(c, as).
     case c_group c of
       None \<Rightarrow> swriteclient MSG_NOGROUP
     | Some g \<Rightarrow> thn (if c_groupserver c = None then bnd (group (a_newsgroup (as ! g)) True) (\<lambda>_. ret ()) else ret ()) (passcmd a0 a1 cmd))"

definition do_xhdr :: "string \<Rightarrow> string \<Rightarrow> string \<Rightarrow> cmdinfo \<Rightarrow> int io" where
  \<comment> \<open>the header that is looked up is the whole command line when the command names none\<close>
  "do_xhdr buf a0 a1 cmd =
     bnd (asks (\<lambda>w. (cl w, cfg w, w_overview w))) (\<lambda>(c, cf, ov).
     let fmt = [FCls (\<lambda>c. \<not> (eol c \<or> blank c)) (Some 128)] in
     if c_group c = None then swriteclient MSG_NOGROUP
     else if cf_DenyNoIndexField cf \<and> \<not> isinoverviewfmt (sv (sscanf fmt a1) 0 buf) ov
          then swriteclient ''501 Sorry, your search for this header type has been disabled''
     else passcmd a0 a1 cmd)"

definition do_article :: "string \<Rightarrow> string \<Rightarrow> cmdinfo \<Rightarrow> int io" where
  "do_article a0 a1 cmd =
     bnd (catch_art_server a1) (\<lambda>ok.
     if \<not> ok then ret 0
     else thn (if ci_num cmd = cmd_head then ret ()
               else thn (upd_cl (\<lambda>c. c\<lparr>c_articles := uint_inc (c_articles c), c_serverarts := uint_inc (c_serverarts c),
                           c_grouparts := uint_inc (c_grouparts c)\<rparr>))
                 (bnd (asks cl) (\<lambda>c. deref (c_profile c) (\<lambda>p.
                  upd_m (update_profile p (\<lambda>q. q\<lparr>p_articles := add64 (p_articles q) 1\<rparr>))))))
       (passcmd a0 a1 cmd))"

text \<open>A name that is not given is that of the command itself.\<close>

definition do_newnews :: "string \<Rightarrow> string \<Rightarrow> cmdinfo \<Rightarrow> int io" where
  "do_newnews a0 a1 cmd =
     (let g = sv (sscanf [FCls (\<lambda>c. \<not> (eol c \<or> blank c)) (Some 256)] a1) 0 a0 in
      if g = ''newnews'' \<or> CHR ''*'' \<in> set g \<or> CHR ''!'' \<in> set g
      then swriteclient ''501 NEWNEWS only supports single newsgroup names''
      else bnd (group g True) (\<lambda>r. if r = 0 then passcmd ''NEWNEWS'' a1 cmd else swriteclient MSG_NOSUCHGROUP))"

definition one_line :: "string \<Rightarrow> string \<Rightarrow> int option io" where
  \<comment> \<open>a command whose answer is one line\<close>
  "one_line a0 a1 =
     bnd (writeserver (a0 @ '' '' @ a1 @ CRLF)) (\<lambda>ok.
     bnd (asks (\<lambda>w. cf_BufSize (cfg w))) (\<lambda>sz.
     bnd (readserver (sz + 1) 256) (\<lambda>r.
     case r of
       None \<Rightarrow> client_error ''Remote Server Timeout''
     | Some b \<Rightarrow>
         if \<not> ok \<or> b = [] then thn (swriteclient MSG_SERVER_DOWN) (thn quiet_disconnect_server (ret (Some 0)))
         else return (swriteclient b))))"

definition do_unsupported :: "nat \<Rightarrow> int option io" where
  "do_unsupported i =
     bnd (asks (\<lambda>w. (w_usecount w i, cf_DropUnknown (cfg w)))) (\<lambda>(n, d).
     if u32 d \<le> n then thn (writeclient (''500 Dropped after '' @ int_str d @ '' invalid commands'')) stop
     else return (swriteclient MSG_UNSUPPORTED))"

fun run_command :: "nat \<Rightarrow> string \<Rightarrow> string \<Rightarrow> string \<Rightarrow> cmdnum \<Rightarrow> int option io" where
  "run_command i buf a0 a1 n =
     (let cmd = commands ! i in
      case n of
        cmd_quit \<Rightarrow> do_quit
      | cmd_http \<Rightarrow> thn (swriteclient ''500 Disconnected due to HTTP command'') stop
      | cmd_help \<Rightarrow> return (bnd (asks (\<lambda>w. e_version (w_env w))) (\<lambda>v.
          writeclient (helptxt @ ''NNTPSwitch-'' @ v @ '' (c) Tommy van Leeuwen and contributors 2002-2012'' @ CRLF @ ''.'' @ CRLF)))
      | cmd_date \<Rightarrow> thn send_date (ret (Some 0))
      | cmd_mode \<Rightarrow> return (do_mode a1)
      | cmd_slave \<Rightarrow> return (swriteclient ''202 Sure!'')
      | cmd_authinfo \<Rightarrow> return (cmdauthinfo a1)
      | cmd_list \<Rightarrow> return (cmdlist a1)
      | cmd_xgtitle \<Rightarrow> return (cmdxgtitle a1)
      | cmd_group \<Rightarrow> thn (group a1 False) (ret (Some 0))
      | cmd_newgroups \<Rightarrow> thn (newgroups a1) (ret (Some 0))
      | cmd_listgroup \<Rightarrow> return (do_listgroup a0 a1 cmd)
      | cmd_over \<Rightarrow> return (do_over a0 a1 cmd)
      | cmd_xover \<Rightarrow> return (do_over a0 a1 cmd)
      | cmd_xzver \<Rightarrow> return (do_over a0 a1 cmd)
      | cmd_xpat \<Rightarrow> return (do_xhdr buf a0 a1 cmd)
      | cmd_xhdr \<Rightarrow> return (do_xhdr buf a0 a1 cmd)
      | cmd_xzhdr \<Rightarrow> return (do_xhdr buf a0 a1 cmd)
      | cmd_head \<Rightarrow> return (do_article a0 a1 cmd)
      | cmd_article \<Rightarrow> return (do_article a0 a1 cmd)
      | cmd_body \<Rightarrow> return (do_article a0 a1 cmd)
      | cmd_newnews \<Rightarrow> return (do_newnews a0 a1 cmd)
      | cmd_stat \<Rightarrow> bnd (catch_art_server a1) (\<lambda>ok. if ok then one_line a0 a1 else ret (Some 0))
      | cmd_last \<Rightarrow> bnd (asks cl) (\<lambda>c. if c_group c = None then return (swriteclient MSG_NOGROUP) else one_line a0 a1)
      | cmd_next \<Rightarrow> bnd (asks cl) (\<lambda>c. if c_group c = None then return (swriteclient MSG_NOGROUP) else one_line a0 a1)
      | cmd_post \<Rightarrow> bnd (asks cl) (\<lambda>c. return (if c_posting c then post else swriteclient MSG_NOPOSTING))
      | cmd_ihave \<Rightarrow> bnd (asks cl) (\<lambda>c. deref (c_profile c) (\<lambda>p. bnd (asks (\<lambda>w. p_Slave (m_profiles (w_m w) ! p))) (\<lambda>sl.
          return (if sl = 0 then swriteclient MSG_UNSUPPORTED else ihave a1))))
      | cmd_unsupported \<Rightarrow> do_unsupported i
      | cmd_statistics \<Rightarrow> thn (cmdstatistics a1) (ret (Some 0)))"

section \<open>Parsing a command\<close>

definition must_login :: "cmdinfo \<Rightarrow> bool io" where
  "must_login cmd =
     (if ci_auth cmd
      then bnd (asks cl) (\<lambda>c. deref (c_acl c) (\<lambda>l. asks (\<lambda>w. acl_auth (m_acls (w_m w) ! l) \<and> \<not> c_authenticated c)))
      else ret False)"

definition drop_postsock :: "cmdinfo \<Rightarrow> unit io" where
  "drop_postsock cmd =
     bnd (asks cl) (\<lambda>c.
     if ci_num cmd \<noteq> cmd_post \<and> 0 < c_postsock c
     then thn (close_fd (c_postsock c)) (upd_cl (\<lambda>c. c\<lparr>c_postsock := 0\<rparr>)) else ret ())"

definition split_command :: "string \<Rightarrow> string \<times> string" where
  "split_command buf =
     (let fmt = [FCls (\<lambda>c. \<not> (eol c \<or> blank c)) (Some 31), FWs, FCls (\<lambda>c. \<not> eol c) (Some 480)] in
      (sv (sscanf fmt buf) 0 [], sv (sscanf fmt buf) 1 []))"

definition parsecmd :: "string \<Rightarrow> int option io" where
  "parsecmd buf =
     (case split_command buf of (a0, a1) \<Rightarrow>
      if a0 = [] then ret (Some 0)
      else let i = find_command a0; cmd = commands ! i in
        thn (upd (\<lambda>w. (set_cl (\<lambda>c. c\<lparr>c_command := Some i\<rparr>) w)\<lparr>w_usecount := (w_usecount w)(i := uint_inc (w_usecount w i))\<rparr>))
        (bnd (must_login cmd) (\<lambda>b.
         if b then return (swriteclient MSG_AUTHREQUIRED)
         else thn (drop_postsock cmd) (run_command i buf a0 a1 (ci_num cmd)))))"

section \<open>The process of a client\<close>

text \<open>The loop over the commands: how it ended, with a line that could be read or not, or by an exit.\<close>

definition session_lives :: "bool io" where
  "session_lives =
     bnd (asks cl) (\<lambda>c. deref (c_user c) (\<lambda>u.
     asks (\<lambda>w. now w - int (c_starttime c) < u_timeleft (m_users (w_m w) ! u) \<and> 0 \<le> u_bytesleft (m_users (w_m w) ! u))))"

partial_function (option) session_loop :: "bool \<Rightarrow> world \<Rightarrow> (bool option \<times> world) outcome option" where
  "session_loop noline w =
     bnd (asks cl) (\<lambda>c.
     if c_error c \<noteq> 0 then ret (Some noline)
     else bnd (bnd (asks (\<lambda>w. cf_BufSize (cfg w))) (\<lambda>sz. readclient sz False)) (\<lambda>l.
       case l of
         None \<Rightarrow> ret (Some True)
       | Some b \<Rightarrow>
           bnd session_lives (\<lambda>ok.
           if \<not> ok then ret (Some False)
           else bnd (parsecmd b) (\<lambda>r.
             case r of None \<Rightarrow> ret None | Some i \<Rightarrow> if i \<noteq> 0 then ret (Some False) else session_loop False)))) w"

declare session_loop.simps [code]

definition farewell :: "bool \<Rightarrow> unit io" where
  \<comment> \<open>the last words to the client\<close>
  "farewell noline =
     bnd (asks (\<lambda>w. (cl w, now w, e_errno (w_env w)))) (\<lambda>(c, t, en).
     if 0 < c_error c then ret ()
     else deref (c_user c) (\<lambda>u. deref (c_profile c) (\<lambda>p.
       bnd (asks (\<lambda>w. (m_users (w_m w) ! u, int_str (p_ClientReadTimeout (m_profiles (w_m w) ! p))))) (\<lambda>(us, rt).
       if u_bytesleft us < 0 then thn (swriteclient ''400 Session Byte Limit Reached (please reconnect)'') (ret ())
       else if u_timeleft us \<le> t - int (c_starttime c)
            then thn (swriteclient ''400 Session Time Limit Reached (please reconnect)'') (ret ())
       else if noline \<and> c_timeout c = 1
            then thn (writeclient (''205 Timeout after '' @ rt @ '' seconds, '' @ counters c)) (ret ())
       else if en then thn (writeclient (''205 Timeout/Error '' @ counters c)) (ret ())
       else ret ()))))"

definition leave_session :: "unit io" where
  "leave_session =
     bnd (asks cl) (\<lambda>c.
     thn (if 0 < c_postsock c
          then thn (upd_cl (\<lambda>c. c\<lparr>c_serversock := c_postsock c\<rparr>))
            (thn disconnect_server (upd_cl (\<lambda>d. d\<lparr>c_serversock := c_serversock c\<rparr>)))
          else ret ())
     (thn client_quit (end_child True)))"

definition banner :: "client_t \<Rightarrow> vhost_t \<Rightarrow> world \<Rightarrow> string" where
  "banner c vh w =
     (let status = (if c_posting c then ''200 '' else ''201 '') in
      if v_ReplaceBanner vh = 1 then status @ v_Banner vh
      else status @ v_Banner vh @ '' NNTPSwitch-'' @ e_version (w_env w) @ '', '' @ nat_str (length (m_active (w_m w)))
        @ '' groups available, '' @ (if c_posting c then ''posting allowed'' else ''no posting'')
        @ '', slot '' @ nat_str (c_id c + 1) @ '', connections '' @ nat_str (c_concur c) @ CRLF)"

definition talk :: "unit io" where
  \<comment> \<open>from the banner on\<close>
  "talk =
     bnd (asks cl) (\<lambda>c. deref (c_vhost c) (\<lambda>v.
     thn (bnd (asks (\<lambda>w. banner c (m_vhosts (w_m w) ! v) w)) writeclient)
     (bnd (session_loop True) (\<lambda>r.
      case r of None \<Rightarrow> ret () | Some noline \<Rightarrow> thn (farewell noline) leave_session))))"

text \<open>What a new session has to pass before it is greeted: the refusal, if any.\<close>

definition turn_away :: "int io \<Rightarrow> unit io" where
  "turn_away say = bnd (asks (\<lambda>w. cf_RetryDelay (cfg w))) (\<lambda>d. thn (sleeping d) (thn say (end_child True)))"

definition admit :: "unit io" where
  "admit =
     bnd (asks cl) (\<lambda>c.
     if c_user c = None then turn_away (swriteclient ''400 Sorry, server is full at the moment, try later'')
     else deref (c_user c) (\<lambda>u. deref (c_profile c) (\<lambda>p. deref (c_acl c) (\<lambda>l.
       bnd (asks (\<lambda>w. (m_profiles (w_m w) ! p, w_env w))) (\<lambda>(pf, env).
       if p_Disabled pf \<noteq> [] then turn_away (writeclient (''400 '' @ p_Disabled pf))
       else if c_useSSL c \<and> p_AllowSSL pf = 0
            then thn (swriteclient ''502 SSL connection is disabled for this user'') (end_child True)
       else if cf_SockBufSize (e_cfg env) \<noteq> 0 \<and> \<not> e_sndbuf env then thn (client_error ''cant set so_sendbuf'') (ret ())
       else bnd (asks (\<lambda>w. (acl_unlimit (m_acls (w_m w) ! l), u_connections (m_users (w_m w) ! u), p_numusers (m_profiles (w_m w) ! p)))) (\<lambda>(unlimit, n, us).
         if \<not> unlimit \<and> u32 (p_MaxUserConcurrent pf) < n
         then turn_away (writeclient (''400 Too many concurrent connections, you are allowed '' @ int_str (p_MaxUserConcurrent pf) @ CRLF))
         else if u32 (p_MaxUsers pf) \<le> us then turn_away (swriteclient ''400 Too many users in your class'')
         else thn init_ratelimiter
           (thn (upd_m (update_user u (\<lambda>x. x\<lparr>u_MaxUserBPS := p_MaxUserBPS pf\<rparr>))) talk)))))))"

definition bind_core :: "unit io" where
  "bind_core =
     bnd (asks (\<lambda>w. (cf_CoreBind (cfg w), c_numcore (cl w), e_affinity (w_env w)))) (\<lambda>(b, n, ok).
     if b \<le> 0 then ret () else if n < 0 \<or> 32 \<le> n then crash else if ok then ret () else lift_o (Die ''Cant set CPU Affinity''))"

definition client_hostname :: "nat \<Rightarrow> env \<Rightarrow> string" where
  "client_hostname ip env =
     take 255 (if cf_DNSLookups (e_cfg env) then (case e_dns env ip of None \<Rightarrow> inet_ntoa ip | Some h \<Rightarrow> h) else inet_ntoa ip)"

definition start_session :: "unit io" where
  "start_session =
     bnd (asks cl) (\<lambda>c. deref (c_acl c) (\<lambda>l.
      bnd (asks (\<lambda>w. (m_acls (w_m w) ! l, w_env w, now w))) (\<lambda>(acl, env, t).
      thn (upd_cl (\<lambda>c. c\<lparr>c_errstr := None, c_group := None, c_groupserver := None, c_profile := acl_profile acl,
             c_posting := acl_post acl, c_connectsince := t, c_pid := e_pid env\<rparr>))
      (thn bind_core
      (deref (acl_profile acl) (\<lambda>p0.
       bnd (asks (\<lambda>w. case prof_iplookup p0 (c_ip4addr c) (w_m w) of None \<Rightarrow> p0 | Some f \<Rightarrow> f)) (\<lambda>p.
       thn (upd_cl (\<lambda>x. x\<lparr>c_profile := Some p, c_hostname := client_hostname (c_ip4addr c) env\<rparr>))
       (thn semlock_lock
       (thn (upd_m (update_profile p (\<lambda>q. q\<lparr>p_connections := uint_inc (p_connections q)\<rparr>)))
       (bnd (take_user (client_hostname (c_ip4addr c) env) p) (\<lambda>u.
        thn (upd_cl (\<lambda>c. c\<lparr>c_user := u\<rparr>))
        (thn semlock_unlock
        (case e_vhost env of
           None \<Rightarrow> end_child True
         | Some host \<Rightarrow>
             thn (upd (\<lambda>w. set_cl (\<lambda>c. c\<lparr>c_vhost := (case getvhost host (w_m w) of None \<Rightarrow> getvhost ''default'' (w_m w) | r \<Rightarrow> r)\<rparr>) w))
             (bnd (asks cl) (\<lambda>c.
              if c_useSSL c
              then deref (c_vhost c) (\<lambda>_. if e_ssl_accept env then admit else end_child True)
              else admit)))))))))))))))"

definition run_child :: "unit io" where
  "run_child =
     thn (upd_m (\<lambda>m. m\<lparr>m_nrforks := add64 (m_nrforks m) 1, m_connections := m_connections m + 1\<rparr>)) start_session"

section \<open>Frames\<close>

text \<open>
  A command that goes on leaves the session alive, one that exits has ended it: so a loop over commands
  does, and what follows the loop.
\<close>

definition command_ok :: "'a option io \<Rightarrow> bool" where
  "command_ok m \<longleftrightarrow> (\<forall>w r w'. m w = Some (Ok (r, w')) \<longrightarrow> (if r = None then ended w w' else own_slot w w' \<and> live w w'))"

lemma command_iff:
  "command_ok m \<longleftrightarrow> (\<forall>w x. m w = Some x \<longrightarrow> (case x of Ok (r, w') \<Rightarrow> if r = None then ended w w' else own_slot w w' \<and> live w w' | _ \<Rightarrow> True))"
  by (auto simp: command_ok_def split: outcome.splits)

lemma own_live_trans:
  "own_slot w w1 \<Longrightarrow> live w w1 \<Longrightarrow>
   (if b then ended w1 w' else own_slot w1 w' \<and> live w1 w') \<Longrightarrow> (if b then ended w w' else own_slot w w' \<and> live w w')"
proof -
  assume l: "own_slot w w1" "live w w1" and r: "if b then ended w1 w' else own_slot w1 w' \<and> live w1 w'"
  have "ended w w'" if "ended w1 w'"
    using that l live_in_slot [OF l(2)] own.trans [OF l(1)] by (auto simp: ended_def live_def)
  with r show ?thesis using own.trans [OF l(1)] live.trans [OF l(2)] by (auto split: if_splits)
qed

lemma ok_bnd: "keeps own_slot m \<Longrightarrow> keeps live m \<Longrightarrow> (\<And>a. command_ok (f a)) \<Longrightarrow> command_ok (bnd m f)"
  unfolding command_ok_def bnd_Ok by (blast dest: keepsD intro: own_live_trans)

lemma ok_thn: "keeps own_slot m \<Longrightarrow> keeps live m \<Longrightarrow> command_ok k \<Longrightarrow> command_ok (thn m k)"
  unfolding thn_def by (rule ok_bnd)

lemma ok_ret: "command_ok (ret (Some i))"
  by (simp add: command_ok_def ret_def own.refl live.refl)

lemma ok_crash: "command_ok crash"
  by (simp add: command_ok_def crash_def)

lemma ok_deref: "(\<And>x. command_ok (f x)) \<Longrightarrow> command_ok (deref p f)"
  by (cases p) (simp_all add: ok_crash)

lemma ok_if: "command_ok m \<Longrightarrow> command_ok k \<Longrightarrow> command_ok (if b then m else k)"
  by simp

lemma ok_case: "command_ok m \<Longrightarrow> (\<And>x. command_ok (f x)) \<Longrightarrow> command_ok (case p of None \<Rightarrow> m | Some x \<Rightarrow> f x)"
  by (cases p) simp_all

lemma ok_pair: "(\<And>x y. command_ok (f x y)) \<Longrightarrow> command_ok (case p of (x, y) \<Rightarrow> f x y)"
  by (cases p) simp

lemma ok_exit: "keeps ended m \<Longrightarrow> command_ok (thn m (ret None))"
  by (auto simp: command_ok_def keeps_def thn_Ok ret_def)

lemma ok_seq:
  assumes "command_ok m" and "\<And>i. command_ok (f i)"
  shows "command_ok (bnd m (\<lambda>r. case r of None \<Rightarrow> ret None | Some i \<Rightarrow> f i))"
proof (unfold command_ok_def bnd_Ok, intro allI impI, elim exE conjE)
  fix w r w' a w1
  assume m: "m w = Some (Ok (a, w1))" "(case a of None \<Rightarrow> ret None | Some i \<Rightarrow> f i) w1 = Some (Ok (r, w'))"
  have a: "if a = None then ended w w1 else own_slot w w1 \<and> live w w1" using assms(1) m(1) by (auto simp: command_ok_def)
  show "if r = None then ended w w' else own_slot w w' \<and> live w w'"
  proof (cases a)
    case None
    with a m(2) show ?thesis by (simp add: ret_def)
  next
    case (Some i)
    then have "if r = None then ended w1 w' else own_slot w1 w' \<and> live w1 w'"
      using assms(2) [of i] m(2) by (auto simp: command_ok_def)
    with a Some show ?thesis by (intro own_live_trans [of w w1]) simp_all
  qed
qed

lemma ok_return: "keeps own_slot m \<Longrightarrow> keeps live m \<Longrightarrow> command_ok (return m)"
  unfolding return_def by (intro ok_bnd ok_ret)

lemma ok_stop: "command_ok stop"
  unfolding stop_def by (intro ok_thn ok_exit end_child_frees session_ops)

lemma ok_client_error: "command_ok (client_error t)"
  unfolding client_error_def by (intro ok_thn ok_exit end_child_frees session_ops)

lemmas ok_rules = ok_return ok_stop ok_client_error ok_bnd ok_thn ok_ret ok_crash ok_deref ok_if ok_case ok_pair

context quiet_frame
begin

lemma small_commands [session_ops]: "keeps R (do_mode a)" "keeps R (drop_postsock cmd)" "keeps R (must_login cmd)"
    "keeps R (do_xhdr buf a0 a cmd)" "keeps R session_lives" "keeps R (farewell b)"
  unfolding do_mode_def drop_postsock_def must_login_def do_xhdr_def session_lives_def farewell_def Let_def
  by (intro rules session_ops; simp)+

end

context session_frame
begin

lemma commands [session_ops]: "keeps R (do_listgroup a0 a cmd)" "keeps R (do_over a0 a cmd)"
    "keeps R (do_article a0 a cmd)" "keeps R (do_newnews a0 a cmd)"
  unfolding do_listgroup_def do_over_def do_article_def do_newnews_def Let_def
  by (intro rules session_ops; simp)+

end

lemma ok_handlers: "command_ok do_quit" "command_ok (one_line a0 a)" "command_ok (do_unsupported i)"
  unfolding do_quit_def one_line_def do_unsupported_def
  by (intro ok_rules; intro own.rules live.rules session_ops)+

lemma ok_run_command: "command_ok (run_command i buf a0 a1 n)"
  by (cases n; simp only: run_command.simps Let_def cmdnum.case;
      (intro ok_rules ok_handlers; intro own.rules live.rules session_ops))

lemma ok_parsecmd: "command_ok (parsecmd buf)"
proof -
  have u: "own_slot w ((set_cl (\<lambda>c. c\<lparr>c_command := k\<rparr>) w)\<lparr>w_usecount := u\<rparr>) \<and> live w ((set_cl (\<lambda>c. c\<lparr>c_command := k\<rparr>) w)\<lparr>w_usecount := u\<rparr>)" for w k u
    by (intro conjI own.trans [OF own.cl_step own.io_step] live.trans [OF live.cl_step live.io_step]) simp_all
  show ?thesis unfolding parsecmd_def Let_def
    by (intro ok_rules ok_run_command; intro own.upd_step live.upd_step own.rules live.rules session_ops; simp add: u)
qed

lemma ok_session_loop: "command_ok (session_loop b)"
proof -
  have "\<forall>b. command_ok (session_loop b)"
  proof (rule session_loop.fixp_induct, unfold curry_def, goal_cases)
    case 1
    show ?case unfolding command_iff by (intro admissible_all step_admissible)
  next
    case 2
    show ?case by (simp add: command_ok_def)
  next
    case (3 rec)
    then have rec: "command_ok (rec b)" for b by blast
    have p: "command_ok (bnd (parsecmd l) (\<lambda>r. case r of None \<Rightarrow> ret None | Some i \<Rightarrow> if i \<noteq> 0 then ret (Some False) else rec False))" for l
      by (intro ok_seq ok_parsecmd ok_if ok_ret rec)
    show ?case by (intro allI p ok_rules; intro own.rules live.rules session_ops)
  qed
  then show ?thesis by blast
qed

text \<open>After the loop the process ends in any case.\<close>

lemma ended_command:
  "command_ok m \<Longrightarrow> (\<And>a. keeps ended (f a)) \<Longrightarrow> keeps ended (bnd m (\<lambda>r. case r of None \<Rightarrow> ret () | Some a \<Rightarrow> f a))"
proof (unfold keeps_def bnd_Ok, intro allI impI, elim exE conjE)
  fix w u w' r w1
  assume m: "command_ok m" "m w = Some (Ok (r, w1))" "(case r of None \<Rightarrow> ret () | Some a \<Rightarrow> f a) w1 = Some (Ok (u, w'))"
    and f: "\<And>a. \<forall>w b w'. f a w = Some (Ok (b, w')) \<longrightarrow> ended w w'"
  show "ended w w'"
  proof (cases r)
    case None
    with m show ?thesis by (auto simp: command_ok_def ret_def)
  next
    case (Some a)
    with m have "own_slot w w1" "live w w1" by (auto simp: command_ok_def)
    moreover have "ended w1 w'" using f [of a] m(3) Some by auto
    ultimately show ?thesis using own_live_trans [of w w1 True w'] by simp
  qed
qed

lemma ended_error: "keeps ended (thn (client_error t) (ret ()))"
  using ok_client_error [of t] by (auto simp: keeps_def thn_Ok ret_def command_ok_def client_error_def)

lemmas ended_ops = ended_bnd ended_thn ended_rules end_child_frees ended_command ended_error

lemma ended_if: "keeps ended m \<Longrightarrow> keeps ended k \<Longrightarrow> keeps ended (if b then m else k)"
  by simp

lemma ended_talk: "keeps ended talk"
proof -
  have l: "keeps ended leave_session"
    unfolding leave_session_def by (intro ended_ops; intro own.rules live.rules session_ops; simp)
  show ?thesis unfolding talk_def
    by (intro ended_command ok_session_loop ended_ops l; intro own.rules live.rules session_ops)
qed

lemma ended_pair: "(\<And>x y. keeps ended (f x y)) \<Longrightarrow> keeps ended (case p of (x, y) \<Rightarrow> f x y)"
  by (cases p) simp

lemma ended_admit: "keeps ended admit"
proof -
  have t: "keeps ended (turn_away m)" if "keeps own_slot m" "keeps live m" for m
    unfolding turn_away_def by (intro ended_ops that; intro own.rules live.rules session_ops that)
  show ?thesis unfolding admit_def
    by (intro ended_if ended_error ended_talk t ended_pair ended_ops; intro own.rules live.rules session_ops; simp)
qed

lemma ended_option: "keeps ended m \<Longrightarrow> (\<And>x. keeps ended (f x)) \<Longrightarrow> keeps ended (case p of None \<Rightarrow> m | Some x \<Rightarrow> f x)"
  by (cases p) simp_all

lemma ended_start: "keeps ended start_session"
proof -
  have b: "keeps own_slot bind_core" "keeps live bind_core"
    unfolding bind_core_def by (intro own.rules live.rules)+
  show ?thesis unfolding start_session_def
    by (intro ended_if ended_option ended_admit ended_pair ended_ops; intro b own.rules live.rules session_ops own.cl_step live.cl_step; simp)
qed

lemma run_child_ends:
  assumes "run_child w = Some (Ok (u, w'))" and "in_slot w" and "c_id (cl w) = w_me w"
  shows "own_slot w w' \<and> cl w' = zero_client \<and> m_connections (w_m w') = m_connections (w_m w)"
proof -
  let ?w = "w\<lparr>w_m := (w_m w)\<lparr>m_nrforks := add64 (m_nrforks (w_m w)) 1, m_connections := m_connections (w_m w) + 1\<rparr>\<rparr>"
  have "start_session ?w = Some (Ok (u, w'))" using assms(1) by (simp add: run_child_def run)
  then have "ended ?w w'" by (rule keepsD [OF ended_start])
  moreover have "own_slot w ?w" by (simp add: own_slot_def)
  ultimately show ?thesis
    using assms(2,3) own.trans [of w ?w w'] by (auto simp: ended_def in_slot_def cl_def)
qed

section \<open>Properties\<close>

text \<open>
  However the process of a client ends, by its refusal, its quit, an error or a limit, it gives back
  what it took: its slot is empty, the count of the sessions is what it was, the slots of all others are
  untouched and so are the configuration tables.
\<close>

theorem session_gives_back_slot:
  assumes "in_slot w" and "c_id (cl w) = w_me w" and "run_child w = Some (Ok (u, w'))"
  shows "own_slot w w' \<and> cl w' = zero_client \<and> m_connections (w_m w') = m_connections (w_m w)"
  using run_child_ends [OF assms(3)] assms(1,2) by blast

text \<open>A client at the door: its slot is reserved, it sends three lines, and the host it called has a name.\<close>

definition door_world :: world where
  "door_world = (let m = sample_master in sample_world\<lparr>
     w_env := sample_env\<lparr>e_vhost := Some ''10.0.0.1''\<rparr>,
     w_in := (\<lambda>_. [])(5 := [Got (''DATE'' @ CRLF), Got (''GROUP alt.test'' @ CRLF), Got (''QUIT'' @ CRLF)]),
     w_m := m\<lparr>m_clients := (m_clients m)[1 := zero_client\<lparr>c_inuse := True, c_id := 1, c_socket := 5, c_acl := Some 0, c_ip4addr := 1\<rparr>],
       m_users := [zero_user, zero_user],
       m_aliases := [\<lparr>al_name = ''acct'', al_lib = ''acct'', al_args = []\<rparr>],
       m_profiles := [zero_profile\<lparr>p_Name := ''default'', p_ClientReadTimeout := 10, p_MaxUsers := 5, p_MaxUserConcurrent := 2,
         p_MaxSessionTime := 100, p_Accounting := Some 0\<rparr>],
       m_acls := [\<lparr>acl_start = 0, acl_end = 2 ^ 32 - 1, acl_size = 32, acl_profile = Some 0, acl_read = True, acl_post = False,
         acl_apost = False, acl_deny = False, acl_auth = True, acl_stats = False, acl_unlimit = False\<rparr>],
       m_vhosts := [zero_vhost\<lparr>v_ipaddress := ''default'', v_Banner := ''news''\<rparr>]\<rparr>\<rparr>)"

theorem session_gives_back_slot_witness:
  "\<exists>w'. run_child door_world = Some (Ok ((), w')) \<and> cl w' = zero_client \<and> m_connections (w_m w') = 0"
proof -
  have "runs run_child door_world (\<lambda>_ _. True)" by code_simp
  then obtain u w' where r: "run_child door_world = Some (Ok (u, w'))" unfolding runs_iff by blast
  have "in_slot door_world" "c_id (cl door_world) = w_me door_world" "m_connections (w_m door_world) = 0" by code_simp+
  with session_gives_back_slot [OF _ _ r] r show ?thesis by simp
qed


section \<open>Without a login\<close>

definition free_commands :: "cmdnum list" where
  "free_commands = [cmd_slave, cmd_authinfo, cmd_help, cmd_date, cmd_quit, cmd_statistics, cmd_ihave, cmd_http, cmd_unsupported]"

lemma find_command_bound: "find_command a0 < length commands"
  by (auto simp: find_command_def commands_def dest: find_index_bound split: option.split)

lemma free_commands_only: "\<not> ci_auth (commands ! find_command a0) \<Longrightarrow> ci_num (commands ! find_command a0) \<in> set free_commands"
proof -
  have "\<forall>c \<in> set commands. \<not> ci_auth c \<longrightarrow> ci_num c \<in> set free_commands" by code_simp
  then show "\<not> ci_auth (commands ! find_command a0) \<Longrightarrow> ?thesis" using find_command_bound [of a0] by auto
qed

lemma calls_end_child: "keeps no_calls (end_child b)"
  unfolding end_child_def by (intro calls.rules session_ops calls.account; simp add: no_calls_def)

lemma calls_free_command:
  assumes "n \<in> set free_commands" and "n \<noteq> cmd_ihave"
  shows "keeps no_calls (run_command i buf a0 a1 n)"
proof -
  have s: "keeps no_calls stop" unfolding stop_def by (intro calls.rules session_ops calls_end_child)
  show ?thesis using assms(2)
    by (cases n; insert assms(1); simp add: free_commands_def; (unfold do_quit_def return_def do_unsupported_def)?; intro calls.rules session_ops s)
qed

definition guest :: "world \<Rightarrow> bool" where
  "guest w \<longleftrightarrow> (\<exists>l p. in_slot w \<and> c_acl (cl w) = Some l \<and> acl_auth (m_acls (w_m w) ! l) \<and> \<not> c_authenticated (cl w)
     \<and> c_profile (cl w) = Some p \<and> p_Slave (m_profiles (w_m w) ! p) = 0)"


text \<open>A guest at the door of the sample server asks for an article.\<close>

definition guest_world :: world where
  "guest_world = door_world\<lparr>w_m := (w_m door_world)\<lparr>m_clients :=
     (m_clients (w_m door_world))[1 := (m_clients (w_m door_world) ! 1)\<lparr>c_profile := Some 0\<rparr>]\<rparr>\<rparr>"


end
