(* ===== verification/Daemon.thy ===== *)
theory Daemon
  imports Nntpd Updategroups Config
begin

text \<open>
  \<open>daemon.c\<close>: the ports, the start, the access check of a new connection, the fork of its process, the
  reload and the signals. The world is that of the daemon, which runs no session of its own; a fork is
  the daemon going on, or the child going on as the session of its slot. The sockets and the process of the
  daemon are in \<open>Boot\<close>.
\<close>

section \<open>Ports\<close>

text \<open>\<open>strtoul\<close>: the number, and the rest behind it; nothing when no digit was found.\<close>

definition strtoul :: "string \<Rightarrow> (nat \<times> string) option" where
  "strtoul s =
     (let t = dropWhile isspace_c s; neg = (t \<noteq> [] \<and> hd t = CHR ''-'');
          u = (if t \<noteq> [] \<and> (hd t = CHR ''-'' \<or> hd t = CHR ''+'') then tl t else t);
          n = digits_acc 0 u in
      if u = [] \<or> \<not> isdigit_c (hd u) then None
      else Some (if 2 ^ 64 \<le> n then 2 ^ 64 - 1 else if neg then u64 (- int n) else n, dropWhile isdigit_c u))"

lemma strtoul_shorter: "strtoul s = Some (n, r) \<Longrightarrow> length r < length s"
proof -
  assume s: "strtoul s = Some (n, r)"
  define t where "t = dropWhile isspace_c s"
  define u where "u = (if t \<noteq> [] \<and> (hd t = CHR ''-'' \<or> hd t = CHR ''+'') then tl t else t)"
  have u: "u \<noteq> []" "isdigit_c (hd u)" "r = dropWhile isdigit_c u"
    using s unfolding strtoul_def Let_def t_def [symmetric] u_def [symmetric] by (auto split: if_split_asm)
  have "length r < length u" using u by (cases u) (auto intro: le_imp_less_Suc length_dropWhile_le)
  also have "length u \<le> length t" by (auto simp: u_def)
  also have "length t \<le> length s" by (simp add: t_def length_dropWhile_le)
  finally show ?thesis .
qed

definition separators :: string where "separators = '' .,:/;''"

function (sequential) port_list :: "string \<Rightarrow> nat list outcome" where
  \<comment> \<open>the ports of \<open>init_sockets_from_port_list\<close>, each cut to 16 bits\<close>
  "port_list [] = Ok []"
| "port_list s =
     (case strtoul s of
        None \<Rightarrow> Die ''not a port''
      | Some (n, r) \<Rightarrow>
          if n = 0 then Die ''port is negative''
          else if 65536 < n then Die ''port is too high''
          else obind (port_list (dropWhile (\<lambda>c. c \<in> set separators) r)) (\<lambda>ps. Ok (n mod 2 ^ 16 # ps)))"
  by pat_completeness auto
termination
proof (relation "measure length", simp)
  fix c :: char and s :: string and x n r
  assume "strtoul (c # s) = Some x" and "(n, r) = x"
  then have "length r < length (c # s)" by (auto dest: strtoul_shorter)
  moreover have "length (dropWhile (\<lambda>c. c \<in> set separators) r) \<le> length r" by (rule length_dropWhile_le)
  ultimately show "(dropWhile (\<lambda>c. c \<in> set separators) r, c # s) \<in> measure length" by simp
qed

definition init_sockets :: "cfg_t \<Rightarrow> (nat list \<times> nat list) outcome" where
  \<comment> \<open>the plain ports and the SSL ports\<close>
  "init_sockets cf =
     obind (port_list (cf_ListenPorts cf)) (\<lambda>ps.
     obind (if cf_EnableSSL cf then port_list (cf_ListenSSLPorts cf) else Ok []) (\<lambda>ss. Ok (ps, ss)))"

section \<open>Start and reload\<close>

text \<open>
  The tables in the order of the start. The configuration file named on the command line or found
  before, the file times, the patterns of the web service with what is behind the table of patterns,
  the SSL contexts and the number of cores are arguments; the modules are those of the world.
\<close>

record surroundings =
  sr_config :: "string option"
  sr_active_time :: int
  sr_servers_time :: int
  sr_stats_time :: "int option"
  sr_ssl :: ssl_init
  sr_wildmats :: "(string option \<times> string option) list option"
  sr_behind :: "nat \<Rightarrow> wildmat_t"
  sr_cores :: int

definition access_conf :: "surroundings \<Rightarrow> env \<Rightarrow> master_t \<Rightarrow> master_t outcome option" where
  "access_conf sr env m =
     load_access_conf (e_fs env) (e_cfg env) (sr_ssl sr) (rconf_getwmats (sr_wildmats sr) (sr_behind sr)) (\<lambda>l. e_auth env l \<noteq> None) (e_acct env) m"

definition loadconfig :: "surroundings \<Rightarrow> unit io" where
  "loadconfig sr =
     bnd (asks w_env) (\<lambda>env.
     bnd (lift_o (read_config (e_fs env) (sr_config sr) (e_cfg env))) (\<lambda>(p, c).
     upd (\<lambda>w. w\<lparr>w_env := (w_env w)\<lparr>e_cfg := c\<rparr>\<rparr>)))"

definition load_tables :: "surroundings \<Rightarrow> unit io" where
  "load_tables sr =
     bnd (asks w_env) (\<lambda>env.
     let fs = e_fs env; cf = e_cfg env in
     bnd (bnd (asks w_m) (\<lambda>m. lift_po (load_servers fs cf (\<lambda>_. zero_server) (sr_servers_time sr) m))) (\<lambda>m.
      bnd (lift_o (loadactive fs cf (sr_active_time sr) m)) (\<lambda>m.
      bnd (lift_o (loadoverviewfmt fs cf)) (\<lambda>ov.
      bnd (lift_po (access_conf sr env m)) (\<lambda>m.
      bnd (bnd (asks now) (\<lambda>t. lift_o (load_statsfile fs cf (sr_stats_time sr) t m))) (\<lambda>m.
      upd (\<lambda>w. w\<lparr>w_overview := ov, w_m := m\<lparr>m_serverstart := u32 (now w), m_nrforks := 0, m_numcores := sr_cores sr\<rparr>\<rparr>)))))))"

text \<open>The start, as far as the memory of the program goes; what the process does beside it is in \<open>Boot\<close>.\<close>

definition run_daemon :: "surroundings \<Rightarrow> unit io" where
  "run_daemon sr = thn (loadconfig sr) (thn (bnd (asks cfg) (\<lambda>cf. lift_o (init_sockets cf))) (load_tables sr))"

definition daemon_reload :: "surroundings \<Rightarrow> unit io" where
  "daemon_reload sr =
     bnd (asks (\<lambda>w. (w_env w, w_m w))) (\<lambda>(env, m).
     bnd (lift_po (reload_servers (e_fs env) (e_cfg env) (sr_servers_time sr) m)) (\<lambda>m.
     bnd (lift_o (reloadactive (e_fs env) (e_cfg env) (sr_active_time sr) m)) (\<lambda>m.
     bnd (lift_po (access_conf sr env m)) (\<lambda>m. thn (upd (\<lambda>w. w\<lparr>w_m := m\<rparr>)) (loadconfig sr)))))"

section \<open>A new connection\<close>

definition say :: "int \<Rightarrow> string \<Rightarrow> nat option io" where
  \<comment> \<open>a refusal, written to the descriptor\<close>
  "say fd msg = bnd (sock_wr fd msg) (\<lambda>_. ret None)"

text \<open>
  The entry of the access list: of the table, or one the web service gives, which stands in the model
  as a new row behind the table.
\<close>

definition find_acl :: "nat \<Rightarrow> nat option io" where
  "find_acl ip =
     bnd (asks (\<lambda>w. (cf_JSONACL (cfg w), gethttpacl (inet_ntoa ip) w, w_m w))) (\<lambda>(json, acl, m).
     if json
     then bnd (lift_o acl) (\<lambda>a. case a of
            None \<Rightarrow> ret None
          | Some a \<Rightarrow> thn (upd_m (\<lambda>m. m\<lparr>m_acls := m_acls m @ [a]\<rparr>)) (ret (Some (length (m_acls m)))))
     else ret (getacl ip m))"

definition reserve_slot :: "nat \<Rightarrow> int \<Rightarrow> nat option io" where
  "reserve_slot ip maxcon =
     thn semlock_lock
     (bnd (asks (\<lambda>w. find_slot ip maxcon (u32 (now w)) 0 (w_m w))) (\<lambda>(s, cc, m).
      thn (upd (\<lambda>w. w\<lparr>w_m := m\<rparr>)) (thn semlock_unlock (ret s))))"

definition host_limit :: "acl_t \<Rightarrow> profile_t \<Rightarrow> int" where
  "host_limit acl pf = (if acl_unlimit acl then 0 else p_MaxHostConcurrent pf)"

definition access_check :: "int \<Rightarrow> nat \<Rightarrow> nat option io" where
  "access_check fd ip =
     bnd (asks (\<lambda>w. (cfg w, m_connections (w_m w), e_fs (w_env w)))) (\<lambda>(cf, n, fs).
     if cf_MaxConnections cf < n then say fd (''400 Sorry, server is full at the moment, try later'' @ CRLF)
     else if fs (cf_DisableFile cf) \<noteq> None then thn (sock_wr fd (cf_DisableText cf)) (say fd CRLF)
     else bnd (find_acl ip) (\<lambda>a.
       case a of
         None \<Rightarrow> say fd (''500 Can't get ACL'' @ CRLF)
       | Some a \<Rightarrow>
           bnd (asks (\<lambda>w. m_acls (w_m w) ! a)) (\<lambda>acl. deref (acl_profile acl) (\<lambda>p.
           bnd (asks (\<lambda>w. m_profiles (w_m w) ! p)) (\<lambda>pf.
           if p_Disabled pf \<noteq> [] then thn (sock_wr fd ''400 '') (say fd (p_Disabled pf))
           else if acl_deny acl then say fd (''500 Permission Denied'' @ CRLF)
           else if u32 (p_MaxConnections pf) < p_connections pf then say fd (''400 Too many connections in your class'' @ CRLF)
           else bnd (reserve_slot ip (host_limit acl pf)) (\<lambda>s.
             case s of
               None \<Rightarrow> say fd (''400 Too many concurrent connections, you are allowed '' @ int_str (p_MaxHostConcurrent pf) @ CRLF)
             | Some i \<Rightarrow>
                 thn (upd_m (\<lambda>m. m\<lparr>m_clients := (m_clients m)[i := (m_clients m ! i)\<lparr>c_acl := Some a, c_ip4addr := ip, c_socket := fd\<rparr>]\<rparr>))
                 (ret (Some i))))))))"

datatype fork_result = Child | Parent | Fork_failed

definition pick_core :: "nat \<Rightarrow> unit io" where
  "pick_core i =
     bnd (asks (\<lambda>w. 0 < cf_CoreBind (cfg w))) (\<lambda>b.
     if b then upd_m (\<lambda>m. let k = (if m_numcores m \<le> m_currcore m + 1 then 0 else m_currcore m + 1) in
            m\<lparr>m_currcore := k, m_clients := (m_clients m)[i := (m_clients m ! i)\<lparr>c_numcore := k\<rparr>]\<rparr>)
     else ret ())"

text \<open>
  The daemon closes its copy of the descriptor and frees its copy of an entry of the web service, also
  when the fork failed; the child runs the session of the slot.
\<close>

definition freehttpacl :: "nat \<Rightarrow> unit io" where
  "freehttpacl a = upd_m (\<lambda>m. m\<lparr>m_acls := take a (m_acls m)\<rparr>)"

definition daemon_accept :: "int \<Rightarrow> nat \<Rightarrow> bool \<Rightarrow> fork_result \<Rightarrow> unit io" where
  "daemon_accept fd ip ssl f =
     bnd (access_check fd ip) (\<lambda>s.
     case s of
       None \<Rightarrow> close_fd fd
     | Some i \<Rightarrow>
         thn (upd_m (\<lambda>m. m\<lparr>m_clients := (m_clients m)[i := (m_clients m ! i)\<lparr>c_useSSL := ssl\<rparr>]\<rparr>))
         (thn (pick_core i)
         (if f = Child then thn (upd (\<lambda>w. w\<lparr>w_me := i\<rparr>)) run_child
          else thn (bnd (asks (\<lambda>w. (cf_JSONACL (cfg w), c_acl (m_clients (w_m w) ! i)))) (\<lambda>(json, a).
                 case a of Some a \<Rightarrow> if json then freehttpacl a else ret () | None \<Rightarrow> ret ()))
               (close_fd fd))))"

section \<open>Signals\<close>

datatype signal = SIGHUP | SIGSEGV | SIGINT | SIGTERM | SIGILL | SIGABRT

definition session_signal :: "signal \<Rightarrow> unit io" where
  \<comment> \<open>the handlers in the process of a session, which end it\<close>
  "session_signal s =
     (case s of
        SIGHUP \<Rightarrow> ret ()
      | SIGTERM \<Rightarrow> thn client_quit (end_child True)
      | _ \<Rightarrow> end_child False)"

text \<open>
  The children that ended: the first that left a slot with its process id is reported and ends the
  handler, those behind it are not waited for. Slot 0 is not looked at.
\<close>

primrec chld_handler :: "int list \<Rightarrow> master_t \<Rightarrow> (nat \<times> int list) option" where
  "chld_handler [] m = None"
| "chld_handler (pid # pids) m =
     (case find_index (\<lambda>c. c_pid c = pid \<and> c_id c \<noteq> 0) (m_clients m) of
        None \<Rightarrow> chld_handler pids m
      | Some i \<Rightarrow> Some (i, pids))"

section \<open>The loop\<close>

datatype event = Hangup surroundings | Terminate | Connection int nat bool fork_result

text \<open>What the daemon does with one event; at a termination it stops.\<close>

fun daemon_step :: "event \<Rightarrow> bool io" where
  "daemon_step (Hangup sr) = thn (daemon_reload sr) (ret True)"
| "daemon_step Terminate = ret False"
| "daemon_step (Connection fd ip ssl f) = thn (daemon_accept fd ip ssl f) (ret True)"

primrec daemon_select_loop :: "event list \<Rightarrow> unit io" where
  "daemon_select_loop [] = ret ()"
| "daemon_select_loop (e # es) = bnd (daemon_step e) (\<lambda>go. if go then daemon_select_loop es else ret ())"


section \<open>What an admission does\<close>

lemma count_on_bound: "count_on cs ip mc n = (cc, True) \<Longrightarrow> 0 < mc \<Longrightarrow> cs \<noteq> [] \<Longrightarrow> int cc \<le> mc"
proof (induction cs arbitrary: n)
  case (Cons c cs)
  then show ?case by (cases "cs = []") (auto simp: Let_def split: if_split_asm)
qed simp

lemma find_slot_Some:
  assumes "find_slot ip maxcon t cc0 m = (Some i, cc, m')"
  shows "i < length (m_clients m) \<and> \<not> c_inuse (m_clients m ! i) \<and> (0 < maxcon \<longrightarrow> int cc \<le> maxcon)
    \<and> m' = m\<lparr>m_clients := (m_clients m)[i := zero_client\<lparr>c_inuse := True, c_id := i, c_ip4addr := ip, c_concur := cc, c_starttime := t\<rparr>]\<rparr>"
proof (cases "find_index (\<lambda>c. \<not> c_inuse c) (m_clients m)")
  case None
  then show ?thesis using assms by (simp add: find_slot_def)
next
  case (Some j)
  then have "j < length (m_clients m)" "\<not> c_inuse (m_clients m ! j)" by (auto simp: find_index_Some)
  then show ?thesis using assms by (auto simp: find_slot_def Some Let_def split: prod.splits if_split_asm dest: count_on_bound)
qed

lemma find_slot_None:
  assumes "find_slot ip maxcon t cc0 m = (None, cc, m')"
  shows "\<exists>cs. m' = m\<lparr>m_clients := cs\<rparr> \<and> length cs = length (m_clients m)
    \<and> (\<forall>j. cs ! j = m_clients m ! j \<or> \<not> c_inuse (cs ! j) \<and> \<not> c_inuse (m_clients m ! j))"
proof (cases "find_index (\<lambda>c. \<not> c_inuse c) (m_clients m)")
  case None
  then show ?thesis using assms by (auto simp: find_slot_def intro: exI [of _ "m_clients m"])
next
  case (Some i)
  define c where "c = zero_client\<lparr>c_inuse := False, c_id := 0, c_ip4addr := 0\<rparr>"
  have i: "\<not> c_inuse (m_clients m ! i)" "i < length (m_clients m)" "\<not> c_inuse c"
    using Some by (auto simp: find_index_Some c_def)
  have "m' = m\<lparr>m_clients := (m_clients m)[i := c]\<rparr>"
    using assms by (auto simp: find_slot_def Some Let_def c_def split: prod.splits if_split_asm)
  with i show ?thesis by (intro exI [of _ "(m_clients m)[i := c]"]) (auto simp: nth_list_update)
qed

text \<open>Nothing but the slots that are free differs, and they are still free.\<close>

definition same_sessions :: "client_t list \<Rightarrow> client_t list \<Rightarrow> bool" where
  "same_sessions cs cs' \<longleftrightarrow> length cs' = length cs
     \<and> (\<forall>j < length cs. cs' ! j = cs ! j \<or> \<not> c_inuse (cs' ! j) \<and> \<not> c_inuse (cs ! j))"

lemma sock_wr_Ok:
  "sock_wr fd s w = Some (Ok (b, w')) \<Longrightarrow> w_m w' = w_m w \<and> w_env w' = w_env w \<and> w_me w' = w_me w \<and> w_open w' = w_open w"
  by (auto simp: sock_wr_def split: if_split_asm list.splits wres.splits)

lemma say_Ok:
  "say fd s w = Some (Ok (r, w')) \<Longrightarrow> r = None \<and> w_m w' = w_m w \<and> w_env w' = w_env w \<and> w_me w' = w_me w \<and> w_open w' = w_open w"
  by (auto simp: say_def run_Ok dest: sock_wr_Ok)

lemma find_acl_Ok:
  "find_acl ip w = Some (Ok (r, w')) \<Longrightarrow>
   w' = w\<lparr>w_m := w_m w'\<rparr> \<and> (\<exists>as. w_m w' = (w_m w)\<lparr>m_acls := m_acls (w_m w) @ as\<rparr>)"
  by (auto simp: find_acl_def run_Ok split: outcome.splits option.splits if_split_asm prod.splits
    intro: exI [of _ "[]"])

text \<open>A step of the daemon on the table of the slots alone.\<close>

definition slots_only :: "client_t list \<Rightarrow> world \<Rightarrow> world \<Rightarrow> bool" where
  "slots_only cs w w' \<longleftrightarrow> (\<exists>a b. w' = w\<lparr>w_m := (w_m w)\<lparr>m_nrlocks := a, m_clients := cs, m_nrunlocks := b\<rparr>\<rparr>)"

lemma reserve_slot_Ok:
  assumes "reserve_slot ip mc w = Some (Ok (r, w'))"
  shows "case r of
      None \<Rightarrow> \<exists>cs. slots_only cs w w' \<and> same_sessions (m_clients (w_m w)) cs
    | Some i \<Rightarrow> i < length (m_clients (w_m w)) \<and> \<not> c_inuse (m_clients (w_m w) ! i) \<and> (\<exists>cc. (0 < mc \<longrightarrow> int cc \<le> mc) \<and> slots_only
        ((m_clients (w_m w))[i := zero_client\<lparr>c_inuse := True, c_id := i, c_ip4addr := ip, c_concur := cc, c_starttime := u32 (now w)\<rparr>]) w w')"
proof -
  let ?m = "w_m w\<lparr>m_nrlocks := add64 (m_nrlocks (w_m w)) 1\<rparr>"
  obtain cc m' where f: "find_slot ip mc (u32 (now w)) 0 ?m = (r, cc, m')"
    and w': "w' = w\<lparr>w_m := m'\<lparr>m_nrunlocks := add64 (m_nrunlocks m') 1\<rparr>\<rparr>"
    using assms by (auto simp: reserve_slot_def run_Ok semlock_lock_def semlock_unlock_def now_def split: prod.splits)
  show ?thesis
  proof (cases r)
    case None
    with f have "find_slot ip mc (u32 (now w)) 0 ?m = (None, cc, m')" by simp
    from find_slot_None [OF this] obtain cs where "m' = ?m\<lparr>m_clients := cs\<rparr>" "same_sessions (m_clients (w_m w)) cs"
      unfolding same_sessions_def by auto
    then show ?thesis using None w' by (auto simp: slots_only_def)
  next
    case (Some i)
    with f have "find_slot ip mc (u32 (now w)) 0 ?m = (Some i, cc, m')" by simp
    from find_slot_Some [OF this] show ?thesis using Some w' by (auto simp: slots_only_def)
  qed
qed

text \<open>What a session selects its server by: the rows of the servers but for the numbers of their connections, the
  list of the balancer, and the groups; and the surroundings.\<close>

definition routes :: "world \<Rightarrow> world \<Rightarrow> bool" where
  "routes w w' \<longleftrightarrow> w_env w' = w_env w \<and> map server_conf (m_servers (w_m w')) = map server_conf (m_servers (w_m w))
     \<and> m_lservers (w_m w') = m_lservers (w_m w) \<and> m_active (w_m w') = m_active (w_m w)"

lemma routes_trans: "routes a b \<Longrightarrow> routes b c \<Longrightarrow> routes a c"
  by (simp add: routes_def)

text \<open>The slot of a client that was let in: a fresh one, which now belongs to the client.\<close>

definition let_in :: "int \<Rightarrow> nat \<Rightarrow> nat \<Rightarrow> world \<Rightarrow> world \<Rightarrow> bool" where
  "let_in fd ip i w w' \<longleftrightarrow> i < length (m_clients (w_m w)) \<and> \<not> c_inuse (m_clients (w_m w) ! i) \<and>
     (\<exists>a cc. m_clients (w_m w') = (m_clients (w_m w))[i := zero_client\<lparr>c_inuse := True, c_id := i, c_concur := cc,
        c_starttime := u32 (now w), c_acl := Some a, c_ip4addr := ip, c_socket := fd\<rparr>])"

definition allowed :: "nat \<Rightarrow> world \<Rightarrow> world \<Rightarrow> bool" where
  \<comment> \<open>nothing in the configuration and in the access list is against the client of slot \<open>i\<close>\<close>
  "allowed i w w' \<longleftrightarrow> m_connections (w_m w) \<le> cf_MaxConnections (cfg w) \<and> e_fs (w_env w) (cf_DisableFile (cfg w)) = None \<and>
     (\<exists>a p. c_acl (m_clients (w_m w') ! i) = Some a \<and> \<not> acl_deny (m_acls (w_m w') ! a) \<and> acl_profile (m_acls (w_m w') ! a) = Some p \<and>
        p_Disabled (m_profiles (w_m w) ! p) = [] \<and> p_connections (m_profiles (w_m w) ! p) \<le> u32 (p_MaxConnections (m_profiles (w_m w) ! p)) \<and>
        (acl_unlimit (m_acls (w_m w') ! a) \<or> p_MaxHostConcurrent (m_profiles (w_m w) ! p) \<le> 0
           \<or> int (c_concur (m_clients (w_m w') ! i)) \<le> p_MaxHostConcurrent (m_profiles (w_m w) ! p)))"

lemma access_check_Some:
  assumes "access_check fd ip w = Some (Ok (Some i, w'))"
  shows "let_in fd ip i w w' \<and> allowed i w w' \<and> w' = w\<lparr>w_m := w_m w'\<rparr> \<and> m_connections (w_m w') = m_connections (w_m w) \<and> routes w w'"
proof -
  from assms obtain a w1 p w2 n where
      limits: "m_connections (w_m w) \<le> cf_MaxConnections (cfg w)" "e_fs (w_env w) (cf_DisableFile (cfg w)) = None"
    and acl: "find_acl ip w = Some (Ok (Some a, w1))" and p: "acl_profile (m_acls (w_m w1) ! a) = Some p"
    and ok: "p_Disabled (m_profiles (w_m w1) ! p) = []" "\<not> acl_deny (m_acls (w_m w1) ! a)"
      "p_connections (m_profiles (w_m w1) ! p) \<le> u32 (p_MaxConnections (m_profiles (w_m w1) ! p))"
    and n: "n = host_limit (m_acls (w_m w1) ! a) (m_profiles (w_m w1) ! p)"
    and s: "reserve_slot ip n w1 = Some (Ok (Some i, w2))"
    and w': "w' = w2\<lparr>w_m := (w_m w2)\<lparr>m_clients := (m_clients (w_m w2))[i := (m_clients (w_m w2) ! i)\<lparr>c_acl := Some a, c_ip4addr := ip, c_socket := fd\<rparr>]\<rparr>\<rparr>"
    unfolding access_check_def
    by (auto simp: run_Ok split: if_split_asm option.split_asm dest!: say_Ok)
  from find_acl_Ok [OF acl] obtain as where w1: "w1 = w\<lparr>w_m := (w_m w)\<lparr>m_acls := m_acls (w_m w) @ as\<rparr>\<rparr>" by metis
  from reserve_slot_Ok [OF s] obtain cc where i: "i < length (m_clients (w_m w1))" "\<not> c_inuse (m_clients (w_m w1) ! i)"
    and cc: "0 < n \<longrightarrow> int cc \<le> n" and w2: "slots_only ((m_clients (w_m w1))[i := zero_client\<lparr>c_inuse := True, c_id := i, c_ip4addr := ip, c_concur := cc,
        c_starttime := u32 (now w1)\<rparr>]) w1 w2" by auto
  from w2 i have cl: "m_clients (w_m w') = (m_clients (w_m w))[i := zero_client\<lparr>c_inuse := True, c_id := i, c_concur := cc,
      c_starttime := u32 (now w), c_acl := Some a, c_ip4addr := ip, c_socket := fd\<rparr>]"
    unfolding w' w1 slots_only_def by (auto simp: now_def)
  have "let_in fd ip i w w'" using i cl unfolding let_in_def w1 by auto
  moreover have "allowed i w w'" unfolding allowed_def
    using limits p ok i w2 cc cl unfolding n w' w1 slots_only_def host_limit_def by auto
  moreover have "w' = w\<lparr>w_m := w_m w'\<rparr>" "m_connections (w_m w') = m_connections (w_m w)" "routes w w'"
    using w2 unfolding w' w1 slots_only_def routes_def by auto
  ultimately show ?thesis by blast
qed

text \<open>A refusal is calm: whatever is said to the client, no session is touched.\<close>

definition calm :: "world \<Rightarrow> world \<Rightarrow> bool" where
  "calm w w' \<longleftrightarrow> same_sessions (m_clients (w_m w)) (m_clients (w_m w'))
     \<and> m_connections (w_m w') = m_connections (w_m w) \<and> w_me w' = w_me w \<and> routes w w'"

lemma same_sessions_refl: "same_sessions cs cs"
  by (simp add: same_sessions_def)

lemma same_sessions_trans: "same_sessions a b \<Longrightarrow> same_sessions b c \<Longrightarrow> same_sessions a c"
  unfolding same_sessions_def by metis

interpretation calm: frame calm
  by unfold_locales (auto simp: calm_def same_sessions_refl routes_def intro: same_sessions_trans)

lemma calm_say: "keeps calm (sock_wr fd s)" "keeps calm (say fd s)" "keeps calm (find_acl ip)"
proof -
  show "keeps calm (sock_wr fd s)" "keeps calm (say fd s)"
    by (auto simp: keeps_def calm_def routes_def same_sessions_refl dest: sock_wr_Ok say_Ok)
  have "calm w w'" if a: "find_acl ip w = Some (Ok (r, w'))" for w r w'
  proof -
    from find_acl_Ok [OF a] obtain as where "w' = w\<lparr>w_m := (w_m w)\<lparr>m_acls := m_acls (w_m w) @ as\<rparr>\<rparr>" by metis
    then show ?thesis by (simp add: calm_def routes_def same_sessions_refl)
  qed
  then show "keeps calm (find_acl ip)" by (simp add: keeps_def)
qed

definition calm_refusal :: "nat option io \<Rightarrow> bool" where
  "calm_refusal m \<longleftrightarrow> (\<forall>w w'. m w = Some (Ok (None, w')) \<longrightarrow> calm w w')"

lemma calm_keeps: "keeps calm m \<Longrightarrow> calm_refusal m"
  by (auto simp: calm_refusal_def keeps_def)

lemma calm_bnd: "keeps calm m \<Longrightarrow> (\<And>a. calm_refusal (f a)) \<Longrightarrow> calm_refusal (bnd m f)"
  unfolding calm_refusal_def bnd_Ok by (blast dest: keepsD intro: calm.trans)

lemma calm_if: "calm_refusal m \<Longrightarrow> calm_refusal k \<Longrightarrow> calm_refusal (if b then m else k)"
  by simp

lemma calm_case: "calm_refusal m \<Longrightarrow> (\<And>x. calm_refusal (f x)) \<Longrightarrow> calm_refusal (case p of None \<Rightarrow> m | Some x \<Rightarrow> f x)"
  by (cases p) simp_all

lemma calm_pair: "(\<And>x y. calm_refusal (f x y)) \<Longrightarrow> calm_refusal (case p of (x, y) \<Rightarrow> f x y)"
  by (cases p) simp

lemma calm_deref: "(\<And>x. calm_refusal (f x)) \<Longrightarrow> calm_refusal (deref p f)"
  by (cases p) (simp_all add: calm_refusal_def run_Ok)

lemma calm_reserve:
  "keeps calm m \<Longrightarrow> calm_refusal (bnd (reserve_slot ip mc) (\<lambda>s. case s of None \<Rightarrow> m | Some i \<Rightarrow> thn (k i) (ret (Some i))))"
  unfolding calm_refusal_def run_Ok
proof (intro allI impI, elim exE conjE)
  fix w w' s w1
  assume m: "keeps calm m" "(case s of None \<Rightarrow> m | Some i \<Rightarrow> thn (k i) (ret (Some i))) w1 = Some (Ok (None, w'))"
    and s: "reserve_slot ip mc w = Some (Ok (s, w1))"
  then have "s = None" by (cases s) (auto simp: run_Ok)
  with reserve_slot_Ok [OF s] have "calm w w1" by (auto simp: slots_only_def calm_def routes_def)
  moreover have "calm w1 w'" using m \<open>s = None\<close> by (auto dest: keepsD)
  ultimately show "calm w w'" by (rule calm.trans)
qed

lemma access_check_None: "calm_refusal (access_check fd ip)"
proof -
  have t: "calm_refusal (thn (sock_wr fd s) (say fd u))" for s u
    by (intro calm_keeps calm.thn calm_say)
  show ?thesis unfolding access_check_def
    by (intro calm_bnd calm_if calm_case calm_pair calm_deref calm_reserve calm_say calm.asks t calm_keeps [OF calm_say(2)])
qed

lemma sock_close [run_Ok]: "close_fd fd w = Some (Ok (u, w')) \<longleftrightarrow> w' = w\<lparr>w_open := (w_open w)(fd := False)\<rparr>"
  by (simp add: close_fd_def run_Ok)

text \<open>After the admission: the slot has its client, and \<open>daemon_accept\<close> goes on from there.\<close>

definition seated :: "int \<Rightarrow> nat \<Rightarrow> nat \<Rightarrow> world \<Rightarrow> world \<Rightarrow> bool" where
  "seated fd ip i w v \<longleftrightarrow> i < length (m_clients (w_m w)) \<and> \<not> c_inuse (m_clients (w_m w) ! i) \<and> w_me v = w_me w
     \<and> m_connections (w_m v) = m_connections (w_m w)
     \<and> (\<exists>c. m_clients (w_m v) = (m_clients (w_m w))[i := c] \<and> c_inuse c \<and> c_id c = i \<and> c_ip4addr c = ip \<and> c_socket c = fd
          \<and> c_pid c = 0) \<and> routes w v"

lemma admission_seats:
  assumes "access_check fd ip w = Some (Ok (Some i, w1))"
    and "thn (upd_m (\<lambda>m. m\<lparr>m_clients := (m_clients m)[i := (m_clients m ! i)\<lparr>c_useSSL := ssl\<rparr>]\<rparr>)) (pick_core i) w1 = Some (Ok (u, v))"
  shows "seated fd ip i w v"
proof -
  from access_check_Some [OF assms(1)] obtain a cc where i: "i < length (m_clients (w_m w))" "\<not> c_inuse (m_clients (w_m w) ! i)"
    and cs: "m_clients (w_m w1) = (m_clients (w_m w))[i := zero_client\<lparr>c_inuse := True, c_id := i, c_concur := cc,
        c_starttime := u32 (now w), c_acl := Some a, c_ip4addr := ip, c_socket := fd\<rparr>]"
    and w1: "w_me w1 = w_me w" "m_connections (w_m w1) = m_connections (w_m w)" and r: "routes w w1"
    unfolding let_in_def by (metis world.select_convs(3) world.surjective world.update_convs(2))
  define c where "c = zero_client\<lparr>c_inuse := True, c_id := i, c_concur := cc, c_starttime := u32 (now w), c_acl := Some a,
      c_ip4addr := ip, c_socket := fd\<rparr>"
  have c: "c_inuse c" "c_id c = i" "c_ip4addr c = ip" "c_socket c = fd" "c_pid c = 0" by (simp_all add: c_def zero_client_def)
  from assms(2) i c r show ?thesis unfolding seated_def cs [folded c_def] routes_def
    by (auto simp: run_Ok pick_core_def Let_def w1 cs [folded c_def] split: if_split_asm)
qed

lemma thn_assoc: "thn (thn m k) l = thn m (thn k l)"
  by (rule ext) (simp add: thn_def bnd_def split: option.split outcome.split)

lemma daemon_accept_cases:
  assumes "daemon_accept fd ip ssl f w = Some (Ok (u, w'))"
  obtains (refused) v where "access_check fd ip w = Some (Ok (None, v))" "w' = v\<lparr>w_open := (w_open v)(fd := False)\<rparr>"
  | (child) i w1 v where "access_check fd ip w = Some (Ok (Some i, w1))" "seated fd ip i w v" "f = Child"
      "run_child (v\<lparr>w_me := i\<rparr>) = Some (Ok (u, w'))"
  | (parent) i w1 v where "access_check fd ip w = Some (Ok (Some i, w1))" "seated fd ip i w v" "f \<noteq> Child"
      "m_clients (w_m w') = m_clients (w_m v)" "m_connections (w_m w') = m_connections (w_m v)" "\<not> w_open w' fd" "w_me w' = w_me v" "routes v w'"
proof -
  from assms obtain s w1 where c: "access_check fd ip w = Some (Ok (s, w1))"
    by (auto simp: daemon_accept_def run_Ok)
  show thesis
  proof (cases s)
    case None
    with assms c show ?thesis by (intro refused [of w1]) (auto simp: daemon_accept_def run_Ok)
  next
    case (Some i)
    let ?seat = "thn (upd_m (\<lambda>m. m\<lparr>m_clients := (m_clients m)[i := (m_clients m ! i)\<lparr>c_useSSL := ssl\<rparr>]\<rparr>)) (pick_core i)"
    let ?rest = "(if f = Child then thn (upd (\<lambda>w. w\<lparr>w_me := i\<rparr>)) run_child
          else thn (bnd (asks (\<lambda>w. (cf_JSONACL (cfg w), c_acl (m_clients (w_m w) ! i)))) (\<lambda>(json, a).
                 case a of Some a \<Rightarrow> if json then freehttpacl a else ret () | None \<Rightarrow> ret ()))
               (close_fd fd))"
    have "thn ?seat ?rest w1 = Some (Ok (u, w'))"
      using assms c Some by (simp add: daemon_accept_def bnd_def thn_assoc)
    then obtain x v where v: "?seat w1 = Some (Ok (x, v))" and r: "?rest v = Some (Ok (u, w'))"
      by (auto simp only: thn_Ok)
    have c: "access_check fd ip w = Some (Ok (Some i, w1))" using c Some by simp
    note s = admission_seats [OF c v]
    show ?thesis
    proof (cases "f = Child")
      case True
      with r have "run_child (v\<lparr>w_me := i\<rparr>) = Some (Ok (u, w'))" by (auto simp: run_Ok)
      then show ?thesis by (rule child [OF c s True])
    next
      case False
      with r show ?thesis by (intro parent [OF c s]) (auto simp: run_Ok freehttpacl_def routes_def split: option.split_asm if_split_asm)
    qed
  qed
qed

lemma seated_session:
  assumes "seated fd ip i w v" and "run_child (v\<lparr>w_me := i\<rparr>) = Some (Ok (u, w'))"
  shows "same_sessions (m_clients (w_m w)) (m_clients (w_m w')) \<and> m_connections (w_m w') = m_connections (w_m w) \<and> routes w w'"
proof -
  let ?v = "v\<lparr>w_me := i\<rparr>"
  from assms(1) obtain c where v: "i < length (m_clients (w_m w))" "\<not> c_inuse (m_clients (w_m w) ! i)"
      "m_connections (w_m v) = m_connections (w_m w)" "m_clients (w_m v) = (m_clients (w_m w))[i := c]" "c_id c = i" "routes w v"
    unfolding seated_def by blast
  have "in_slot ?v" "c_id (cl ?v) = w_me ?v" using v by (simp_all add: in_slot_def cl_def)
  from run_child_ends [OF assms(2) this]
  have w': "own_slot ?v w'" "cl w' = zero_client" "m_connections (w_m w') = m_connections (w_m v)" by simp_all
  have len: "length (m_clients (w_m w')) = length (m_clients (w_m w))" using w'(1) v(4) by (simp add: own_slot_def)
  have "m_clients (w_m w') ! j = m_clients (w_m w) ! j \<or> \<not> c_inuse (m_clients (w_m w') ! j) \<and> \<not> c_inuse (m_clients (w_m w) ! j)" for j
  proof (cases "j = i")
    case True
    have "w_me w' = i" using w'(1) by (simp add: own_slot_def)
    with True w'(2) v(2) show ?thesis by (simp add: cl_def zero_client_def)
  next
    case False
    then have "m_clients (w_m w') ! j = m_clients (w_m v) ! j" using w'(1) by (simp add: own_slot_def)
    with False v(4) show ?thesis by simp
  qed
  moreover have "routes w w'" using v(6) w'(1) by (simp add: own_slot_def routes_def)
  ultimately show ?thesis using len w'(3) v(3) by (simp add: same_sessions_def)
qed

section \<open>Properties\<close>


text \<open>C1: 
  A connection that is served to its end, or refused, leaves nothing behind: every slot in use is as it
  was, every other slot is free, and the count of the sessions is what it was.
\<close>

theorem connection_leaves_no_trace:
  assumes "daemon_accept fd ip ssl Child w = Some (Ok (u, w'))"
  shows "same_sessions (m_clients (w_m w)) (m_clients (w_m w')) \<and> m_connections (w_m w') = m_connections (w_m w)"
  using assms
proof (cases rule: daemon_accept_cases)
  case (refused v)
  then have "calm w v" using access_check_None [of fd ip] by (auto simp: calm_refusal_def)
  then show ?thesis using refused(2) by (simp add: calm_def)
next
  case (child i w1 v)
  then show ?thesis using seated_session [of fd ip i w v u w'] by blast
qed simp

text \<open>
  When the fork fails, the daemon closes the descriptor but not the slot: it stays in use for the
  address, with no process that would free it, and the count of the sessions does not know of it.
\<close>

theorem failed_fork_keeps_slot:
  assumes "daemon_accept fd ip ssl Fork_failed w = Some (Ok (u, w'))" and "access_check fd ip w = Some (Ok (Some i, v))"
  shows "\<not> c_inuse (m_clients (w_m w) ! i) \<and> c_inuse (m_clients (w_m w') ! i) \<and> c_ip4addr (m_clients (w_m w') ! i) = ip
    \<and> c_pid (m_clients (w_m w') ! i) = 0 \<and> \<not> w_open w' fd \<and> m_connections (w_m w') = m_connections (w_m w)"
  using assms(1)
proof (cases rule: daemon_accept_cases)
  case (parent j w1 v')
  then show ?thesis using assms(2) by (auto simp: seated_def)
qed (use assms(2) in auto)

definition slots_typed :: "client_t list \<Rightarrow> bool" where
  "slots_typed cs \<longleftrightarrow> (\<forall>j < length cs. c_inuse (cs ! j) \<longrightarrow> c_id (cs ! j) = j)"

definition undisturbed :: "client_t list \<Rightarrow> client_t list \<Rightarrow> bool" where
  "undisturbed cs cs' \<longleftrightarrow> length cs' = length cs \<and> (\<forall>j < length cs. c_inuse (cs ! j) \<longrightarrow> cs' ! j = cs ! j)"

fun reloads :: "event \<Rightarrow> bool" where
  "reloads (Hangup sr) = True"
| "reloads _ = False"
lemma same_sessions_typed:
  "same_sessions cs cs' \<Longrightarrow> slots_typed cs \<Longrightarrow> slots_typed cs' \<and> undisturbed cs cs'"
  unfolding same_sessions_def slots_typed_def undisturbed_def by metis

lemma accept_routes:
  assumes "daemon_accept fd ip ssl f w = Some (Ok (u, w'))"
  shows "routes w w'"
  using assms
proof (cases rule: daemon_accept_cases)
  case (refused v)
  then show ?thesis using access_check_None [of fd ip] by (auto simp: calm_refusal_def calm_def routes_def)
next
  case (child i w1 v)
  then show ?thesis using seated_session [of fd ip i w v u w'] by blast
next
  case (parent i w1 v)
  then show ?thesis by (auto simp: seated_def intro: routes_trans)
qed

lemma accept_typed:
  assumes "daemon_accept fd ip ssl f w = Some (Ok (u, w'))" and "slots_typed (m_clients (w_m w))"
  shows "slots_typed (m_clients (w_m w')) \<and> undisturbed (m_clients (w_m w)) (m_clients (w_m w'))"
  using assms(1)
proof (cases rule: daemon_accept_cases)
  case (refused v)
  then have "calm w v" using access_check_None [of fd ip] by (auto simp: calm_refusal_def)
  then show ?thesis using refused(2) same_sessions_typed [OF _ assms(2)] by (simp add: calm_def)
next
  case (child i w1 v)
  then show ?thesis using seated_session [of fd ip i w v u w'] same_sessions_typed [OF _ assms(2)] by blast
next
  case (parent i w1 v)
  then show ?thesis using assms(2) by (auto simp: seated_def slots_typed_def undisturbed_def nth_list_update)
qed

lemma undisturbed_trans: "undisturbed a b \<Longrightarrow> undisturbed b c \<Longrightarrow> undisturbed a c"
  unfolding undisturbed_def by metis

lemma undisturbed_refl: "undisturbed a a"
  by (simp add: undisturbed_def)

text \<open>C8: 
  The daemon keeps its table typed: over any sequence of connections, each in a process of its own, in
  the parent of one or after a failed fork, every slot in use bears its own number, and no slot that
  is in use is touched.
\<close>

theorem daemon_keeps_slots_typed:
  assumes "daemon_select_loop es w = Some (Ok (u, w'))" and "\<not> list_ex reloads es" and "slots_typed (m_clients (w_m w))"
  shows "slots_typed (m_clients (w_m w')) \<and> undisturbed (m_clients (w_m w)) (m_clients (w_m w'))"
  using assms
proof (induction es arbitrary: w)
  case Nil
  then show ?case by (simp add: run_Ok undisturbed_refl)
next
  case (Cons e es)
  show ?case
  proof (cases e)
    case (Connection fd ip ssl f)
    with Cons.prems(1) obtain x w1 where a: "daemon_accept fd ip ssl f w = Some (Ok (x, w1))"
      and r: "daemon_select_loop es w1 = Some (Ok (u, w'))" by (auto simp: run_Ok)
    have t: "slots_typed (m_clients (w_m w1))" "undisturbed (m_clients (w_m w)) (m_clients (w_m w1))"
      using accept_typed [OF a Cons.prems(3)] by simp_all
    moreover have "slots_typed (m_clients (w_m w')) \<and> undisturbed (m_clients (w_m w1)) (m_clients (w_m w'))"
      using Cons.IH [OF r _ t(1)] Cons.prems(2) by simp
    ultimately show ?thesis using undisturbed_trans by blast
  qed (use Cons.prems in \<open>auto simp: run_Ok undisturbed_refl\<close>)
qed

section \<open>Witnesses\<close>

text \<open>A daemon with one session in slot 0 and a client who calls.\<close>

definition gate_world :: world where
  "gate_world = door_world\<lparr>w_me := 0, w_m := (w_m door_world)\<lparr>m_clients := [zero_client\<lparr>c_inuse := True, c_ip4addr := 9\<rparr>, zero_client, zero_client]\<rparr>,
     w_open := (\<lambda>_. False)(5 := True, 6 := True)\<rparr>"

lemma gate_admits: "runs (access_check 5 1) gate_world (\<lambda>r _. r = Some 1)"
  by code_simp


theorem connection_leaves_no_trace_witness:
  "\<exists>w'. daemon_accept 5 1 False Child gate_world = Some (Ok ((), w'))
     \<and> same_sessions (m_clients (w_m gate_world)) (m_clients (w_m w')) \<and> m_connections (w_m w') = 0"
proof -
  have "runs (daemon_accept 5 1 False Child) gate_world (\<lambda>_ _. True)" by code_simp
  then obtain u w' where r: "daemon_accept 5 1 False Child gate_world = Some (Ok (u, w'))" unfolding runs_iff by blast
  have "m_connections (w_m gate_world) = 0" by code_simp
  with connection_leaves_no_trace [OF r] r show ?thesis by auto
qed

theorem failed_fork_keeps_slot_witness:
  "\<exists>w'. daemon_accept 5 1 False Fork_failed gate_world = Some (Ok ((), w'))
     \<and> c_inuse (m_clients (w_m w') ! 1) \<and> c_ip4addr (m_clients (w_m w') ! 1) = 1"
proof -
  have "runs (daemon_accept 5 1 False Fork_failed) gate_world (\<lambda>_ _. True)" by code_simp
  then obtain u w' where r: "daemon_accept 5 1 False Fork_failed gate_world = Some (Ok (u, w'))" unfolding runs_iff by blast
  from gate_admits obtain v where a: "access_check 5 1 gate_world = Some (Ok (Some 1, v))" unfolding runs_iff by blast
  from failed_fork_keeps_slot [OF r a] r show ?thesis by auto
qed

theorem daemon_keeps_slots_typed_witness:
  "\<exists>w'. daemon_select_loop [Connection 5 1 False Child, Connection 6 1 False Fork_failed] gate_world = Some (Ok ((), w'))
     \<and> slots_typed (m_clients (w_m w')) \<and> undisturbed (m_clients (w_m gate_world)) (m_clients (w_m w'))"
proof -
  let ?es = "[Connection 5 1 False Child, Connection 6 1 False Fork_failed]"
  have "runs (daemon_select_loop ?es) gate_world (\<lambda>_ _. True)" by code_simp
  then obtain u w' where r: "daemon_select_loop ?es gate_world = Some (Ok (u, w'))" unfolding runs_iff by blast
  have "slots_typed (m_clients (w_m gate_world))" by (simp add: slots_typed_def gate_world_def door_world_def less_Suc_eq numeral_3_eq_3 Let_def zero_client_def)
  with daemon_keeps_slots_typed [OF r] r show ?thesis by auto
qed


lemma strtoul_nat_str:
  assumes "s = [] \<or> \<not> isdigit_c (s ! 0)" and "n < 2 ^ 64"
  shows "strtoul (nat_str n @ s) = Some (n, s)"
proof -
  obtain c cs where n: "nat_str n = c # cs" by (cases "nat_str n") auto
  have c: "\<forall>d \<in> set (nat_str n). isdigit_c d" by (rule nat_str_digits)
  then have "isdigit_c c" using n by simp
  then have sp: "\<not> isspace_c c" "c \<noteq> CHR ''-''" "c \<noteq> CHR ''+''" using isdigit_not_space by blast+
  have d: "digits_acc 0 (nat_str n @ s) = n"
    using c assms(1) by (cases s) (simp_all add: digits_acc_append digits_acc_nat_str)
  have "dropWhile isdigit_c (nat_str n @ s) = s"
    using c assms(1) by (cases s) (simp_all add: dropWhile_append)
  with d sp c assms(2) n show ?thesis by (simp add: strtoul_def)
qed

definition port_text :: "(nat \<times> string) list \<Rightarrow> string" where
  "port_text ps = concat (map (\<lambda>(p, s). nat_str p @ s) ps)"

lemma digit_no_separator: "isdigit_c c \<Longrightarrow> c \<notin> set separators"
  by (auto simp: separators_def isdigit_c_def code_def)

lemma drop_separators:
  assumes "set s \<subseteq> set separators"
  shows "dropWhile (\<lambda>c. c \<in> set separators) (s @ port_text ps) = port_text ps"
proof -
  have "dropWhile (\<lambda>c. c \<in> set separators) (port_text ps) = port_text ps"
  proof (cases ps)
    case (Cons q qs)
    obtain c cs where c: "nat_str (fst q) = c # cs" by (cases "nat_str (fst q)") auto
    then have "isdigit_c c" using nat_str_digits [of "fst q"] by simp
    then show ?thesis using Cons c digit_no_separator by (auto simp: port_text_def split: prod.split)
  qed (simp add: port_text_def)
  moreover have "\<forall>c \<in> set s. c \<in> set separators" using assms by blast
  ultimately show ?thesis by (simp add: dropWhile_append)
qed

text \<open>
  A list of ports that is written with separators is read back, port by port; the port 65536 passes the
  check and is read as port 0.
\<close>

theorem port_list_roundtrip:
  assumes "\<forall>(p, s) \<in> set ps. 0 < p \<and> p \<le> 65536 \<and> s \<noteq> [] \<and> set s \<subseteq> set separators"
  shows "port_list (port_text ps) = Ok (map (\<lambda>(p, s). if p = 65536 then 0 else p) ps)"
  using assms
proof (induction ps)
  case (Cons q ps)
  obtain p s where q: "q = (p, s)" by fastforce
  with Cons.prems have p: "0 < p" "p \<le> 65536" "s \<noteq> []" "set s \<subseteq> set separators" by auto
  obtain c cs where s: "s = c # cs" using p(3) by (cases s) auto
  then have nd: "\<not> isdigit_c c" using p(4) digit_no_separator by auto
  let ?r = "port_text ps"
  have t: "port_text (q # ps) = nat_str p @ s @ ?r" by (simp add: port_text_def q)
  have u: "strtoul (nat_str p @ s @ ?r) = Some (p, s @ ?r)" using nd s p(2) by (intro strtoul_nat_str) auto
  obtain d ds where "nat_str p @ s @ ?r = d # ds" by (cases "nat_str p @ s @ ?r") auto
  then have "port_list (port_text (q # ps)) = obind (port_list ?r) (\<lambda>ps. Ok (p mod 2 ^ 16 # ps))"
    using u p(1,2) drop_separators [OF p(4), of ps] unfolding t by simp
  with Cons q p(2) show ?case by auto
qed (simp add: port_text_def)

theorem port_list_roundtrip_witness:
  "port_list ''119, 65536 8119;'' = Ok [119, 0, 8119]"
proof -
  have "port_text [(119, '', ''), (65536, '' ''), (8119, '';'')] = ''119, 65536 8119;''" by code_simp
  with port_list_roundtrip [of "[(119, '', ''), (65536, '' ''), (8119, '';'')]"] show ?thesis
    by (simp add: separators_def)
qed

end
