(* ===== verification/Daylimits.thy ===== *)
theory Daylimits
  imports Active
begin

text \<open>
  \<open>auth/timelimit.c\<close> and \<open>auth/daylimits.c\<close>: whether a time of day lies in a period, and how long the
  period or the gap still lasts; the speed that goes with a volume, and the table of volumes in a
  database, which is a parameter that answers statements. The lock around the table is the field
  \<open>dllock\<close> of the shared memory; a process that waits for it waits for ever when no other gives it back.
\<close>

section \<open>Times of day\<close>

definition daylen :: int where "daylen = 60 * 24"

definition schar :: "char \<Rightarrow> int" where
  "schar c = signed_take_bit 7 (int (code c))"

text \<open>The check as it is written; a string of less than two bytes, or of three with the colon, is read past its end.\<close>

definition timeformatok :: "string \<Rightarrow> bool outcome" where
  "timeformatok s =
     (let t = (\<lambda>i. schar (chr_at s i)) in
      if length s < 2 \<or> (length s = 3 \<and> chr_at s 2 = CHR '':'') then Undef
      else Ok (\<not> ((t 0 < 0 \<and> t 0 > 2) \<or> (t 1 < 0 \<and> t 1 > 9) \<or> chr_at s 2 \<noteq> CHR '':'' \<or> (t 3 < 0 \<and> t 2 > 5) \<or> (t 4 < 0 \<and> t 3 > 9))))"

text \<open>The comparison of the three times in minutes.\<close>

definition between_minutes :: "int \<Rightarrow> int \<Rightarrow> int \<Rightarrow> bool \<times> int" where
  "between_minutes startsec endsec0 nowsec0 =
     (let endsec = (if endsec0 < startsec then endsec0 + daylen else endsec0);
          nowsec = (if endsec0 < startsec \<and> nowsec0 < startsec then nowsec0 + daylen else nowsec0);
          atleast1 = (\<lambda>n. if n = 0 then 1 else n)
      in if startsec \<le> nowsec \<and> nowsec \<le> endsec then (True, atleast1 ((endsec - nowsec) * 60))
         else if nowsec \<le> startsec then (False, atleast1 ((startsec - nowsec) * 60))
         else (False, atleast1 ((daylen - nowsec + startsec) * 60)))"

definition timebetweenms :: "string \<Rightarrow> string \<Rightarrow> int \<Rightarrow> int \<Rightarrow> bool \<times> int" where
  "timebetweenms starttime endtime nowhr nowmin =
     between_minutes (atoi starttime * 60 + atoi (drop 3 starttime)) (atoi endtime * 60 + atoi (drop 3 endtime)) (nowhr * 60 + nowmin)"

text \<open>The local time is nothing when \<open>localtime\<close> fails; the time that is left is stored only when both
  strings pass the check.\<close>

definition timebetween :: "string \<Rightarrow> string \<Rightarrow> (int \<times> int) option \<Rightarrow> (bool \<times> int option) outcome" where
  "timebetween starttime endtime tm =
     obind (timeformatok starttime) (\<lambda>a.
     obind (if a then timeformatok endtime else Ok False) (\<lambda>b.
     if \<not> b then Ok (False, None)
     else (case tm of
             None \<Rightarrow> Ok (False, None)
           | Some (hr, mn) \<Rightarrow> (let (r, n) = timebetweenms starttime endtime hr mn in Ok (r, Some n)))))"

section \<open>Volumes\<close>

text \<open>The scan from the last limit down to the first.\<close>

definition get_kbit_from_gb :: "int \<Rightarrow> profile_t \<Rightarrow> int" where
  "get_kbit_from_gb gb pf = (case find (\<lambda>l. l_gb l \<le> gb) (rev (p_Limits pf)) of Some l \<Rightarrow> l_kbit l | None \<Rightarrow> 0)"

text \<open>A database answers a statement with the rows of its first column, or fails.\<close>

type_synonym database = "string \<Rightarrow> string list option"

definition signed_str :: "nat \<Rightarrow> string" where
  \<comment> \<open>\<open>%lld\<close> of an unsigned counter\<close>
  "signed_str n = int_str (signed64 n)"

definition select_login :: "string \<Rightarrow> string" where
  "select_login user = ''SELECT login FROM miniac WHERE login = '' @ [CHR 39] @ user @ [CHR 39]"

definition insert_login :: "client_t \<Rightarrow> string \<Rightarrow> string" where
  "insert_login c prf = ''INSERT INTO miniac(login, bytes, profile) VALUES('' @ [CHR 39] @ c_username c @ [CHR 39] @ '', ''
     @ signed_str (c_bytes c) @ '', '' @ [CHR 39] @ prf @ [CHR 39] @ '')''"

definition update_login :: "client_t \<Rightarrow> string" where
  "update_login c = ''UPDATE miniac SET bytes = bytes + '' @ signed_str (c_bytes c) @ '' WHERE login = '' @ [CHR 39] @ c_username c @ [CHR 39]"

definition dl_waitlock :: "int \<Rightarrow> int option" where
  "dl_waitlock dllock = (if 0 < dllock then None else Some (dllock + 1))"

definition dl_unlock :: int where "dl_unlock = 0"

text \<open>The statements sent to the database, and the lock afterwards.\<close>

definition do_acct_daylimit ::
  "database option \<Rightarrow> client_t \<Rightarrow> profile_t option \<Rightarrow> int \<Rightarrow> (string list \<times> int) outcome option" where
  "do_acct_daylimit conn c prf dllock =
     (case conn of
        None \<Rightarrow> Some (Ok ([], dllock))
      | Some db \<Rightarrow> Option.bind (dl_waitlock dllock) (\<lambda>dllock.
          (let sel = select_login (c_username c) in
           case db sel of
             None \<Rightarrow> Some (Ok ([sel], dllock))
           | Some [] \<Rightarrow> (case prf of None \<Rightarrow> Some Undef | Some pf \<Rightarrow> Some (Ok ([sel, insert_login c (p_Name pf)], dl_unlock)))
           | Some _ \<Rightarrow> Some (Ok ([sel, update_login c], dl_unlock)))))"

definition quot_gb :: "int \<Rightarrow> int" where
  \<comment> \<open>the division of C, stored to an \<open>int\<close>\<close>
  "quot_gb n = signed_take_bit 31 (if n < 0 then - (- n div 1000000000) else n div 1000000000)"

definition get_userkbit :: "database option \<Rightarrow> string \<Rightarrow> profile_t option \<Rightarrow> int outcome" where
  "get_userkbit conn user prf =
     (case conn of
        None \<Rightarrow> Ok 0
      | Some db \<Rightarrow>
          (case db (''SELECT bytes FROM miniac WHERE login = '' @ [CHR 39] @ user @ [CHR 39]) of
             Some [b] \<Rightarrow> (case prf of None \<Rightarrow> Undef | Some pf \<Rightarrow> Ok (get_kbit_from_gb (quot_gb (atol b)) pf))
           | _ \<Rightarrow> Ok 0))"

section \<open>Properties\<close>

definition hhmm :: "nat \<Rightarrow> nat \<Rightarrow> string" where
  "hhmm h m = pad0 2 (nat_str h) @ CHR '':'' # pad0 2 (nat_str m)"

lemma length_pad0_2: "h < 100 \<Longrightarrow> length (pad0 2 (nat_str h)) = 2"
  using nat_str_length [of 2 h] by (simp add: pad0_def)

lemma digits_acc_stop: "\<not> isdigit_c c \<Longrightarrow> \<forall>x \<in> set ds. isdigit_c x \<Longrightarrow> digits_acc a (ds @ c # s) = digits_acc a ds"
  by (simp add: digits_acc_append)

lemma atoi_small: "0 \<le> atol s \<Longrightarrow> atol s < 2 ^ 31 \<Longrightarrow> atoi s = atol s"
  unfolding atoi_def by (rule signed_take_bit_int_eq_self) auto

lemma atol_until:
  assumes "\<not> isdigit_c c"
  shows "atol (pad0 w (nat_str n) @ c # s) = atol (pad0 w (nat_str n))"
proof -
  obtain d ds where p: "pad0 w (nat_str n) = d # ds" by (cases "pad0 w (nat_str n)") simp_all
  with pad0_digits [of w n] have d: "isdigit_c d" "\<forall>x \<in> set ds. isdigit_c x" by auto
  then have "\<not> isspace_c d" "d \<noteq> CHR ''-''" "d \<noteq> CHR ''+''" using isdigit_not_space by auto
  with d show ?thesis using digits_acc_stop [OF assms, of "d # ds" 0 s] by (simp add: p atol_def)
qed

lemma atoi_hhmm:
  assumes "h < 100" and "m < 100"
  shows "atoi (hhmm h m) = int h" "atoi (drop 3 (hhmm h m)) = int m"
proof -
  have "\<not> isdigit_c (CHR '':'')" by (simp add: isdigit_c_def code_def)
  then have "atol (hhmm h m) = int h" using assms by (simp add: hhmm_def atol_until atol_pad0)
  then show "atoi (hhmm h m) = int h" using assms by (simp add: atoi_small)
  obtain a b where "pad0 2 (nat_str h) = [a, b]"
    using length_pad0_2 [OF assms(1)] by (auto simp: length_Suc_conv numeral_2_eq_2)
  then have "drop 3 (hhmm h m) = pad0 2 (nat_str m)" by (simp add: hhmm_def)
  then show "atoi (drop 3 (hhmm h m)) = int m" using assms by (simp add: atoi_small atol_pad0)
qed

lemma schar_digit: "isdigit_c c \<Longrightarrow> 0 \<le> schar c"
proof -
  assume "isdigit_c c"
  then have "code c < 128" by (simp add: isdigit_c_def)
  then have "signed_take_bit 7 (int (code c)) = int (code c)" by (intro signed_take_bit_int_eq_self) auto
  then show ?thesis by (simp add: schar_def)
qed

lemma timeformatok_hhmm:
  assumes "h < 100" and "m < 100"
  shows "timeformatok (hhmm h m) = Ok True"
proof -
  let ?a = "pad0 2 (nat_str h)" and ?b = "pad0 2 (nat_str m)"
  obtain a0 a1 where a: "?a = [a0, a1]" using length_pad0_2 [OF assms(1)] by (auto simp: length_Suc_conv numeral_2_eq_2)
  obtain b0 b1 where b: "?b = [b0, b1]" using length_pad0_2 [OF assms(2)] by (auto simp: length_Suc_conv numeral_2_eq_2)
  have "isdigit_c a0" "isdigit_c a1" "isdigit_c b0" "isdigit_c b1"
    using pad0_digits [of 2 h] pad0_digits [of 2 m] by (simp_all add: a b)
  then have "0 \<le> schar a0" "0 \<le> schar a1" "0 \<le> schar b0" "0 \<le> schar b1" by (simp_all add: schar_digit)
  then show ?thesis by (simp add: timeformatok_def hhmm_def a b chr_at_def Let_def)
qed

definition on_circle :: "int \<Rightarrow> int \<Rightarrow> int \<Rightarrow> bool \<times> int" where
  "on_circle s e t =
     (let ins = (if s \<le> e then s \<le> t \<and> t \<le> e else s \<le> t \<or> t \<le> e) in
      (ins, max 1 (60 * (((if ins then e else s) - t) mod 1440))))"

lemma between_on_circle:
  assumes "0 \<le> s" "s < 1440" "0 \<le> e" "e < 1440" "0 \<le> t" "t < (1440 :: int)"
  shows "between_minutes s e t = on_circle s e t"
proof -
  have m: "a mod 1440 = a" if "0 \<le> a" "a < 1440" for a :: int using that by simp
  have n: "a mod 1440 = a + 1440" if "- 1440 \<le> a" "a < 0" for a :: int
    using that by (metis add.commute add_mono_thms_linordered_field(4) add_0 mod_add_self2 mod_pos_pos_trivial
        add.right_inverse add_left_mono linorder_not_less add_0_right add_strict_left_mono)
  consider "s \<le> e" "s \<le> t" "t \<le> e" | "s \<le> e" "t < s" | "s \<le> e" "e < t" | "e < s" "s \<le> t" | "e < s" "t \<le> e"
    | "e < s" "e < t" "t < s" by linarith
  then show ?thesis
  proof cases
    case 1
    then show ?thesis using assms m [of "e - t"] by (simp add: between_minutes_def daylen_def on_circle_def max_def)
  next
    case 2
    then show ?thesis using assms m [of "s - t"] by (simp add: between_minutes_def daylen_def on_circle_def max_def)
  next
    case 3
    then show ?thesis using assms n [of "s - t"] by (simp add: between_minutes_def daylen_def on_circle_def max_def)
  next
    case 4
    then show ?thesis using assms n [of "e - t"] by (simp add: between_minutes_def daylen_def on_circle_def max_def)
  next
    case 5
    then show ?thesis using assms m [of "e - t"] by (simp add: between_minutes_def daylen_def on_circle_def max_def)
  next
    case 6
    then show ?thesis using assms m [of "s - t"] by (simp add: between_minutes_def daylen_def on_circle_def max_def)
  qed
qed

text \<open>C28: The minutes of a day are a circle: the time is inside from the start of the period to its end, over
  midnight where the end is before the start. What is left is the way to the end, or outside to the
  start, in seconds and at least one.\<close>

theorem timebetween_on_circle:
  assumes "h1 < 24" and "m1 < 60" and "h2 < 24" and "m2 < 60" and "h < 24" and "m < 60"
  shows "timebetween (hhmm h1 m1) (hhmm h2 m2) (Some (int h, int m)) =
    (let (ins, n) = on_circle (int h1 * 60 + int m1) (int h2 * 60 + int m2) (int h * 60 + int m) in Ok (ins, Some n))"
proof -
  have "timebetweenms (hhmm h1 m1) (hhmm h2 m2) (int h) (int m)
      = on_circle (int h1 * 60 + int m1) (int h2 * 60 + int m2) (int h * 60 + int m)"
    using assms by (simp add: timebetweenms_def atoi_hhmm between_on_circle)
  then show ?thesis using assms by (simp add: timebetween_def timeformatok_hhmm)
qed

text \<open>The check of the format looks at the colon only: of the times with digits it refuses none, so \<open>53:92\<close>,
  which the test of the same file says must not pass, does.\<close>

theorem timeformatok_only_colon:
  assumes "length s = 5" and "\<forall>c \<in> set s. code c < 128"
  shows "timeformatok s = Ok (s ! 2 = CHR '':'')"
proof -
  have "0 \<le> schar c" if "c \<in> set s" for c
  proof -
    have "signed_take_bit 7 (int (code c)) = int (code c)" using assms(2) that by (intro signed_take_bit_int_eq_self) auto
    then show ?thesis by (simp add: schar_def)
  qed
  then have "\<not> schar (s ! i) < 0" if "i < 5" for i using that assms(1) by (simp add: not_less)
  then show ?thesis using assms(1) by (simp add: timeformatok_def Let_def chr_at_def)
qed

text \<open>With the limits in rising order, a volume gets the speed of the highest limit it has reached.\<close>

theorem kbit_of_highest_limit:
  assumes "sorted (map l_gb (p_Limits pf))" and "l \<in> set (p_Limits pf)" and "l_gb l \<le> gb"
  shows "\<exists>h \<in> set (p_Limits pf). get_kbit_from_gb gb pf = l_kbit h \<and> l_gb h \<le> gb \<and> (\<forall>x \<in> set (p_Limits pf). l_gb x \<le> gb \<longrightarrow> l_gb x \<le> l_gb h)"
proof -
  obtain h where h: "find (\<lambda>l. l_gb l \<le> gb) (rev (p_Limits pf)) = Some h"
    using assms(2,3) by (cases "find (\<lambda>l. l_gb l \<le> gb) (rev (p_Limits pf))") (auto simp: find_None_iff)
  then obtain i where i: "i < length (p_Limits pf)" "l_gb h \<le> gb" "h = rev (p_Limits pf) ! i"
      "\<forall>j < i. \<not> l_gb (rev (p_Limits pf) ! j) \<le> gb"
    by (auto simp: find_Some_iff)
  have "l_gb x \<le> l_gb h" if "x \<in> set (p_Limits pf)" "l_gb x \<le> gb" for x
  proof -
    obtain j where j: "j < length (p_Limits pf)" "x = rev (p_Limits pf) ! j"
      using \<open>x \<in> set (p_Limits pf)\<close> by (metis in_set_conv_nth length_rev set_rev)
    with i(4) that(2) have "i \<le> j" by (meson not_less)
    moreover have "sorted_wrt (\<ge>) (map l_gb (rev (p_Limits pf)))"
      using assms(1) by (simp add: rev_map [symmetric] sorted_wrt_rev)
    ultimately have "map l_gb (rev (p_Limits pf)) ! i \<ge> map l_gb (rev (p_Limits pf)) ! j"
      using i(1) j(1) by (metis le_less length_map length_rev order_refl sorted_wrt_nth_less)
    then show ?thesis using i(1,3) j by simp
  qed
  moreover have "h \<in> set (p_Limits pf)" using i(1,3) by (metis length_rev nth_mem set_rev)
  ultimately show ?thesis using h i(2) by (intro bexI [of _ h]) (simp_all add: get_kbit_from_gb_def)
qed

text \<open>When the table cannot be read the lock is kept, and from then on no call that reaches the database returns;
  a call whose statement is answered gives the lock back.\<close>

theorem failed_select_blocks:
  assumes "db (select_login (c_username c)) = None"
  shows "\<exists>ss lock. do_acct_daylimit (Some db) c prf 0 = Some (Ok (ss, lock))
    \<and> (\<forall>db' c' prf'. do_acct_daylimit (Some db') c' prf' lock = None)"
  using assms by (simp add: do_acct_daylimit_def dl_waitlock_def)

theorem daylimit_gives_back:
  assumes "do_acct_daylimit (Some db) c prf 0 = Some (Ok (ss, lock))" and "db (select_login (c_username c)) \<noteq> None"
  shows "lock = 0 \<and> (\<exists>s. ss = [select_login (c_username c), s])"
  using assms by (auto simp: do_acct_daylimit_def dl_waitlock_def dl_unlock_def Let_def split: option.splits list.splits)

section \<open>Witnesses\<close>

theorem timebetween_on_circle_witness:
  "timebetween ''22:30'' ''06:15'' (Some (23, 45)) = Ok (True, Some 23400)
    \<and> timebetween ''22:30'' ''06:15'' (Some (7, 0)) = Ok (False, Some 55800)"
proof -
  have t: "hhmm 22 30 = ''22:30''" "hhmm 6 15 = ''06:15''" by code_simp+
  show ?thesis
    using timebetween_on_circle [of 22 30 6 15 23 45] timebetween_on_circle [of 22 30 6 15 7 0]
    by (simp add: t on_circle_def)
qed

theorem timeformatok_only_colon_witness: "timeformatok ''53:92'' = Ok True"
  using timeformatok_only_colon [of "''53:92''"] by (simp add: code_def numeral_2_eq_2)

definition two_limits :: profile_t where
  "two_limits = zero_profile\<lparr>p_Limits := [\<lparr>l_gb = 0, l_kbit = 8000\<rparr>, \<lparr>l_gb = 10, l_kbit = 1000\<rparr>]\<rparr>"

theorem kbit_of_highest_limit_witness:
  "\<exists>h \<in> set (p_Limits two_limits). get_kbit_from_gb 12 two_limits = l_kbit h \<and> l_gb h \<le> 12
    \<and> (\<forall>x \<in> set (p_Limits two_limits). l_gb x \<le> 12 \<longrightarrow> l_gb x \<le> l_gb h)"
  by (rule kbit_of_highest_limit [of two_limits "\<lparr>l_gb = 0, l_kbit = 8000\<rparr>" 12]) (simp_all add: two_limits_def)

theorem failed_select_blocks_witness:
  "\<exists>ss lock. do_acct_daylimit (Some (\<lambda>_. None)) zero_client None 0 = Some (Ok (ss, lock))
    \<and> (\<forall>db' c' prf'. do_acct_daylimit (Some db') c' prf' lock = None)"
  by (rule failed_select_blocks) simp

theorem daylimit_gives_back_witness:
  "do_acct_daylimit (Some (\<lambda>_. Some [''7''])) zero_client None 0
    = Some (Ok ([select_login [], update_login zero_client], 0))
    \<and> (0 :: int) = 0 \<and> (\<exists>s. [select_login [], update_login zero_client] = [select_login (c_username zero_client), s])"
proof -
  have r: "do_acct_daylimit (Some (\<lambda>_. Some [''7''])) zero_client None 0
      = Some (Ok ([select_login [], update_login zero_client], 0))"
    by (simp add: do_acct_daylimit_def dl_waitlock_def dl_unlock_def zero_client_def)
  from daylimit_gives_back [OF this] r show ?thesis by simp
qed

end
