(* ===== verification/Authenticators.thy ===== *)
theory Authenticators
  imports Auth Daylimits
begin

text \<open>
  The authenticator modules: \<open>auth_ignore.c\<close>, \<open>auth_passwd.c\<close>, \<open>auth_pop3.c\<close>, \<open>auth_remote.c\<close>,
  \<open>auth_radius.c\<close>, \<open>auth_mysql.c\<close>, \<open>auth_postgres.c\<close>, \<open>auth_ldap.c\<close>, \<open>auth/auth_http.c\<close>,
  \<open>auth/auth_json.c\<close> and the arguments of a module of \<open>auth/config.c\<close>. A module gets its arguments and
  the account data of the client and fills in its verdict. The databases, the directory and the RADIUS and
  HTTP libraries are parameters: what they answer to the request the module makes. The line end of a
  message, which the write to the client drops, is left off.
\<close>

section \<open>Verdicts\<close>

definition MSG_AUTH_OK :: string where "MSG_AUTH_OK = ''281 Authentication Accepted''"
definition MSG_AUTH_REJ :: string where "MSG_AUTH_REJ = ''482 Authentication Rejected''"

definition accepted :: "authres_t \<Rightarrow> authres_t" where
  "accepted ar = ar\<lparr>ar_authenticated := True, ar_message := Some MSG_AUTH_OK\<rparr>"

definition rejected :: "authres_t \<Rightarrow> authres_t" where
  "rejected ar = ar\<lparr>ar_message := Some MSG_AUTH_REJ\<rparr>"

definition failed :: "authres_t \<Rightarrow> authres_t" where
  "failed ar = ar\<lparr>ar_message := Some MSG_AUTH_ERR\<rparr>"

definition auth_ignore :: "string \<Rightarrow> authres_t \<Rightarrow> authres_t" where
  "auth_ignore args ar = (if strcaseeq args ''true'' then accepted ar else rejected ar)"

section \<open>The password file\<close>

text \<open>
  The three variables of the line keep their values from line to line; \<open>None\<close> is a variable no line has
  set. The first two have 32 bytes, and a field of 32 ends behind them.
\<close>

record passwd_vars =
  pw_u :: "string option"
  pw_p :: "string option"
  pw_r :: "string option"

definition no_vars :: passwd_vars where
  "no_vars = \<lparr>pw_u = None, pw_p = None, pw_r = None\<rparr>"

definition passwd_fmt :: "conv list" where
  "passwd_fmt = [FCls (\<lambda>c. c \<noteq> CHR '':'') (Some 32), FLit '':'', FCls (\<lambda>c. c \<noteq> CHR '':'') (Some 32), FLit '':'',
     FCls (\<lambda>c. \<not> eol c) (Some 128)]"

definition set_var :: "sval list \<Rightarrow> nat \<Rightarrow> string option \<Rightarrow> string option" where
  "set_var vs k old = (if k < length vs then Some (sv vs k []) else old)"

definition passwd_scan :: "string \<Rightarrow> passwd_vars \<Rightarrow> passwd_vars outcome" where
  "passwd_scan buf v =
     (let vs = sscanf passwd_fmt buf in
      if 32 \<le> length (sv vs 0 []) \<or> 32 \<le> length (sv vs 1 []) then Undef
      else Ok \<lparr>pw_u = set_var vs 0 (pw_u v), pw_p = set_var vs 1 (pw_p v), pw_r = set_var vs 2 (pw_r v)\<rparr>)"

definition passwd_reason :: "authres_t \<Rightarrow> string \<Rightarrow> authres_t" where
  "passwd_reason ar r =
     (if strncaseeq r ''ok'' 2 then accepted ar
      else if strncaseeq r ''np'' 2 then accepted (ar\<lparr>ar_posting := False\<rparr>)
      else ar\<lparr>ar_message := Some (''482 '' @ r)\<rparr>)"

text \<open>The verdict of a line, or nothing when it is about another user.\<close>

definition passwd_verdict :: "authres_t \<Rightarrow> passwd_vars \<Rightarrow> authres_t option outcome" where
  "passwd_verdict ar v =
     (case pw_u v of
        None \<Rightarrow> Undef
      | Some u \<Rightarrow>
          if \<not> strcaseeq u (ar_username ar) then Ok None
          else (case pw_p v of
                  None \<Rightarrow> Undef
                | Some p \<Rightarrow>
                    if \<not> strcaseeq p (ar_password ar) then Ok (Some (rejected ar))
                    else (case pw_r v of None \<Rightarrow> Undef | Some r \<Rightarrow> Ok (Some (passwd_reason ar r)))))"

definition passwd_comment :: "string \<Rightarrow> bool" where
  "passwd_comment buf \<longleftrightarrow> chr_at buf 0 = CHR ''#'' \<or> chr_at buf 0 = CHR '';''"

fun passwd_loop :: "authres_t \<Rightarrow> string list \<Rightarrow> passwd_vars \<Rightarrow> authres_t outcome" where
  "passwd_loop ar [] v = Ok (rejected ar)"
| "passwd_loop ar (buf # ls) v =
     (if passwd_comment buf then passwd_loop ar ls v
      else obind (passwd_scan buf v) (\<lambda>v. obind (passwd_verdict ar v) (\<lambda>r.
        case r of Some a \<Rightarrow> Ok a | None \<Rightarrow> passwd_loop ar ls v)))"

definition auth_passwd :: "files \<Rightarrow> string \<Rightarrow> authres_t \<Rightarrow> authres_t outcome" where
  "auth_passwd fs args ar = (case fs args of None \<Rightarrow> Ok (failed ar) | Some ls \<Rightarrow> passwd_loop ar ls no_vars)"

section \<open>Other servers\<close>

text \<open>The arguments are a host of less than 128 bytes and a port.\<close>

definition host_port :: "string \<Rightarrow> (string \<times> nat) option outcome" where
  "host_port args =
     (let fmt = [FCls (\<lambda>c. c \<noteq> CHR '':'') (Some 128), FLit '':'', FInt None]; vs = sscanf fmt args in
      if 128 \<le> length (sv vs 0 []) then Undef
      else if sscanf_ret fmt args \<noteq> 2 then Ok None
      else Ok (Some (sv vs 0 [], nat (iv vs 1 0 mod 65536))))"

text \<open>
  The buffer of 256 bytes holds the last request, over it what was read of the reply, without a null of
  its own.
\<close>

definition LINEBUF :: nat where "LINEBUF = 256"

definition print_to :: "string \<Rightarrow> string \<Rightarrow> string outcome" where
  "print_to s buf = (if LINEBUF \<le> length s then Undef else Ok (s @ [NUL] @ drop (length s + 1) buf))"

definition read_over :: "string \<Rightarrow> string \<Rightarrow> string" where
  "read_over s buf = s @ drop (length s) buf"

text \<open>A request and its reply; nothing when there was no reply.\<close>

definition ask :: "int \<Rightarrow> string \<Rightarrow> string \<Rightarrow> string option io" where
  "ask sock request buf =
     bnd (lift_o (print_to request buf)) (\<lambda>buf.
     thn (write_socket sock request)
     (bnd (read_socket sock LINEBUF) (\<lambda>r.
        ret (case r of Rerr \<Rightarrow> None | Bytes s \<Rightarrow> if s = [] then None else Some (read_over s buf)))))"

definition c_string :: "string option \<Rightarrow> string" where
  \<comment> \<open>what \<open>%s\<close> prints\<close>
  "c_string s = (case s of None \<Rightarrow> ''(null)'' | Some s \<Rightarrow> s)"

text \<open>The greeting is refused when its first three bytes are all wrong; \<open>None\<close> is a refusal. Of a greeting of one
  byte the third is read before it is set.\<close>

definition handshake_pop3 :: "int \<Rightarrow> string option io" where
  "handshake_pop3 sock =
     bnd (read_socket sock LINEBUF) (\<lambda>r.
     case r of
       Rerr \<Rightarrow> ret None
     | Bytes s \<Rightarrow>
         if s = [] then ret None
         else if LINEBUF \<le> length s \<or> (length s = 1 \<and> chr_at s 0 \<noteq> CHR ''+'') then crash
         else if chr_at s 0 \<noteq> CHR ''+'' \<and> chr_at s 1 \<noteq> CHR ''O'' \<and> chr_at s 2 \<noteq> CHR ''K'' then ret None
         else ret (Some (s @ [NUL])))"

definition auth_pop3 :: "string \<Rightarrow> authres_t \<Rightarrow> authres_t io" where
  "auth_pop3 args ar =
     bnd (lift_o (host_port args)) (\<lambda>hp.
     case hp of
       None \<Rightarrow> ret (failed ar)
     | Some (server, port) \<Rightarrow>
         bnd (connect_socket server port) (\<lambda>s.
         case s of
           None \<Rightarrow> ret (failed ar)
         | Some sock \<Rightarrow>
             bnd (handshake_pop3 sock) (\<lambda>b.
             case b of
               None \<Rightarrow> ret (failed ar)
             | Some b \<Rightarrow>
                 bnd (ask sock (''USER '' @ c_string (ar_username_s ar) @ CRLF) b) (\<lambda>b.
                 case b of
                   None \<Rightarrow> ret (failed ar)
                 | Some b \<Rightarrow>
                     bnd (ask sock (''PASS '' @ ar_password ar @ CRLF) b) (\<lambda>b.
                     case b of
                       None \<Rightarrow> ret (failed ar)
                     | Some b \<Rightarrow>
                         if strncaseeq ''+OK'' (cstr b) 3
                         then thn (write_socket sock (''QUIT'' @ CRLF)) (thn (close_fd sock) (ret (accepted ar)))
                         else ret (rejected ar))))))"

definition connect_to_server :: "string \<Rightarrow> nat \<Rightarrow> int option io" where
  "connect_to_server server port =
     bnd (connect_socket server port) (\<lambda>s.
     case s of
       None \<Rightarrow> ret None
     | Some sock \<Rightarrow> bnd (handshake_nntp sock) (\<lambda>ok. if ok then ret (Some sock) else thn (close_fd sock) (ret None)))"

definition auth_remote :: "string \<Rightarrow> authres_t \<Rightarrow> authres_t io" where
  "auth_remote args ar =
     bnd (lift_o (host_port args)) (\<lambda>hp.
     case hp of
       None \<Rightarrow> ret (failed ar)
     | Some (server, port) \<Rightarrow>
         bnd (connect_to_server server port) (\<lambda>s.
         case s of
           None \<Rightarrow> ret (failed ar)
         | Some sock \<Rightarrow>
             bnd (ask sock (''AUTHINFO USER '' @ c_string (ar_username_s ar) @ CRLF) []) (\<lambda>b.
             case b of
               None \<Rightarrow> ret (failed ar)
             | Some b \<Rightarrow>
                 bnd (ask sock (''AUTHINFO PASS '' @ ar_password ar @ CRLF) b) (\<lambda>b.
                 case b of
                   None \<Rightarrow> ret (failed ar)
                 | Some b \<Rightarrow> if atoi (cstr b) = 281 then ret (accepted ar) else ret (rejected ar)))))"

section \<open>Formats\<close>

text \<open>A format from the configuration: \<open>%s\<close> and the decimal conversions with any length, and the text between.\<close>

datatype farg = FS string | FN int

fun sprintf :: "string \<Rightarrow> farg list \<Rightarrow> string outcome" where
  "sprintf [] as = Ok []"
| "sprintf (c # cs) as =
     (if c \<noteq> CHR ''%'' then obind (sprintf cs as) (\<lambda>s. Ok (c # s))
      else (case (cs, as) of
              ([], _) \<Rightarrow> Undef
            | (d # ds, _) \<Rightarrow>
                if d = CHR ''%'' then obind (sprintf ds as) (\<lambda>s. Ok (CHR ''%'' # s))
                else if d = CHR ''l'' then sprintf (CHR ''%'' # ds) as
                else (case as of
                        [] \<Rightarrow> Undef
                      | FS t # as \<Rightarrow> if d = CHR ''s'' then obind (sprintf ds as) (\<lambda>s. Ok (t @ s)) else Undef
                      | FN i # as \<Rightarrow> if d = CHR ''d'' \<or> d = CHR ''u'' then obind (sprintf ds as) (\<lambda>s. Ok (int_str i @ s)) else Undef)))"

fun has_conv :: "char \<Rightarrow> string \<Rightarrow> bool" where
  \<comment> \<open>\<open>strstr (s, "%d") != NULL\<close>\<close>
  "has_conv d (a # b # s) = ((a = CHR ''%'' \<and> b = d) \<or> has_conv d (b # s))"
| "has_conv d _ = False"

fun stripped_conv :: "string \<Rightarrow> string" where
  \<comment> \<open>the first \<open>%S\<close> written over with \<open>%s\<close>\<close>
  "stripped_conv (a # b # s) =
     (if a = CHR ''%'' \<and> b = CHR ''S'' then a # CHR ''s'' # s else a # stripped_conv (b # s))"
| "stripped_conv s = s"

definition print_url :: "string \<Rightarrow> farg list \<Rightarrow> string outcome" where
  "print_url args as = obind (sprintf args as) (strcpy_to 1024)"

section \<open>Web services\<close>

definition http_fmt :: "conv list" where
  "http_fmt = [FInt None, FLit '':'', FInt None, FLit '':'', FLong, FLit '':'', FStr (Some 32)]"

definition http_answer :: "master_t \<Rightarrow> authres_t \<Rightarrow> string \<Rightarrow> authres_t outcome" where
  "http_answer m ar mem =
     (let vs = sscanf http_fmt mem; prf = sv vs 3 [] in
      if MAX_NAME \<le> length prf then Undef
      else if sscanf_ret http_fmt mem \<noteq> 4 then Ok (rejected ar)
      else if iv vs 0 0 = 0 then Ok (rejected ar)
      else if getprofile prf m = None then Ok (failed ar)
      else Ok (accepted (ar\<lparr>ar_bytes := u64 (iv vs 2 0), ar_posting := (iv vs 1 0 \<noteq> 0), ar_profile := Some prf\<rparr>)))"

text \<open>The verdict, and the arguments as they are left in the table of the aliases.\<close>

definition auth_http :: "(string \<Rightarrow> string option) \<Rightarrow> master_t \<Rightarrow> string \<Rightarrow> authres_t \<Rightarrow> (authres_t \<times> string) outcome" where
  "auth_http get m args ar =
     (let args' = (if has_conv (CHR ''S'') args then stripped_conv args else args) in
      if \<not> has_conv (CHR ''S'') args \<and> \<not> has_conv (CHR ''s'') args then Ok (failed ar, args)
      else obind (print_url args' [FS (c_string (ar_username_s ar)), FS (ar_password ar)]) (\<lambda>url.
        case ar_username_s ar of
          None \<Rightarrow> Undef
        | Some u \<Rightarrow>
            (let ar = ar\<lparr>ar_logname := Some u\<rparr> in
             case get url of
               None \<Rightarrow> Ok (failed ar, args')
             | Some mem \<Rightarrow> obind (http_answer m ar mem) (\<lambda>ar. Ok (ar, args')))))"

text \<open>The fields of the JSON answer: \<open>str k\<close> is nothing when there is no field \<open>k\<close>, \<open>num k\<close> is 0 then.\<close>

definition json_rights :: "(string \<Rightarrow> int) \<Rightarrow> authres_t \<Rightarrow> authres_t" where
  "json_rights num ar =
     ar\<lparr>ar_authenticated := (num ''r'' \<noteq> 0 \<and> num ''d'' = 0 \<and> num ''oq'' = 0), ar_posting := (num ''p'' \<noteq> 0)\<rparr>"

definition json_limits :: "(string \<Rightarrow> string option) \<Rightarrow> (string \<Rightarrow> int) \<Rightarrow> authres_t \<Rightarrow> authres_t" where
  "json_limits str num ar =
     ar\<lparr>ar_bytes := (if str ''b'' = None then ar_bytes ar else u64 (num ''b'')),
        ar_userkbit := (if str ''kb'' = None then ar_userkbit ar else num ''kb''),
        ar_readpat := (if str ''rp'' = None then ar_readpat ar else str ''rp''),
        ar_postpat := (if str ''pp'' = None then ar_postpat ar else str ''pp''),
        ar_timeleft := (if str ''t'' = None then ar_timeleft ar else num ''t'')\<rparr>"

definition json_answer :: "(string \<Rightarrow> string option) \<Rightarrow> (string \<Rightarrow> int) \<Rightarrow> authres_t \<Rightarrow> authres_t outcome" where
  "json_answer str num ar =
     (let ar = json_rights num ar in
      case str ''msg'' of
        None \<Rightarrow> Ok (ar\<lparr>ar_authenticated := False\<rparr>)
      | Some msg \<Rightarrow>
          obind (strcpy_to 1024 ((if ar_authenticated ar then ''281 '' else ''482 '') @ msg)) (\<lambda>t.
          let ar = ar\<lparr>ar_message := Some t\<rparr> in
          case str ''prf'' of
            None \<Rightarrow> Ok (ar\<lparr>ar_authenticated := False\<rparr>)
          | Some prf \<Rightarrow> Ok (json_limits str num (ar\<lparr>ar_profile := Some prf\<rparr>))))"

definition auth_json :: "env \<Rightarrow> (string \<Rightarrow> string option) \<Rightarrow> string \<Rightarrow> authres_t \<Rightarrow> authres_t outcome" where
  "auth_json env get args ar =
     (if \<not> has_conv (CHR ''s'') args then Ok (failed ar)
      else (let ar = ar\<lparr>ar_logname := Some (ar_username ar)\<rparr> in
        obind (print_url args [FS (ar_username ar), FS (ar_password ar), FS (ar_hostname ar), FN (e_pid env)]) (\<lambda>url.
        case get url of
          None \<Rightarrow> Ok (failed ar)
        | Some mem \<Rightarrow> json_answer (e_json_string env mem) (e_json_int env mem) ar)))"

section \<open>Databases and the directory\<close>

definition select_user :: "authres_t \<Rightarrow> string" where
  "select_user ar = ''SELECT login FROM users WHERE login = '' @ [CHR 39] @ ar_username ar @ [CHR 39]
     @ '' AND password = '' @ [CHR 39] @ ar_password ar @ [CHR 39]"

definition db_verdict :: "database option \<Rightarrow> authres_t \<Rightarrow> authres_t" where
  "db_verdict conn ar =
     (case conn of
        None \<Rightarrow> failed ar
      | Some db \<Rightarrow> (case db (select_user ar) of None \<Rightarrow> failed ar | Some [] \<Rightarrow> rejected ar | Some _ \<Rightarrow> accepted ar))"

definition auth_postgres :: "(string \<Rightarrow> database option) \<Rightarrow> string \<Rightarrow> authres_t \<Rightarrow> authres_t outcome" where
  "auth_postgres pg args ar = obind (strcpy_to 512 (select_user ar)) (\<lambda>_. Ok (db_verdict (pg args) ar))"

record mysql_args =
  my_dbname :: string
  my_hostname :: string
  my_username :: string
  my_password :: string

text \<open>
  The value behind a keyword and one more byte. A token that ends with the keyword is read past its end, and
  a value that fills its array has no end.
\<close>

definition keyword_value :: "nat \<Rightarrow> nat \<Rightarrow> string \<Rightarrow> string outcome" where
  "keyword_value n k p = (if length p \<le> k then Undef else strcpy_to n (drop (k + 1) p))"

definition mysql_token :: "string \<Rightarrow> mysql_args \<Rightarrow> mysql_args outcome" where
  "mysql_token p a =
     (if strncaseeq p ''dbname'' 6 then obind (keyword_value 32 6 p) (\<lambda>v. Ok (a\<lparr>my_dbname := v\<rparr>))
      else if strncaseeq p ''hostname'' 8 then obind (keyword_value 128 8 p) (\<lambda>v. Ok (a\<lparr>my_hostname := v\<rparr>))
      else if strncaseeq p ''username'' 8 then obind (keyword_value 32 8 p) (\<lambda>v. Ok (a\<lparr>my_username := v\<rparr>))
      else if strncaseeq p ''password'' 8 then obind (keyword_value 32 8 p) (\<lambda>v. Ok (a\<lparr>my_password := v\<rparr>))
      else Ok a)"

primrec mysql_tokens :: "string list \<Rightarrow> mysql_args \<Rightarrow> mysql_args outcome" where
  "mysql_tokens [] a = Ok a"
| "mysql_tokens (p # ps) a = obind (mysql_token p a) (mysql_tokens ps)"

text \<open>The statement is sent with 255 bytes, whatever its length; the database sees its text up to the null.\<close>

definition auth_mysql :: "(mysql_args \<Rightarrow> database option) \<Rightarrow> string \<Rightarrow> authres_t \<Rightarrow> authres_t outcome" where
  "auth_mysql mysql args ar =
     (let ts = strtok '',: '' args in
      if ts = [] then Undef
      else obind (mysql_tokens ts \<lparr>my_dbname = [], my_hostname = [], my_username = [], my_password = []\<rparr>) (\<lambda>a.
        if my_dbname a = [] \<or> my_hostname a = [] then Ok (failed ar)
        else (case mysql a of
                None \<Rightarrow> Ok (failed ar)
              | Some db \<Rightarrow> obind (strcpy_to 256 (select_user ar)) (\<lambda>_. Ok (db_verdict (Some db) ar)))))"

text \<open>The directory: the search with a filter fails or gives the name of its first entry, if any; a bind with a
  name and a password succeeds or not.\<close>

record directory =
  ld_search :: "string \<Rightarrow> string option option"
  ld_bind :: "string \<Rightarrow> string \<Rightarrow> bool"

definition ldap_filter :: "string \<Rightarrow> string" where
  "ldap_filter user = ''(&(objectClass=posixAccount)(uid='' @ user @ ''))''"

definition auth_ldap :: "directory option \<Rightarrow> authres_t \<Rightarrow> authres_t" where
  "auth_ldap ld ar =
     (case ld of
        None \<Rightarrow> failed ar
      | Some d \<Rightarrow>
          (case ld_search d (ldap_filter (ar_username ar)) of
             None \<Rightarrow> failed ar
           | Some None \<Rightarrow> rejected ar
           | Some (Some dn) \<Rightarrow> if ld_bind d dn (ar_password ar) then accepted ar else rejected ar))"

section \<open>RADIUS\<close>

text \<open>
  The library: the default port of the service, what \<open>rad_auth_open\<close>, \<open>rad_add_server\<close> and
  \<open>rad_create_request\<close> answer, the name of the host, and the reply to a request: whether it is an accept,
  and its attributes. The attributes of a request are put one after the other; a number has 32 bits.
\<close>

datatype rad_name = NAS_PORT | SERVICE_TYPE | USER_NAME | USER_PASSWORD | NAS_IP_ADDRESS | NAS_IDENTIFIER
  | FRAMED_IP_ADDRESS | ACCT_STATUS_TYPE | ACCT_SESSION_ID | ACCT_SESSION_TIME | ACCT_INPUT_OCTETS
  | ACCT_INPUT_PACKETS | ACCT_OUTPUT_OCTETS | ACCT_OUTPUT_PACKETS

datatype rad_value = Rad_int nat | Rad_string string | Rad_addr nat

datatype rad_reply = Filter_id string | Configuration_token string | Reply_message string | Vendor_specific | Unknown_attribute

record rad_service =
  rs_port :: "int option"
  rs_open :: bool
  rs_add :: "string \<Rightarrow> int \<Rightarrow> string \<Rightarrow> bool"
  rs_create :: bool
  rs_hostname :: string
  rs_send :: "(rad_name \<times> rad_value) list \<Rightarrow> bool \<times> rad_reply list"

abbreviation not_colon :: "char \<Rightarrow> bool" where "not_colon c \<equiv> c \<noteq> CHR '':''"

text \<open>
  The three forms of the arguments, tried one after the other. The words are stored to arrays of 128, 128 and
  8 bytes as far as each attempt gets.
\<close>

definition radius_fmt3 :: "conv list" where
  "radius_fmt3 = [FCls not_colon (Some 128), FLit '':'', FCls not_colon (Some 128), FLit '':'', FCls not_colon (Some 128), FLit '':'', FInt None]"

definition radius_fmt2 :: "conv list" where
  "radius_fmt2 = [FCls not_colon (Some 128), FLit '':'', FCls not_colon (Some 128), FLit '':'', FStr None]"

definition radius_fmt1 :: "conv list" where
  "radius_fmt1 = [FCls not_colon (Some 128), FLit '':'', FStr None]"

definition radius_fits :: "sval list \<Rightarrow> bool" where
  "radius_fits vs \<longleftrightarrow> length (sv vs 0 []) < 128 \<and> length (sv vs 1 []) < 128 \<and> length (sv vs 2 []) < 8"

definition radius_args :: "int \<Rightarrow> string \<Rightarrow> (string \<times> string \<times> string \<times> int) option outcome" where
  "radius_args port args =
     (let v3 = sscanf radius_fmt3 args; v2 = sscanf radius_fmt2 args; v1 = sscanf radius_fmt1 args in
      if \<not> radius_fits v3 then Undef
      else if sscanf_ret radius_fmt3 args = 4 then Ok (Some (sv v3 0 [], sv v3 1 [], sv v3 2 [], iv v3 3 0))
      else if \<not> radius_fits v2 then Undef
      else if sscanf_ret radius_fmt2 args = 3 then Ok (Some (sv v2 0 [], sv v2 1 [], sv v2 2 [], port))
      else if \<not> radius_fits v1 then Undef
      else if sscanf_ret radius_fmt1 args = 2 then Ok (Some (sv v1 0 [], sv v1 1 [], ''strip'', port))
      else Ok None)"

definition radius_request :: "rad_service \<Rightarrow> nat \<Rightarrow> string \<Rightarrow> authres_t \<Rightarrow> (rad_name \<times> rad_value) list outcome" where
  "radius_request rs ip strip ar =
     obind (if strcaseeq strip ''strip'' then (case ar_username_s ar of None \<Rightarrow> Undef | Some u \<Rightarrow> Ok u) else Ok (ar_username ar)) (\<lambda>user.
     Ok [(NAS_PORT, Rad_int (ar_port ar)), (SERVICE_TYPE, Rad_int 1), (USER_NAME, Rad_string user),
         (USER_PASSWORD, Rad_string (ar_password ar)), (NAS_IP_ADDRESS, Rad_addr (ar_in_addr ar)),
         (NAS_IDENTIFIER, Rad_string (rs_hostname rs)), (FRAMED_IP_ADDRESS, Rad_addr ip)])"

fun radius_attr :: "rad_reply \<Rightarrow> authres_t \<times> string option \<Rightarrow> authres_t \<times> string option" where
  "radius_attr (Filter_id s) (ar, msg) = (if take 6 s = ''nopost'' then ar\<lparr>ar_posting := False\<rparr> else ar, msg)"
| "radius_attr (Configuration_token s) (ar, msg) = (ar\<lparr>ar_profile := Some s\<rparr>, msg)"
| "radius_attr (Reply_message s) (ar, msg) = (ar, Some s)"
| "radius_attr _ x = x"

definition radius_message :: "authres_t \<Rightarrow> string option \<Rightarrow> authres_t" where
  "radius_message ar msg =
     ar\<lparr>ar_message := Some (case msg of
          None \<Rightarrow> if ar_authenticated ar then MSG_AUTH_OK else MSG_AUTH_REJ
        | Some s \<Rightarrow> take 1022 ((if ar_authenticated ar then ''281 '' else ''482 '') @ s))\<rparr>"

text \<open>The verdict, with the request that was sent, if any; \<open>ip\<close> is the address of the client.\<close>

definition auth_radius :: "rad_service \<Rightarrow> nat \<Rightarrow> string \<Rightarrow> authres_t \<Rightarrow> (authres_t \<times> (rad_name \<times> rad_value) list) outcome" where
  "auth_radius rs ip args ar =
     obind (radius_args (case rs_port rs of Some p \<Rightarrow> p | None \<Rightarrow> 1812) args) (\<lambda>a.
     case a of
       None \<Rightarrow> Ok (failed ar, [])
     | Some (server, secret, strip, port) \<Rightarrow>
         if strcaseeq strip ''strip'' \<and> strcaseeq strip ''nostrip'' then Ok (failed ar, [])
         else if \<not> rs_open rs then Ok (failed ar, [])
         else if \<not> rs_add rs server port secret then Ok (failed ar, [])
         else if \<not> rs_create rs then Ok (failed ar, [])
         else obind (radius_request rs ip strip ar) (\<lambda>req.
           let (ok, attrs) = rs_send rs req;
               (ar, msg) = fold radius_attr (take 50 attrs) (if ok then accepted ar else ar, None)
           in Ok (radius_message ar msg, req)))"

section \<open>Modules with two parts\<close>

definition get_module_config_val :: "string \<Rightarrow> string \<Rightarrow> master_t \<Rightarrow> string option outcome" where
  "get_module_config_val confargs var m =
     (case find (\<lambda>p. strncaseeq p var (length var)) (strtok '',: '' confargs) of
        None \<Rightarrow> Undef
      | Some p \<Rightarrow> obind (keyword_value 31 (length var) p) (\<lambda>v.
          Ok (map_option (\<lambda>i. ar_args (m_args m ! i)) (get_args v m))))"

text \<open>RADIUS, and for an accepted user the speed for the volume the database has.\<close>

definition raddaylim_speed :: "database option \<Rightarrow> master_t \<Rightarrow> authres_t \<Rightarrow> authres_t outcome" where
  "raddaylim_speed conn m ar =
     (case ar_username_s ar of
        None \<Rightarrow> Undef
      | Some s \<Rightarrow> obind (str_escape s) (\<lambda>user.
          let ar = ar\<lparr>ar_logname := Some user\<rparr> in
          if ar_profile ar = None \<or> ar_profile ar = Some [] then Ok (ar\<lparr>ar_message := Some MSG_AUTH_ERR, ar_authenticated := False\<rparr>)
          else obind (get_userkbit conn user (map_option (\<lambda>p. m_profiles m ! p) (getprofile (the (ar_profile ar)) m))) (\<lambda>k.
            Ok (ar\<lparr>ar_userkbit := k\<rparr>))))"

definition auth_raddaylim :: "rad_service \<Rightarrow> (string \<Rightarrow> database option) \<Rightarrow> master_t \<Rightarrow> nat \<Rightarrow> string \<Rightarrow> authres_t \<Rightarrow> authres_t outcome" where
  "auth_raddaylim rs pg m ip args ar =
     obind (get_module_config_val args ''rad'' m) (\<lambda>radargs.
     obind (get_module_config_val args ''db'' m) (\<lambda>dbargs.
     case (radargs, dbargs) of
       (Some ra, Some da) \<Rightarrow> obind (auth_radius rs ip ra ar) (\<lambda>(ar, req).
         if ar_authenticated ar then raddaylim_speed (pg da) m ar else Ok ar)
     | _ \<Rightarrow> Ok ar))"

section \<open>The password file decides\<close>

definition passwd_line :: "string \<times> string \<times> string \<Rightarrow> string" where
  "passwd_line e = (case e of (u, p, r) \<Rightarrow> u @ CHR '':'' # p @ CHR '':'' # r @ [LF])"

definition passwd_entry :: "string \<times> string \<times> string \<Rightarrow> bool" where
  "passwd_entry e \<longleftrightarrow> (case e of (u, p, r) \<Rightarrow>
     u \<noteq> [] \<and> p \<noteq> [] \<and> r \<noteq> [] \<and> CHR '':'' \<notin> set u \<and> CHR '':'' \<notin> set p \<and> (\<forall>c \<in> set r. \<not> eol c)
     \<and> length u < 32 \<and> length p < 32 \<and> length r \<le> 128 \<and> hd u \<notin> {CHR ''#'', CHR '';''})"

lemma scan_field:
  assumes "w \<noteq> []" and "CHR '':'' \<notin> set w" and "length w \<le> n"
  shows "scan (FCls not_colon (Some n) # FLit '':'' # fs) (w @ CHR '':'' # s) = (SV w # fst (scan fs s), snd (scan fs s))"
proof -
  have "takeWhile not_colon (w @ CHR '':'' # s) = w" using assms(2) by (intro takeWhile_word) auto
  then show ?thesis using assms(1,3) by (simp add: at_most_def split: prod.split)
qed

lemma scan_passwd_line:
  assumes "passwd_entry (u, p, r)"
  shows "scan passwd_fmt (passwd_line (u, p, r)) = ([SV u, SV p, SV r], False)"
proof -
  have "takeWhile (\<lambda>c. \<not> eol c) (r @ [LF]) = r" using assms by (intro takeWhile_word) (auto simp: passwd_entry_def)
  then have "scan [FCls (\<lambda>c. \<not> eol c) (Some 128)] (r @ [LF]) = ([SV r], False)"
    using assms by (simp add: passwd_entry_def at_most_def)
  moreover have "scan passwd_fmt (passwd_line (u, p, r))
      = (SV u # SV p # fst (scan [FCls (\<lambda>c. \<not> eol c) (Some 128)] (r @ [LF])), snd (scan [FCls (\<lambda>c. \<not> eol c) (Some 128)] (r @ [LF])))"
    using assms by (simp only: passwd_fmt_def passwd_line_def prod.case)
      (simp add: passwd_entry_def scan_field del: scan.simps)
  ultimately show ?thesis by simp
qed

lemma passwd_scan_line:
  assumes "passwd_entry (u, p, r)"
  shows "passwd_scan (passwd_line (u, p, r)) v = Ok \<lparr>pw_u = Some u, pw_p = Some p, pw_r = Some r\<rparr>"
  using assms by (simp add: passwd_scan_def sscanf_def scan_passwd_line set_var_def sv_def Let_def) (simp add: passwd_entry_def)

lemma passwd_scan_short:
  assumes "passwd_entry (u, p, r)"
  shows "passwd_scan (u @ CHR '':'' # p @ CHR '':'' # [LF]) v = Ok \<lparr>pw_u = Some u, pw_p = Some p, pw_r = pw_r v\<rparr>"
proof -
  have "scan passwd_fmt (u @ CHR '':'' # p @ CHR '':'' # [LF]) = ([SV u, SV p], False)"
    using assms unfolding passwd_fmt_def
    by (simp add: passwd_entry_def scan_field del: scan.simps) (simp add: at_most_def)
  then show ?thesis using assms by (simp add: passwd_scan_def sscanf_def set_var_def sv_def Let_def) (simp add: passwd_entry_def)
qed

lemma passwd_no_comment:
  assumes "passwd_entry (u, p, r)"
  shows "\<not> passwd_comment (u @ s)"
  using assms by (cases u) (simp_all add: passwd_comment_def passwd_entry_def chr_at_def)

definition passwd_decides :: "authres_t \<Rightarrow> (string \<times> string \<times> string) list \<Rightarrow> authres_t" where
  "passwd_decides ar es =
     (case find (\<lambda>(u, p, r). strcaseeq u (ar_username ar)) es of
        None \<Rightarrow> rejected ar
      | Some (u, p, r) \<Rightarrow> if strcaseeq p (ar_password ar) then passwd_reason ar r else rejected ar)"

lemma passwd_loop_decides:
  "\<forall>e \<in> set es. passwd_entry e \<Longrightarrow> passwd_loop ar (map passwd_line es) v = Ok (passwd_decides ar es)"
proof (induction es arbitrary: v)
  case (Cons e es)
  obtain u p r where e: "e = (u, p, r)" by (cases e) auto
  then have ok: "passwd_entry (u, p, r)" using Cons.prems by simp
  then have "\<not> passwd_comment (passwd_line e)" by (simp add: e passwd_line_def passwd_no_comment)
  moreover have "passwd_scan (passwd_line e) v = Ok \<lparr>pw_u = Some u, pw_p = Some p, pw_r = Some r\<rparr>"
    using ok by (simp add: e passwd_scan_line)
  ultimately show ?case using Cons by (simp add: passwd_verdict_def passwd_decides_def e)
qed (simp add: passwd_decides_def)

section \<open>No login without a module's yes\<close>

definition same_login :: "world \<Rightarrow> world \<Rightarrow> bool" where
  "same_login w w' \<longleftrightarrow> c_authenticated (cl w') = c_authenticated (cl w)"

interpretation login: frame same_login
  by unfold_locales (simp_all add: same_login_def)

lemma same_login_set_cl:
  assumes "\<And>c. c_authenticated (f c) = c_authenticated c"
  shows "same_login w (set_cl f w)"
proof (cases "in_slot w")
  case True
  then show ?thesis using assms by (simp add: same_login_def)
next
  case False
  then show ?thesis by (simp add: same_login_def set_cl_def cl_def in_slot_def list_update_beyond)
qed

lemma same_login_tables: "m_clients m = m_clients (w_m w) \<Longrightarrow> same_login w (w\<lparr>w_m := m\<rparr>)"
  by (simp add: same_login_def)

lemma login_set_errormsg: "keeps same_login (set_errormsg s)"
proof -
  have s1: "same_login w (set_cl f w)" if "\<And>c. c_authenticated (f c) = c_authenticated c" for w f
    using that by (rule same_login_set_cl)
  have s2: "same_login w (set_cl f (set_cl g w))"
    if "\<And>c. c_authenticated (f c) = c_authenticated c" "\<And>c. c_authenticated (g c) = c_authenticated c" for w f g
    by (rule login.trans [OF s1 s1]) (simp_all add: that)
  have s3: "same_login w (set_cl f ((set_cl g w)\<lparr>w_m := update_server k h (w_m (set_cl g w))\<rparr>))"
    if "\<And>c. c_authenticated (f c) = c_authenticated c" "\<And>c. c_authenticated (g c) = c_authenticated c" for w f g h k
    by (rule login.trans [OF login.trans [OF s1 same_login_tables] s1]) (simp_all add: that)
  show ?thesis unfolding set_errormsg_def keeps_def upd_def
    by (auto simp: Let_def s1 s2 s3 login.refl split: option.split)
qed

lemma login_swriteclient: "keeps same_login (swriteclient s)"
proof -
  have "keeps same_login (sock_wr fd t)" for fd t
    by (auto simp: keeps_def sock_wr_def same_login_def split: if_splits list.splits wres.splits)
  then show ?thesis unfolding swriteclient_def writeln_def ssl_writeln_def
    by (intro login.rules login_set_errormsg)
qed

text \<open>What a module that refuses leads to: the login goes on only for a verdict that accepts.\<close>

lemma authenticate_asks_module:
  assumes "in_slot w" and "\<not> c_authenticated (cl w)" and "authenticate w = Some (Ok (r, w'))" and "c_authenticated (cl w')"
  shows "\<exists>a f ar. getauth (c_username (cl w)) (w_m w) = Some a
    \<and> e_auth (w_env w) (al_lib (m_aliases (w_m w) ! au_auth (m_auths (w_m w) ! a))) = Some f
    \<and> ar_username ar = c_username (cl w) \<and> ar_password ar = c_password (cl w) \<and> \<not> ar_authenticated ar
    \<and> ar_authenticated (f ar (al_args (m_aliases (w_m w) ! au_auth (m_auths (w_m w) ! a))))"
proof -
  let ?a = "getauth (c_username (cl w)) (w_m w)"
  define w1 where "w1 = set_cl (\<lambda>c. c\<lparr>c_auth := getauth (c_username c) (w_m w)\<rparr>) w"
  have c: "cl w1 = (cl w)\<lparr>c_auth := ?a\<rparr>" using assms(1) by (simp add: w1_def)
  have m: "m_auths (w_m w1) = m_auths (w_m w)" "m_aliases (w_m w1) = m_aliases (w_m w)" "w_env w1 = w_env w" by (simp_all add: w1_def)
  show ?thesis
  proof (cases ?a)
    case None
    with assms(3) show ?thesis
      by (auto simp: authenticate_def run_Ok w1_def [symmetric] new_authresult_def c split: option.splits)
  next
    case (Some a)
    let ?al = "m_aliases (w_m w1) ! au_auth (m_auths (w_m w1) ! a)"
    let ?pass = "upd_cl (\<lambda>c. c\<lparr>c_password := []\<rparr>)"
    from assms(3) obtain ar where ar: "new_authresult ((cl w)\<lparr>c_auth := Some a\<rparr>) (w_m w1) = Ok ar"
      and k: "(case e_auth (w_env w) (al_lib ?al) of
           None \<Rightarrow> thn ?pass (bnd (swriteclient MSG_AUTH_ERR) (\<lambda>_. ret 0))
         | Some f \<Rightarrow> thn ?pass
             (bnd (if ar_authenticated (f ar (al_args ?al)) then auth_login (f ar (al_args ?al)) else ret None) (\<lambda>r.
              case r of Some i \<Rightarrow> ret i
              | None \<Rightarrow> bnd (swriteclient (case ar_message (f ar (al_args ?al)) of None \<Rightarrow> MSG_AUTH_ERR | Some s \<Rightarrow> s)) (\<lambda>_. ret 0)))) w1
           = Some (Ok (r, w'))"
      unfolding authenticate_def Let_def by (auto simp: run_Ok w1_def [symmetric] c Some m(3))
    have u: "ar_username ar = c_username (cl w)" "ar_password ar = c_password (cl w)" "\<not> ar_authenticated ar"
      using ar by (auto simp: new_authresult_def c split: option.splits outcome.splits)
    have p: "keeps same_login ?pass"
      unfolding keeps_def upd_cl_def upd_def by (auto intro: same_login_set_cl)
    have n: "\<not> c_authenticated (cl w1)" using assms(2) by (simp add: c)
    have no: "thn ?pass (bnd (swriteclient t) (\<lambda>_. ret (0 :: int))) w1 \<noteq> Some (Ok (r, w'))" for t
    proof
      assume e: "thn ?pass (bnd (swriteclient t) (\<lambda>_. ret (0 :: int))) w1 = Some (Ok (r, w'))"
      have "keeps same_login (thn ?pass (bnd (swriteclient t) (\<lambda>_. ret (0 :: int))))"
        by (intro login.rules p login_swriteclient)
      from keepsD [OF this e] n assms(4) show False by (simp add: same_login_def)
    qed
    show ?thesis
    proof (cases "e_auth (w_env w) (al_lib ?al)")
      case None
      with k no show ?thesis by simp
    next
      case (Some f)
      have "ar_authenticated (f ar (al_args ?al))"
      proof (rule ccontr)
        assume "\<not> ar_authenticated (f ar (al_args ?al))"
        with k Some have "thn ?pass (bnd (swriteclient (case ar_message (f ar (al_args ?al)) of None \<Rightarrow> MSG_AUTH_ERR | Some s \<Rightarrow> s)) (\<lambda>_. ret 0)) w1
            = Some (Ok (r, w'))" by (auto simp: thn_Ok bnd_Ok basic_Ok)
        with no show False by blast
      qed
      then show ?thesis using \<open>?a = Some a\<close> Some u unfolding m by blast
    qed
  qed
qed

section \<open>Properties\<close>

text \<open>The module of the password file as the table of the modules has it; a run without a result leaves the
  verdict as it was.\<close>

definition passwd_module :: "files \<Rightarrow> authres_t \<Rightarrow> string \<Rightarrow> authres_t" where
  "passwd_module fs ar args = (case auth_passwd fs args ar of Ok a \<Rightarrow> a | _ \<Rightarrow> ar)"



text \<open>An entry whose third field is empty takes the one of the line before: an account that nothing says is
  good is let in when the account above it is.\<close>

theorem passwd_takes_old_field:
  assumes "passwd_entry (u, p, r)" and "passwd_entry (u', p', r)" and "\<not> strcaseeq u (ar_username ar)"
    and "strcaseeq u' (ar_username ar)" and "strcaseeq p' (ar_password ar)"
  shows "passwd_loop ar [passwd_line (u, p, r), u' @ CHR '':'' # p' @ CHR '':'' # [LF]] v = Ok (passwd_reason ar r)"
proof -
  have "\<not> passwd_comment (passwd_line (u, p, r))" "\<not> passwd_comment (u' @ CHR '':'' # p' @ CHR '':'' # [LF])"
    using assms(1,2) by (simp_all add: passwd_line_def passwd_no_comment)
  then show ?thesis
    using assms(3-5) by (simp add: passwd_scan_line [OF assms(1)] passwd_scan_short [OF assms(2)] passwd_verdict_def)
qed

text \<open>An answer of the JSON service without a profile: the client is welcomed with 281, and is not logged in.\<close>

theorem json_welcome_without_login:
  assumes "num ''r'' \<noteq> 0" and "num ''d'' = 0" and "num ''oq'' = 0" and "str ''msg'' = Some t" and "length t < 1020"
    and "str ''prf'' = None"
  shows "\<exists>ar'. json_answer str num ar = Ok ar' \<and> \<not> ar_authenticated ar' \<and> ar_message ar' = Some (''281 '' @ t)"
  using assms by (simp add: json_answer_def json_rights_def strcpy_to_def)

text \<open>Whatever the word is that should say \<open>strip\<close> or \<open>nostrip\<close>, the RADIUS module goes on with it, and
  sends the whole name of the user for any but the first.\<close>

theorem radius_any_strip_word:
  assumes "radius_args 1812 args = Ok (Some (server, secret, word, port))" and "\<not> strcaseeq word ''strip''"
    and "rs_port rs = None" and "rs_open rs" and "rs_add rs server port secret" and "rs_create rs"
  shows "\<exists>ar' req. auth_radius rs ip args ar = Ok (ar', req) \<and> (USER_NAME, Rad_string (ar_username ar)) \<in> set req"
  using assms by (simp add: auth_radius_def radius_request_def split: prod.split)

section \<open>Witnesses\<close>

definition passwd_file :: "(string \<times> string \<times> string) list" where
  "passwd_file = [(''tommy'', ''secret'', ''OK''), (''guest'', ''guest'', ''Guest login not allowed''), (''test'', ''test'', ''np'')]"

lemma passwd_file_entries: "\<forall>e \<in> set passwd_file. passwd_entry e"
  by code_simp

text \<open>A session that has sent its name and password to a server with the password file.\<close>

definition login_world :: "string \<Rightarrow> string \<Rightarrow> world" where
  "login_world u p = sample_world\<lparr>
     w_env := sample_env\<lparr>e_cfg := quiet_cfg, e_fs := [''/passwd'' \<mapsto> map passwd_line passwd_file],
       e_auth := (\<lambda>lib. if lib = ''auth_passwd.so'' then Some (passwd_module [''/passwd'' \<mapsto> map passwd_line passwd_file]) else None)\<rparr>,
     w_m := sample_master\<lparr>
       m_clients := [zero_client, zero_client\<lparr>c_inuse := True, c_id := 1, c_socket := 5, c_profile := Some 0, c_user := Some 0,
         c_acl := Some 0, c_username := u, c_password := p\<rparr>],
       m_users := [zero_user\<lparr>u_key := ''host'', u_connections := 1\<rparr>, zero_user],
       m_aliases := [\<lparr>al_name = ''auth_default'', al_lib = ''auth_passwd.so'', al_args = ''/passwd''\<rparr>],
       m_auths := [\<lparr>au_mask = ''*'', au_auth = 0, au_profile = 0\<rparr>],
       m_profiles := [zero_profile\<lparr>p_Name := ''default'', p_ClientReadTimeout := 10, p_MaxUsers := 5, p_MaxConnections := 5,
         p_MaxUserConcurrent := 2, p_connections := 1, p_numusers := 1\<rparr>],
       m_acls := [\<lparr>acl_start = 0, acl_end = 2 ^ 32 - 1, acl_size = 32, acl_profile = Some 0, acl_read = True, acl_post = True,
         acl_apost = False, acl_deny = False, acl_auth = True, acl_stats = False, acl_unlimit = False\<rparr>]\<rparr>\<rparr>"


definition blank_verdict :: authres_t where
  "blank_verdict = \<lparr>ar_username = ''b'', ar_password = ''pw'', ar_username_s = Some ''b'', ar_port = 1, ar_hostname = ''h'', ar_in_addr = 0,
     ar_authenticated = False, ar_message = None, ar_profile = None, ar_posting = True, ar_bytes = 0, ar_userkbit = 0,
     ar_logname = None, ar_readpat = None, ar_postpat = None, ar_timeleft = 0\<rparr>"


theorem passwd_takes_old_field_witness:
  "passwd_loop blank_verdict [passwd_line (''a'', ''x'', ''ok''), ''b:pw:'' @ [LF]] no_vars = Ok (accepted blank_verdict)"
  using passwd_takes_old_field [of "''a''" "''x''" "''ok''" "''b''" "''pw''" blank_verdict no_vars]
  by (simp add: passwd_entry_def blank_verdict_def strcaseeq_def tolower_c_def code_def passwd_reason_def strncaseeq_def)

theorem json_welcome_without_login_witness:
  "\<exists>ar'. json_answer (\<lambda>k. if k = ''msg'' then Some ''welcome'' else None) (\<lambda>k. if k = ''r'' then 1 else 0) blank_verdict = Ok ar'
    \<and> \<not> ar_authenticated ar' \<and> ar_message ar' = Some ''281 welcome''"
  using json_welcome_without_login [of "\<lambda>k. if k = ''r'' then 1 else 0" "\<lambda>k. if k = ''msg'' then Some ''welcome'' else None" "''welcome''"]
  by simp

definition sure_radius :: rad_service where
  "sure_radius = \<lparr>rs_port = None, rs_open = True, rs_add = (\<lambda>_ _ _. True), rs_create = True, rs_hostname = ''h'',
     rs_send = (\<lambda>_. (True, []))\<rparr>"

theorem radius_any_strip_word_witness:
  "\<exists>ar' req. auth_radius sure_radius 0 ''srv:key:maybe'' blank_verdict = Ok (ar', req) \<and> (USER_NAME, Rad_string ''b'') \<in> set req"
proof -
  have "radius_args 1812 ''srv:key:maybe'' = Ok (Some (''srv'', ''key'', ''maybe'', 1812))" by code_simp
  from radius_any_strip_word [OF this, of sure_radius 0 blank_verdict] show ?thesis
    by (simp add: sure_radius_def strcaseeq_def tolower_c_def code_def) (simp add: blank_verdict_def)
qed

end
