(* ===== verification/Accounting.thy ===== *)
theory Accounting
  imports Authenticators
begin

text \<open>
  The accounting modules: \<open>acct_none.c\<close>, \<open>acct_syslog.c\<close>, \<open>acct_radius.c\<close>, \<open>auth/acct_nssyslog.c\<close>,
  \<open>auth/acct_md5syslog.c\<close>, \<open>auth/acct_http.c\<close>, \<open>auth/acct_json.c\<close>, \<open>auth/acct_radns.c\<close>,
  \<open>auth/acct_daylimit.c\<close>, \<open>auth/acct_raddaylim.c\<close>; the record of a session with its hash of
  \<open>auth/log_acct.c\<close> and \<open>auth/crypto.c\<close>; and the state of the log of \<open>log.c\<close>. The names of facilities
  and priorities are those of \<open>syslognames.h\<close> with the numbers of the C library. What a module reads of the
  process and the host, the hash function and the answers of the RADIUS and HTTP libraries are parameters;
  the lines about errors are left out.
\<close>

section \<open>The state of the log\<close>

record syslog_status =
  ss_is_open :: bool
  ss_prefix :: string
  ss_option :: int
  ss_facility :: int

text \<open>What \<open>log.c\<close> remembers, what the C library was last told with \<open>openlog\<close>, and the lines written: the
  identity in force, the priority and the text.\<close>

record logger =
  lg_status :: syslog_status
  lg_ident :: "(string \<times> int \<times> int) option"
  lg_lines :: "((string \<times> int \<times> int) option \<times> int \<times> string) list"

definition LOG_PID :: int where "LOG_PID = 1"
definition LOG_AUTH :: int where "LOG_AUTH = 32"
definition LOG_NEWS :: int where "LOG_NEWS = 56"
definition LOG_INFO :: int where "LOG_INFO = 6"
definition LOG_WARNING :: int where "LOG_WARNING = 4"

definition syslog_start :: logger where
  "syslog_start = \<lparr>lg_status = \<lparr>ss_is_open = False, ss_prefix = ''nntpswitchd'', ss_option = LOG_PID, ss_facility = LOG_NEWS\<rparr>,
     lg_ident = None, lg_lines = []\<rparr>"

definition syslog_status_get :: "logger \<Rightarrow> syslog_status" where
  "syslog_status_get l = lg_status l"

definition syslog_close :: "logger \<Rightarrow> logger" where
  "syslog_close l = (if \<not> ss_is_open (lg_status l) then l else l\<lparr>lg_status := (lg_status l)\<lparr>ss_is_open := False\<rparr>, lg_ident := None\<rparr>)"

definition syslog_open :: "string \<Rightarrow> int \<Rightarrow> int \<Rightarrow> logger \<Rightarrow> logger" where
  "syslog_open prefix opt fac l =
     (syslog_close l)\<lparr>lg_status := \<lparr>ss_is_open = True, ss_prefix = prefix, ss_option = opt, ss_facility = fac\<rparr>,
        lg_ident := Some (prefix, opt, fac)\<rparr>"

definition syslog_status_set :: "syslog_status \<Rightarrow> logger \<Rightarrow> logger" where
  "syslog_status_set sst l =
     (if ss_is_open sst then syslog_open (ss_prefix sst) (ss_option sst) (ss_facility sst) l else l\<lparr>lg_status := sst\<rparr>)"

definition syslog :: "int \<Rightarrow> string \<Rightarrow> logger \<Rightarrow> logger" where
  "syslog prio s l = l\<lparr>lg_lines := lg_lines l @ [(lg_ident l, prio, s)]\<rparr>"

section \<open>Facilities and priorities\<close>

definition prioritynames :: "(string \<times> int) list" where
  "prioritynames = [(''alert'', 1), (''crit'', 2), (''debug'', 7), (''emerg'', 0), (''err'', 3), (''error'', 3), (''info'', 6),
     (''notice'', 5), (''panic'', 0), (''warn'', 4), (''warning'', 4)]"

definition facilitynames :: "(string \<times> int) list" where
  "facilitynames = [(''auth'', 32), (''security'', 32), (''authpriv'', 80), (''cron'', 72), (''daemon'', 24), (''ftp'', 88), (''kern'', 0),
     (''lpr'', 48), (''mail'', 16), (''news'', 56), (''syslog'', 40), (''user'', 8), (''uucp'', 64), (''local0'', 128), (''local1'', 136),
     (''local2'', 144), (''local3'', 152), (''local4'', 160), (''local5'', 168), (''local6'', 176), (''local7'', 184)]"

definition get_code :: "(string \<times> int) list \<Rightarrow> string \<Rightarrow> int" where
  "get_code names name = (case find (\<lambda>c. strcaseeq name (fst c)) names of Some c \<Rightarrow> snd c | None \<Rightarrow> - 1)"

definition get_facility :: "string \<Rightarrow> int" where "get_facility = get_code facilitynames"
definition get_priority :: "string \<Rightarrow> int" where "get_priority = get_code prioritynames"

definition code_or :: "int \<Rightarrow> int \<Rightarrow> int" where
  "code_or def c = (if c = - 1 then def else c)"

definition syslog_fmt :: "conv list" where
  "syslog_fmt = [FCls (\<lambda>c. c \<noteq> CHR ''.'') (Some 32), FLit ''.'', FStr (Some 32)]"

text \<open>The facility and priority of the arguments \<open>facility.priority\<close> or \<open>facility\<close>; each word has 32 bytes.\<close>

definition syslog_args :: "string \<Rightarrow> (int \<times> int) outcome" where
  "syslog_args args =
     (if CHR ''.'' \<in> set args
      then (let vs = sscanf syslog_fmt args; fac = sv vs 0 []; prio = sv vs 1 [] in
            if 32 \<le> length fac \<or> 32 \<le> length prio then Undef
            else if sscanf_ret syslog_fmt args \<noteq> 2 then Ok (LOG_AUTH, LOG_INFO)
            else Ok (code_or LOG_AUTH (get_facility fac), code_or LOG_INFO (get_priority prio)))
      else if args = [] then Ok (LOG_AUTH, LOG_INFO)
      else Ok (code_or LOG_AUTH (get_facility args), LOG_INFO))"

section \<open>The record of a session\<close>

definition acct_none :: "logger \<Rightarrow> logger" where
  "acct_none l = l"

definition acct_syslog :: "client_t \<Rightarrow> string \<Rightarrow> logger \<Rightarrow> logger outcome" where
  "acct_syslog c args l =
     obind (syslog_args args) (\<lambda>(ifac, iprio).
     let sst = syslog_status_get l;
         l = syslog_open ''nntpswitchd'' LOG_PID ifac l;
         l = syslog iprio (''accounting_entry: '' @ (if c_username c = [] then c_hostname c else c_username c) @ '' ''
               @ nat_str (c_bytes c) @ '' '' @ nat_str (c_articles c) @ '' '' @ nat_str (c_groups c) @ '' ''
               @ nat_str (c_posts c) @ '' '' @ nat_str (c_postbytes c)) l
     in Ok (syslog_status_set sst l))"

definition hex_digit :: "nat \<Rightarrow> char" where
  "hex_digit n = ''0123456789abcdef'' ! n"

definition md5_bytes2digest :: "8 word list \<Rightarrow> string" where
  "md5_bytes2digest bs = concat (map (\<lambda>b. [hex_digit (unat (drop_bit 4 b)), hex_digit (unat (b AND 15))]) bs)"

definition LOGBUF :: nat where
  \<comment> \<open>\<open>MAX_NAME + MAX_HOSTNAME + INET_ADDRSTRLEN + MAX_USERPASS\<close> and the digits\<close>
  "LOGBUF = 32 + 256 + 16 + 64 + (21 + 9 + 9 + 9 + 20 + 2 + 1)"

definition usage_text :: "client_t \<Rightarrow> profile_t \<Rightarrow> string" where
  "usage_text c pf = ''r='' @ p_Name pf @ '' i='' @ inet_ntoa (c_ip4addr c) @ '' h='' @ c_hostname c @ '' u='' @ [CHR 39] @ c_logname c
     @ [CHR 39] @ '' a='' @ nat_str (c_articles c) @ '' b='' @ nat_str (c_bytes c) @ '' p='' @ nat_str (c_posts c)
     @ '' y='' @ nat_str (c_postbytes c)"

definition no_traffic :: "client_t \<Rightarrow> bool" where
  "no_traffic c \<longleftrightarrow> c_bytes c = 0 \<and> c_postbytes c = 0 \<and> c_articles c = 0 \<and> c_posts c = 0"

text \<open>
  The hash is over the text and the time and process that \<open>md5\<close> has mixed in. It is given the length of the
  whole text, also when the buffer holds less of it: one byte more is the null.
\<close>

definition syslog_client_usage_md5 ::
  "(string \<Rightarrow> 8 word list) \<Rightarrow> int \<Rightarrow> int \<Rightarrow> int \<Rightarrow> client_t \<Rightarrow> profile_t \<Rightarrow> string \<Rightarrow> logger \<Rightarrow> logger outcome" where
  "syslog_client_usage_md5 md5 opt fac level c pf prefix l =
     (let sst = syslog_status_get l; text = usage_text c pf; logbuf = take (LOGBUF - 1) text in
      if no_traffic c then Ok l
      else if LOGBUF < length text then Undef
      else let m = md5_bytes2digest (md5 (if length text = LOGBUF then logbuf @ [NUL] else logbuf)) in
           Ok (syslog_status_set sst (syslog level (prefix @ '' m='' @ m @ '' '' @ logbuf)
             (syslog_open ''nntpswitchd'' opt fac l))))"

definition NSE_ACCT_LOG :: "(string \<Rightarrow> 8 word list) \<Rightarrow> string \<Rightarrow> client_t \<Rightarrow> profile_t \<Rightarrow> logger \<Rightarrow> logger outcome" where
  "NSE_ACCT_LOG md5 modul c pf = syslog_client_usage_md5 md5 LOG_PID LOG_AUTH LOG_WARNING c pf (''acct:'' @ modul)"

definition acct_md5syslog :: "(string \<Rightarrow> 8 word list) \<Rightarrow> client_t \<Rightarrow> profile_t \<Rightarrow> logger \<Rightarrow> logger outcome" where
  "acct_md5syslog md5 c pf = NSE_ACCT_LOG md5 ''md5syslog'' c pf"

definition nssyslog_text :: "client_t \<Rightarrow> profile_t \<Rightarrow> string" where
  "nssyslog_text c pf = ''u='' @ [CHR 39] @ c_username c @ [CHR 39] @ '' r='' @ p_Name pf @ '' i='' @ inet_ntoa (c_ip4addr c)
     @ '' b='' @ nat_str (c_bytes c) @ '' a='' @ nat_str (c_articles c) @ '' p='' @ nat_str (c_posts c) @ '' y='' @ nat_str (c_postbytes c)"

definition acct_nssyslog :: "(string \<Rightarrow> 8 word list) \<Rightarrow> client_t \<Rightarrow> profile_t \<Rightarrow> string \<Rightarrow> logger \<Rightarrow> logger outcome" where
  "acct_nssyslog md5 c pf args l =
     obind (syslog_args args) (\<lambda>(ifac, iprio).
     obind (NSE_ACCT_LOG md5 ''nssyslog'' c pf l) (\<lambda>l.
     let sst = syslog_status_get l;
         l = syslog_open (if p_AccountingPrefix pf \<noteq> [] then p_AccountingPrefix pf else ''nntpswitchd'') 0 ifac l;
         l = syslog_close (syslog iprio (nssyslog_text c pf) l)
     in Ok (syslog_status_set sst l)))"

section \<open>Web services\<close>

text \<open>The log, and the URL that is asked; the answer is not used.\<close>

definition acct_http :: "(string \<Rightarrow> 8 word list) \<Rightarrow> client_t \<Rightarrow> profile_t \<Rightarrow> string \<Rightarrow> logger \<Rightarrow> (logger \<times> string) outcome" where
  "acct_http md5 c pf args l =
     obind (NSE_ACCT_LOG md5 ''acct_http'' c pf l) (\<lambda>l.
     obind (strcpy_to 1024 (args @ ''?user='' @ c_logname c @ ''&bytes='' @ signed_str (c_bytes c) @ ''&articles='' @ nat_str (c_articles c)
       @ ''&postbytes='' @ signed_str (c_postbytes c) @ ''&posts='' @ nat_str (c_posts c))) (\<lambda>url. Ok (l, url)))"

text \<open>The URL, if the arguments are one, and whether the service has said that it took the record. The profile is
  passed where a string is expected, and its name is its first field.\<close>

definition acct_json ::
  "env \<Rightarrow> (string \<Rightarrow> string option) \<Rightarrow> client_t \<Rightarrow> profile_t \<Rightarrow> string \<Rightarrow> (string option \<times> bool) outcome" where
  "acct_json env get c pf args =
     (if \<not> has_conv (CHR ''s'') args then Ok (None, False)
      else obind (print_url args [FS (c_logname c), FS (c_hostname c), FN (e_pid env), FN (int (c_bytes c)), FN (int (c_articles c)),
             FN (int (c_postbytes c)), FN (int (c_posts c)), FS (p_Name pf)]) (\<lambda>url.
        Ok (Some url, case get url of None \<Rightarrow> False | Some mem \<Rightarrow> e_json_string env mem ''ok'' \<noteq> None \<and> e_json_int env mem ''ok'' \<noteq> 0)))"

section \<open>RADIUS\<close>

text \<open>What a record needs of the process and the host: the time, the process, and the address the client called.\<close>

record acct_env =
  ae_now :: int
  ae_pid :: int
  ae_addr :: nat

definition rad_put_int :: "rad_name \<Rightarrow> int \<Rightarrow> rad_name \<times> rad_value" where
  "rad_put_int n i = (n, Rad_int (u32 i))"

definition session_id :: "acct_env \<Rightarrow> client_t \<Rightarrow> string" where
  "session_id ae c = nat_str (u32 (ae_pid ae)) @ '':'' @ nat_str (c_id c)"

definition acct_request :: "acct_env \<Rightarrow> rad_service \<Rightarrow> client_t \<Rightarrow> (rad_name \<times> rad_value) list" where
  "acct_request ae rs c =
     [(NAS_IP_ADDRESS, Rad_addr (ae_addr ae)), (NAS_IDENTIFIER, Rad_string (rs_hostname rs)), rad_put_int ACCT_STATUS_TYPE 2,
      (ACCT_SESSION_ID, Rad_string (session_id ae c)), (USER_NAME, Rad_string (c_username c)),
      (FRAMED_IP_ADDRESS, Rad_addr (c_ip4addr c)), rad_put_int ACCT_SESSION_TIME (ae_now ae - int (c_starttime c)),
      rad_put_int ACCT_INPUT_OCTETS (int (c_postbytes c)), rad_put_int ACCT_INPUT_PACKETS (int (c_posts c)),
      rad_put_int ACCT_OUTPUT_OCTETS (int (c_bytes c)), rad_put_int ACCT_OUTPUT_PACKETS (int (c_articles c))]"

definition rad_start :: "rad_service \<Rightarrow> string \<Rightarrow> int \<Rightarrow> string \<Rightarrow> bool" where
  "rad_start rs server port secret \<longleftrightarrow> rs_open rs \<and> rs_add rs server port secret \<and> rs_create rs"

definition acct_port :: "rad_service \<Rightarrow> int" where
  "acct_port rs = (case rs_port rs of Some p \<Rightarrow> p | None \<Rightarrow> 1813)"

text \<open>The request, if one is sent.\<close>

definition acct_radius :: "acct_env \<Rightarrow> rad_service \<Rightarrow> client_t \<Rightarrow> string \<Rightarrow> (rad_name \<times> rad_value) list option outcome" where
  "acct_radius ae rs c args =
     (let vs = sscanf radius_fmt1 args in
      if 128 \<le> length (sv vs 0 []) \<or> 128 \<le> length (sv vs 1 []) then Undef
      else if sscanf_ret radius_fmt1 args \<noteq> 2 then Ok None
      else if rad_start rs (sv vs 0 []) (acct_port rs) (sv vs 1 []) then Ok (Some (acct_request ae rs c)) else Ok None)"

definition radns_fmt :: "conv list" where
  "radns_fmt = [FCls not_colon (Some 128), FLit '':'', FCls not_colon (Some 128), FLit '':'', FInt None]"

definition radns_args :: "int \<Rightarrow> string \<Rightarrow> (string \<times> int \<times> string) option outcome" where
  "radns_args port args =
     (let v3 = sscanf radns_fmt args; v2 = sscanf radius_fmt1 args in
      if 128 \<le> length (sv v3 0 []) \<or> 128 \<le> length (sv v3 1 []) then Undef
      else if sscanf_ret radns_fmt args = 3 then Ok (Some (sv v3 0 [], iv v3 2 0, sv v3 1 []))
      else if 128 \<le> length (sv v2 0 []) \<or> 128 \<le> length (sv v2 1 []) then Undef
      else if sscanf_ret radius_fmt1 args = 2 then Ok (Some (sv v2 0 [], port, sv v2 1 []))
      else Ok None)"

definition acct_radns ::
  "(string \<Rightarrow> 8 word list) \<Rightarrow> acct_env \<Rightarrow> rad_service \<Rightarrow> client_t \<Rightarrow> profile_t \<Rightarrow> string \<Rightarrow> logger \<Rightarrow>
   (logger \<times> (rad_name \<times> rad_value) list option) outcome" where
  "acct_radns md5 ae rs c pf args l =
     obind (NSE_ACCT_LOG md5 ''radns'' c pf l) (\<lambda>l.
     obind (radns_args (acct_port rs) args) (\<lambda>a.
     case a of
       None \<Rightarrow> Ok (l, None)
     | Some (server, port, secret) \<Rightarrow> Ok (l, if rad_start rs server port secret then Some (acct_request ae rs c) else None)))"

section \<open>Volumes\<close>

definition acct_daylimit ::
  "(string \<Rightarrow> 8 word list) \<Rightarrow> (string \<Rightarrow> database option) \<Rightarrow> client_t \<Rightarrow> profile_t \<Rightarrow> string \<Rightarrow> int \<Rightarrow> logger \<Rightarrow>
   (logger \<times> string list \<times> int) outcome option" where
  "acct_daylimit md5 pg c pf args dllock l =
     (let sst = syslog_status_get l in
      case NSE_ACCT_LOG md5 ''acct_daylimit'' c pf (syslog_open ''nntpswitchd'' LOG_PID LOG_AUTH l) of
        Ok l' \<Rightarrow> map_option (\<lambda>r. obind r (\<lambda>r. Ok (syslog_status_set sst l', r))) (do_acct_daylimit (pg args) c (Some pf) dllock)
      | Die e \<Rightarrow> Some (Die e)
      | Undef \<Rightarrow> Some Undef)"

text \<open>RADIUS and the table of the volumes, with the two parts of the arguments.\<close>

definition acct_raddaylim ::
  "(string \<Rightarrow> 8 word list) \<Rightarrow> acct_env \<Rightarrow> rad_service \<Rightarrow> (string \<Rightarrow> database option) \<Rightarrow> master_t \<Rightarrow> client_t \<Rightarrow> profile_t \<Rightarrow>
   string \<Rightarrow> int \<Rightarrow> logger \<Rightarrow> (logger \<times> (rad_name \<times> rad_value) list option \<times> string list \<times> int) outcome option" where
  "acct_raddaylim md5 ae rs pg m c pf args dllock l =
     (case obind (get_module_config_val args ''rad'' m) (\<lambda>r. obind (get_module_config_val args ''db'' m) (\<lambda>d. Ok (r, d))) of
        Ok (Some ra, Some da) \<Rightarrow>
          (case acct_radns md5 ae rs c pf ra l of
             Ok (l', req) \<Rightarrow> map_option (\<lambda>r. obind r (\<lambda>(ss, lock). Ok (l', req, ss, lock))) (do_acct_daylimit (pg da) c (Some pf) dllock)
           | Die e \<Rightarrow> Some (Die e)
           | Undef \<Rightarrow> Some Undef)
      | Ok _ \<Rightarrow> Some (Ok (l, None, [], dllock))
      | Die e \<Rightarrow> Some (Die e)
      | Undef \<Rightarrow> Some Undef)"

section \<open>Lemmas\<close>

text \<open>The C library agrees with what the log remembers.\<close>

definition logger_ok :: "logger \<Rightarrow> bool" where
  "logger_ok l \<longleftrightarrow> (if ss_is_open (lg_status l)
     then lg_ident l = Some (ss_prefix (lg_status l), ss_option (lg_status l), ss_facility (lg_status l)) else lg_ident l = None)"

lemmas log_defs = syslog_status_get_def syslog_close_def syslog_open_def syslog_status_set_def syslog_def Let_def

text \<open>The state of an open log is put back.\<close>

definition log_kept :: "logger \<Rightarrow> logger \<Rightarrow> bool" where
  "log_kept l l' \<longleftrightarrow> lg_status l' = lg_status l \<and> lg_ident l' = lg_ident l \<and> (\<exists>ls. lg_lines l' = lg_lines l @ ls)"

lemma log_kept_trans: "log_kept l1 l2 \<Longrightarrow> log_kept l2 l3 \<Longrightarrow> log_kept l1 l3"
  by (auto simp: log_kept_def)

lemma open_logger: "logger_ok l \<Longrightarrow> ss_is_open (lg_status l) \<Longrightarrow> log_kept l l' \<Longrightarrow> logger_ok l' \<and> ss_is_open (lg_status l')"
  by (simp add: logger_ok_def log_kept_def)

lemma usage_keeps_log:
  assumes "logger_ok l" and "ss_is_open (lg_status l)" and "NSE_ACCT_LOG md modul c pf l = Ok l'"
  shows "log_kept l l'"
  using assms
  by (auto simp: NSE_ACCT_LOG_def syslog_client_usage_md5_def log_defs logger_ok_def log_kept_def split: if_splits)

lemma nssyslog_keeps_log:
  assumes "logger_ok l" and "ss_is_open (lg_status l)" and "acct_nssyslog md c pf args l = Ok l'"
  shows "log_kept l l'"
proof -
  obtain f p l1 where n: "NSE_ACCT_LOG md ''nssyslog'' c pf l = Ok l1"
      and e: "l' = syslog_status_set (lg_status l1) (syslog_close (syslog p (nssyslog_text c pf)
        (syslog_open (if p_AccountingPrefix pf \<noteq> [] then p_AccountingPrefix pf else ''nntpswitchd'') 0 f l1)))"
    using assms(3) by (auto simp: acct_nssyslog_def Let_def syslog_status_get_def)
  have k: "log_kept l l1" using assms(1,2) n by (rule usage_keeps_log)
  then have "log_kept l1 l'" using open_logger [OF assms(1,2) k]
    by (auto simp: e log_defs logger_ok_def log_kept_def)
  with k show ?thesis by (rule log_kept_trans)
qed

lemma syslog_keeps_log:
  assumes "logger_ok l" and "ss_is_open (lg_status l)" and "acct_syslog c args l = Ok l'"
  shows "log_kept l l'"
  using assms by (auto simp: acct_syslog_def log_defs logger_ok_def log_kept_def)

lemma radns_keeps_log:
  "logger_ok l \<Longrightarrow> ss_is_open (lg_status l) \<Longrightarrow> acct_radns md ae rs c pf args l = Ok (l', req) \<Longrightarrow> log_kept l l'"
  using usage_keeps_log [of l md "''radns''" c pf] by (auto simp: acct_radns_def split: option.splits)

lemma http_keeps_log:
  "logger_ok l \<Longrightarrow> ss_is_open (lg_status l) \<Longrightarrow> acct_http md c pf args l = Ok (l', url) \<Longrightarrow> log_kept l l'"
  using usage_keeps_log [of l md "''acct_http''" c pf] by (auto simp: acct_http_def)

lemma raddaylim_keeps_log:
  assumes "logger_ok l" and "ss_is_open (lg_status l)" and "acct_raddaylim md ae rs pg m c pf args lock l = Some (Ok (l', req, vol))"
  shows "log_kept l l'"
proof -
  have "l' = l \<or> (\<exists>ra q. acct_radns md ae rs c pf ra l = Ok (l', q))"
    using assms(3) by (auto simp: acct_raddaylim_def split: outcome.splits option.splits)
  then show ?thesis using radns_keeps_log [OF assms(1,2)] by (auto simp: log_kept_def)
qed

lemma daylimit_keeps_log:
  assumes "logger_ok l" and "ss_is_open (lg_status l)" and "acct_daylimit md pg c pf args lock l = Some (Ok (l', r))"
  shows "log_kept l l'"
proof -
  let ?l = "syslog_open ''nntpswitchd'' LOG_PID LOG_AUTH l"
  obtain l1 where n: "NSE_ACCT_LOG md ''acct_daylimit'' c pf ?l = Ok l1" and e: "l' = syslog_status_set (lg_status l) l1"
    using assms(3) by (auto simp: acct_daylimit_def Let_def syslog_status_get_def split: outcome.splits)
  have "logger_ok ?l" "ss_is_open (lg_status ?l)" by (simp_all add: log_defs logger_ok_def)
  then have "log_kept ?l l1" using n by (rule usage_keeps_log)
  then show ?thesis using assms(1,2) by (auto simp: e log_defs logger_ok_def log_kept_def)
qed

fun read_digest :: "string \<Rightarrow> 8 word list" where
  "read_digest (a # b # s) =
     (let v = (\<lambda>c. the (find_index (\<lambda>d. d = c) ''0123456789abcdef'')) in word_of_nat (16 * v a + v b) # read_digest s)"
| "read_digest _ = []"

lemma hex_digit_value: "n < 16 \<Longrightarrow> the (find_index (\<lambda>d. d = hex_digit n) ''0123456789abcdef'') = n"
proof -
  have "\<forall>n < 16. the (find_index (\<lambda>d. d = hex_digit n) ''0123456789abcdef'') = n"
    by (simp add: hex_digit_def All_less_Suc numeral_eq_Suc)
  then show "n < 16 \<Longrightarrow> ?thesis" by blast
qed

lemma byte_halves:
  fixes b :: "8 word"
  shows "unat (drop_bit 4 b) < 16" "unat (b AND 15) < 16" "16 * unat (drop_bit 4 b) + unat (b AND 15) = unat b"
proof -
  have "unat (drop_bit 4 b) = drop_bit 4 (unat b)" by (rule unat_drop_bit_eq)
  then have d: "unat (drop_bit 4 b) = unat b div 16" by (simp only: drop_bit_eq_div) simp
  have "b AND 15 = take_bit 4 b" by (simp add: take_bit_eq_mask mask_eq_decr_exp)
  then have m: "unat (b AND 15) = unat b mod 16" by (simp add: take_bit_eq_mod unat_mod)
  have "unat b < 256" using unsigned_less [of b] by simp
  then show "unat (drop_bit 4 b) < 16" "unat (b AND 15) < 16" "16 * unat (drop_bit 4 b) + unat (b AND 15) = unat b"
    by (simp_all add: d m)
qed

section \<open>Properties\<close>

text \<open>C27: 
  Whatever a module writes, and to which facility, the log is left as it was: what \<open>log.c\<close> remembers and what
  the C library was told, with new lines behind the old ones, provided that the log was open.
\<close>

theorem accounting_keeps_log:
  assumes "logger_ok l" and "ss_is_open (lg_status l)"
    and "acct_syslog c args l = Ok l' \<or> acct_md5syslog md c pf l = Ok l' \<or> acct_nssyslog md c pf args l = Ok l'
      \<or> acct_http md c pf args l = Ok (l', url) \<or> acct_radns md ae rs c pf args l = Ok (l', req)
      \<or> acct_raddaylim md ae rs pg m c pf args lock l = Some (Ok (l', req, vol)) \<or> acct_daylimit md pg c pf args lock l = Some (Ok (l', vol))"
  shows "log_kept l l' \<and> logger_ok l'"
proof -
  note keeps = syslog_keeps_log usage_keeps_log nssyslog_keeps_log http_keeps_log radns_keeps_log raddaylim_keeps_log daylimit_keeps_log
  have "log_kept l l'"
    using assms(3) unfolding acct_md5syslog_def by (elim disjE) (erule keeps [OF assms(1,2)])+
  then show ?thesis using open_logger [OF assms(1,2)] by blast
qed

text \<open>The digest of a hash is read back: two hashes have the same digest only when they are the same.\<close>

theorem digest_roundtrip: "read_digest (md5_bytes2digest bs) = bs"
proof (induction bs)
  case (Cons b bs)
  have "word_of_nat (16 * unat (drop_bit 4 b) + unat (b AND 15)) = b" by (simp add: byte_halves(3))
  moreover have "md5_bytes2digest (b # bs) = hex_digit (unat (drop_bit 4 b)) # hex_digit (unat (b AND 15)) # md5_bytes2digest bs"
    by (simp add: md5_bytes2digest_def)
  ultimately show ?case using Cons hex_digit_value byte_halves(1,2) by (simp only: read_digest.simps Let_def)
qed (simp add: md5_bytes2digest_def)

text \<open>The RADIUS record of a session counts its bytes in 32 bits: what is reported of 4 GB and one byte is one byte.\<close>

theorem radius_octets_wrap:
  assumes "n < 2 ^ 32"
  shows "(ACCT_OUTPUT_OCTETS, Rad_int n) \<in> set (acct_request ae rs (c\<lparr>c_bytes := k * 2 ^ 32 + n\<rparr>))
    \<and> (ACCT_INPUT_OCTETS, Rad_int n) \<in> set (acct_request ae rs (c\<lparr>c_postbytes := k * 2 ^ 32 + n\<rparr>))"
proof -
  have "u32 (int (k * 2 ^ 32 + n)) = n" using assms unfolding u32_def
    by (simp add: nat_mod_distrib)
  then have "rad_put_int x (int (k * 2 ^ 32 + n)) = (x, Rad_int n)" for x by (simp only: rad_put_int_def)
  then show ?thesis by (simp add: acct_request_def del: of_nat_add of_nat_mult)
qed

section \<open>Witnesses\<close>

definition news_log :: logger where
  "news_log = syslog_open ''nntpswitchd'' LOG_PID LOG_NEWS syslog_start"

definition sample_hash :: "string \<Rightarrow> 8 word list" where
  "sample_hash s = [171, 205]"

theorem accounting_keeps_log_witness:
  "\<exists>l'. acct_nssyslog sample_hash (zero_client\<lparr>c_bytes := 5\<rparr>) zero_profile ''local6.notice'' news_log = Ok l'
    \<and> length (lg_lines l') = 2 \<and> log_kept news_log l' \<and> logger_ok l'"
proof -
  let ?r = "acct_nssyslog sample_hash (zero_client\<lparr>c_bytes := 5\<rparr>) zero_profile ''local6.notice'' news_log"
  have "(case ?r of Ok l \<Rightarrow> length (lg_lines l) = 2 | _ \<Rightarrow> False)" by code_simp
  then obtain l' where l: "?r = Ok l'" "length (lg_lines l') = 2" by (auto split: outcome.splits)
  have "logger_ok news_log" "ss_is_open (lg_status news_log)" by (simp_all add: news_log_def log_defs syslog_start_def logger_ok_def)
  from accounting_keeps_log [OF this, where c = "zero_client\<lparr>c_bytes := 5\<rparr>" and args = "''local6.notice''" and l' = l'
      and md = sample_hash and pf = zero_profile] l show ?thesis by blast
qed

theorem radius_octets_wrap_witness:
  "(ACCT_OUTPUT_OCTETS, Rad_int 1) \<in> set (acct_request \<lparr>ae_now = 0, ae_pid = 1, ae_addr = 0\<rparr> sure_radius (zero_client\<lparr>c_bytes := 4294967297\<rparr>))"
  using radius_octets_wrap [where n = 1 and k = 1 and c = zero_client and rs = sure_radius
      and ae = "\<lparr>ae_now = 0, ae_pid = 1, ae_addr = 0\<rparr>"] by simp

end
