(* ===== verification/Options.thy ===== *)
theory Options
  imports Accounting
begin

text \<open>
  \<open>tgetopt.c\<close>: the options of the command line, and with it the options of the daemon (\<open>daemon.c\<close>), of
  \<open>updategroups.c\<close> and of \<open>auth/radtool/radtool.c\<close>, which sends one RADIUS record. The table is the list of
  its rows before the one that ends it; \<open>argv\<close> is a list with a null behind it. The walk over the table
  goes on after a match, with the position in \<open>argv\<close> that the match has left.
\<close>

section \<open>The parser\<close>

record option_t =
  o_longname :: "string option"
  o_hasargs :: int
  o_args :: "string option"
  o_shortname :: char
  o_isset :: int

definition toptargs :: "char \<Rightarrow> option_t list \<Rightarrow> string option" where
  "toptargs opt os = (case find (\<lambda>o'. o_shortname o' = opt) os of Some o' \<Rightarrow> o_args o' | None \<Rightarrow> None)"

definition toptset :: "char \<Rightarrow> option_t list \<Rightarrow> bool" where
  "toptset opt os = (case find (\<lambda>o'. o_shortname o' = opt) os of Some o' \<Rightarrow> o_isset o' \<noteq> 0 | None \<Rightarrow> False)"

text \<open>The next word, when it is there and is no option itself.\<close>

definition next_arg :: "string list \<Rightarrow> nat \<Rightarrow> string option" where
  "next_arg argv i =
     (if i + 1 < length argv \<and> chr_at (argv ! (i + 1)) 0 \<noteq> CHR ''-'' then Some (argv ! (i + 1)) else None)"

definition set_opt :: "string option \<Rightarrow> option_t \<Rightarrow> option_t" where
  "set_opt a r = r\<lparr>o_args := (case a of None \<Rightarrow> o_args r | Some s \<Rightarrow> Some s), o_isset := o_isset r + 1\<rparr>"

definition MISSING :: string where "MISSING = ''Argument for option missing''"

fun long_rows :: "string list \<Rightarrow> string \<Rightarrow> nat \<Rightarrow> option_t list \<Rightarrow> (nat \<times> option_t list) outcome" where
  "long_rows argv p i [] = Ok (i, [])"
| "long_rows argv p i (r # rs) =
     (case o_longname r of
        None \<Rightarrow> Undef
      | Some n \<Rightarrow>
          if \<not> strcaseeq n p then obind (long_rows argv p i rs) (\<lambda>(j, rs). Ok (j, r # rs))
          else if o_hasargs r \<noteq> 1 then obind (long_rows argv p i rs) (\<lambda>(j, rs). Ok (j, set_opt None r # rs))
          else (case next_arg argv i of
                  None \<Rightarrow> Die MISSING
                | Some a \<Rightarrow> obind (long_rows argv p (i + 1) rs) (\<lambda>(j, rs). Ok (j, set_opt (Some a) r # rs))))"

fun short_rows :: "string list \<Rightarrow> char \<Rightarrow> nat \<Rightarrow> option_t list \<Rightarrow> (nat \<times> option_t list) outcome" where
  "short_rows argv c i [] = Ok (i, [])"
| "short_rows argv c i (r # rs) =
     (if o_shortname r \<noteq> c then obind (short_rows argv c i rs) (\<lambda>(j, rs). Ok (j, r # rs))
      else if o_hasargs r \<noteq> 1 then obind (short_rows argv c i rs) (\<lambda>(j, rs). Ok (j, set_opt None r # rs))
      else if length (argv ! i) < 2 then Undef
      else if chr_at (argv ! i) 2 \<noteq> NUL
      then obind (short_rows argv c i rs) (\<lambda>(j, rs). Ok (j, set_opt (Some (drop 2 (argv ! i))) r # rs))
      else (case next_arg argv i of
              None \<Rightarrow> Die MISSING
            | Some a \<Rightarrow> obind (short_rows argv c (i + 1) rs) (\<lambda>(j, rs). Ok (j, set_opt (Some a) r # rs))))"

text \<open>One word of the command line; a word that is no option is skipped.\<close>

definition opt_word :: "string list \<Rightarrow> nat \<Rightarrow> option_t list \<Rightarrow> (nat \<times> option_t list) outcome" where
  "opt_word argv i os =
     (let a = argv ! i in
      if chr_at a 0 = CHR ''-'' \<and> chr_at a 1 = CHR ''-'' then long_rows argv (drop 2 a) i os
      else if chr_at a 0 = CHR ''-'' then short_rows argv (chr_at a 1) i os
      else Ok (i, os))"

lemma long_rows_forward: "long_rows argv p i rs = Ok (j, rs') \<Longrightarrow> i \<le> j \<and> length rs' = length rs"
  by (induction argv p i rs arbitrary: j rs' rule: long_rows.induct) (force split: option.splits if_splits)+

lemma short_rows_forward: "short_rows argv c i rs = Ok (j, rs') \<Longrightarrow> i \<le> j \<and> length rs' = length rs"
  by (induction argv c i rs arbitrary: j rs' rule: short_rows.induct) (force split: option.splits if_splits)+

lemma opt_word_forward: "opt_word argv i os = Ok (j, os') \<Longrightarrow> i \<le> j \<and> length os' = length os"
  by (auto simp: opt_word_def Let_def dest: long_rows_forward short_rows_forward split: if_splits)

function tgetopt_from :: "string list \<Rightarrow> nat \<Rightarrow> option_t list \<Rightarrow> option_t list outcome" where
  "tgetopt_from argv i os =
     (if length argv \<le> i then Ok os
      else (case opt_word argv i os of
              Ok (j, os) \<Rightarrow> tgetopt_from argv (Suc j) os
            | Die e \<Rightarrow> Die e
            | Undef \<Rightarrow> Undef))"
  by pat_completeness auto
termination
  by (relation "measure (\<lambda>(argv, i, os). length argv - i)") (auto dest: opt_word_forward)

declare tgetopt_from.simps [simp del]

definition tgetopt :: "string list \<Rightarrow> option_t list \<Rightarrow> option_t list outcome" where
  "tgetopt argv os = tgetopt_from argv 1 os"

section \<open>The options of the programs\<close>

definition opt_row :: "string \<Rightarrow> int \<Rightarrow> char \<Rightarrow> option_t" where
  "opt_row n k c = \<lparr>o_longname = Some n, o_hasargs = k, o_args = None, o_shortname = c, o_isset = 0\<rparr>"

definition daemon_opts :: "option_t list" where
  "daemon_opts = [opt_row ''basedir'' 1 (CHR ''b''), opt_row ''config'' 1 (CHR ''c''), opt_row ''help'' 0 (CHR ''h''),
     opt_row ''stay'' 0 (CHR ''s''), opt_row ''test'' 0 (CHR ''t'')]"

text \<open>The configuration file, whether to stay in the foreground, whether to test only. Asking for help ends the
  program.\<close>

definition init_options :: "string list \<Rightarrow> (string option \<times> bool \<times> bool) outcome" where
  "init_options argv =
     obind (tgetopt argv daemon_opts) (\<lambda>os.
     if toptset (CHR ''h'') os then Die ''usage''
     else Ok (if toptset (CHR ''c'') os then toptargs (CHR ''c'') os else None, toptset (CHR ''s'') os, toptset (CHR ''t'') os))"

definition radtool_opts :: "option_t list" where
  "radtool_opts = [opt_row ''help'' 0 (CHR ''h''), opt_row ''hostname'' 1 (CHR ''n''), opt_row ''port'' 1 (CHR ''q''),
     opt_row ''sessionid'' 1 (CHR ''s''), opt_row ''username'' 1 (CHR ''u''), opt_row ''clientaddr'' 1 (CHR ''c''),
     opt_row ''time'' 1 (CHR ''t''), opt_row ''postbytes'' 1 (CHR ''o''), opt_row ''posts'' 1 (CHR ''p''),
     opt_row ''articles'' 1 (CHR ''a''), opt_row ''bytes'' 1 (CHR ''b''), opt_row ''server'' 1 (CHR ''r''), opt_row ''key'' 1 (CHR ''k'')]"

definition must_set :: "char list" where
  "must_set = ''nsuctopbark''"

text \<open>
  The record the tool sends, from the words of its options: the address the name of the host resolves to, if
  any, comes from \<open>gethostbyname\<close>; an address that does not parse is all ones.
\<close>

definition radtool_request :: "rad_service \<Rightarrow> nat \<Rightarrow> (char \<Rightarrow> string) \<Rightarrow> (rad_name \<times> rad_value) list" where
  "radtool_request rs ip arg =
     [(NAS_IP_ADDRESS, Rad_addr ip), (NAS_IDENTIFIER, Rad_string (arg (CHR ''n''))), rad_put_int ACCT_STATUS_TYPE 2,
      (ACCT_SESSION_ID, Rad_string (arg (CHR ''s''))), (USER_NAME, Rad_string (arg (CHR ''u''))),
      (FRAMED_IP_ADDRESS, Rad_addr (case inet_aton (arg (CHR ''c'')) of Some a \<Rightarrow> a | None \<Rightarrow> 2 ^ 32 - 1)),
      rad_put_int ACCT_SESSION_TIME (atol (arg (CHR ''t''))), rad_put_int ACCT_INPUT_OCTETS (atol (arg (CHR ''o''))),
      rad_put_int ACCT_INPUT_PACKETS (atol (arg (CHR ''p''))), rad_put_int ACCT_OUTPUT_OCTETS (atol (arg (CHR ''b''))),
      rad_put_int ACCT_OUTPUT_PACKETS (atol (arg (CHR ''a'')))]"

text \<open>The exit status, with the request when one was sent.\<close>

definition acct_entry ::
  "(string \<Rightarrow> nat option) \<Rightarrow> rad_service \<Rightarrow> int \<Rightarrow> (char \<Rightarrow> string) \<Rightarrow> int \<times> (rad_name \<times> rad_value) list option" where
  "acct_entry resolve rs port arg =
     (case resolve (arg (CHR ''n'')) of
        None \<Rightarrow> (1, None)
      | Some ip \<Rightarrow>
          if rad_start rs (arg (CHR ''r'')) (if port \<noteq> 0 then port else acct_port rs) (arg (CHR ''k''))
          then (let req = radtool_request rs ip arg in (if fst (rs_send rs req) then 0 else 1, Some req))
          else (1, None))"

definition radtool_main :: "(string \<Rightarrow> nat option) \<Rightarrow> rad_service \<Rightarrow> string list \<Rightarrow> (int \<times> (rad_name \<times> rad_value) list option) outcome" where
  "radtool_main resolve rs argv =
     obind (tgetopt argv radtool_opts) (\<lambda>os.
     if \<not> (\<forall>c \<in> set must_set. toptset c os) \<or> toptset (CHR ''h'') os then Ok (1, None)
     else (case toptargs (CHR ''q'') os of
             None \<Rightarrow> Undef
           | Some q \<Rightarrow> Ok (acct_entry resolve rs (atoi q) (\<lambda>c. case toptargs c os of Some s \<Rightarrow> s | None \<Rightarrow> []))))"

section \<open>Lemmas\<close>

text \<open>The words for an option of the table.\<close>

definition opt_words :: "option_t \<Rightarrow> string \<Rightarrow> string list" where
  "opt_words r v = (''--'' @ the (o_longname r)) # (if o_hasargs r = 1 then [v] else [])"

definition opt_table :: "option_t list \<Rightarrow> bool" where
  "opt_table os \<longleftrightarrow> (\<forall>r \<in> set os. o_longname r \<noteq> None) \<and> distinct (map (map tolower_c \<circ> the \<circ> o_longname) os)"

definition opt_apply :: "nat \<Rightarrow> string \<Rightarrow> option_t list \<Rightarrow> option_t list" where
  "opt_apply k v os = os[k := set_opt (if o_hasargs (os ! k) = 1 then Some v else None) (os ! k)]"

lemma long_rows_none:
  assumes "\<forall>r \<in> set rs. \<exists>n. o_longname r = Some n \<and> \<not> strcaseeq n p"
  shows "long_rows argv p i rs = Ok (i, rs)"
  using assms by (induction rs) auto

lemma long_rows_one:
  assumes "opt_table os" and "k < length os" and "o_longname (os ! k) = Some n"
    and "o_hasargs (os ! k) = 1 \<Longrightarrow> next_arg argv i = Some v"
  shows "long_rows argv n i os = Ok (if o_hasargs (os ! k) = 1 then i + 1 else i, opt_apply k v os)"
  using assms
proof (induction os arbitrary: k)
  case (Cons r rs)
  have t: "opt_table rs" using Cons.prems(1) by (simp add: opt_table_def)
  obtain m where m: "o_longname r = Some m" using Cons.prems(1) by (auto simp: opt_table_def)
  show ?case
  proof (cases k)
    case 0
    have "\<forall>x \<in> set rs. \<exists>q. o_longname x = Some q \<and> \<not> strcaseeq q n"
      using Cons.prems(1,3) 0 by (force simp: opt_table_def strcaseeq_def)
    then show ?thesis using Cons.prems(3,4) 0 by (simp add: long_rows_none opt_apply_def strcaseeq_def)
  next
    case (Suc j)
    have "map tolower_c m \<noteq> map tolower_c n"
    proof
      assume e: "map tolower_c m = map tolower_c n"
      have "rs ! j \<in> set rs" using Cons.prems(2) Suc by simp
      then have "map tolower_c n \<in> (map tolower_c \<circ> the \<circ> o_longname) ` set rs"
        using Cons.prems(3) Suc by (metis (no_types, lifting) comp_apply image_eqI nth_Cons_Suc option.sel)
      with Cons.prems(1) m e show False by (simp add: opt_table_def)
    qed
    then show ?thesis using Cons.IH [OF t, of j] Cons.prems(2-4) Suc m by (simp add: opt_apply_def strcaseeq_def)
  qed
qed simp

definition opt_shape :: "option_t \<Rightarrow> string option \<times> int \<times> char" where
  "opt_shape r = (o_longname r, o_hasargs r, o_shortname r)"

lemma opt_apply_shape: "map opt_shape (opt_apply k v os) = map opt_shape os"
  by (cases "k < length os") (auto simp: opt_apply_def set_opt_def opt_shape_def map_update nth_list_update list_update_beyond intro!: nth_equalityI)

lemma opt_shape_eq:
  assumes "map opt_shape os = map opt_shape os'"
  shows "opt_table os = opt_table os'" "length os = length os'"
    "k < length os \<Longrightarrow> opt_words (os ! k) v = opt_words (os' ! k) v \<and> o_hasargs (os ! k) = o_hasargs (os' ! k) \<and> o_longname (os ! k) = o_longname (os' ! k)"
proof -
  show l: "length os = length os'" using arg_cong [OF assms, of length] by simp
  have e: "opt_shape (os ! k) = opt_shape (os' ! k)" if "k < length os" for k
    using that l arg_cong [OF assms, of "\<lambda>x. x ! k"] by simp
  then show "k < length os \<Longrightarrow> opt_words (os ! k) v = opt_words (os' ! k) v \<and> o_hasargs (os ! k) = o_hasargs (os' ! k) \<and> o_longname (os ! k) = o_longname (os' ! k)"
    by (simp add: opt_shape_def opt_words_def)
  have "map o_longname os = map o_longname os'" using e l by (auto simp: opt_shape_def intro!: nth_equalityI)
  then have "map (map tolower_c \<circ> the \<circ> o_longname) os = map (map tolower_c \<circ> the \<circ> o_longname) os'" "o_longname ` set os = o_longname ` set os'"
    by (metis map_map, metis list.set_map)
  then show "opt_table os = opt_table os'" unfolding opt_table_def by (metis (no_types, lifting) image_iff)
qed

lemma opt_word_long:
  assumes "opt_table os" and "k < length os" and "argv = pre @ opt_words (os ! k) v @ post" and "chr_at v 0 \<noteq> CHR ''-''"
  shows "opt_word argv (length pre) os = Ok (length pre + length (opt_words (os ! k) v) - 1, opt_apply k v os)"
proof -
  have "os ! k \<in> set os" using assms(2) by simp
  with assms(1) obtain n where n: "o_longname (os ! k) = Some n" unfolding opt_table_def by blast
  have a: "argv ! length pre = ''--'' @ n" using assms(3) n by (simp add: opt_words_def nth_append)
  have "next_arg argv (length pre) = Some v" if "o_hasargs (os ! k) = 1"
    using that assms(3,4) by (simp add: next_arg_def opt_words_def nth_append)
  from long_rows_one [OF assms(1,2) n this] show ?thesis
    by (simp add: opt_word_def a chr_at_def opt_words_def)
qed

lemma tgetopt_words:
  "opt_table os \<Longrightarrow> \<forall>(k, v) \<in> set xs. k < length os \<and> chr_at v 0 \<noteq> CHR ''-'' \<Longrightarrow>
   tgetopt_from (pre @ concat (map (\<lambda>(k, v). opt_words (os ! k) v) xs)) (length pre) os = Ok (fold (\<lambda>(k, v). opt_apply k v) xs os)"
proof (induction xs arbitrary: pre os)
  case Nil
  then show ?case by (simp add: tgetopt_from.simps)
next
  case (Cons x xs)
  obtain k v where x: "x = (k, v)" by (cases x)
  let ?ws = "opt_words (os ! k) v" and ?post = "concat (map (\<lambda>(k, v). opt_words (os ! k) v) xs)"
  let ?os = "opt_apply k v os"
  have k: "k < length os" "chr_at v 0 \<noteq> CHR ''-''" using Cons.prems(2) by (simp_all add: x)
  have s: "map opt_shape ?os = map opt_shape os" by (rule opt_apply_shape)
  have w: "map (\<lambda>(k, v). opt_words (os ! k) v) xs = map (\<lambda>(k, v). opt_words (?os ! k) v) xs"
    using Cons.prems(2) opt_shape_eq(2,3) [OF s] by auto
  have "tgetopt_from (pre @ ?ws @ ?post) (length pre) os = tgetopt_from (pre @ ?ws @ ?post) (Suc (length pre + length ?ws - 1)) ?os"
    by (subst tgetopt_from.simps) (simp add: opt_word_long [OF Cons.prems(1) k(1) refl k(2)] del: append_assoc; simp add: opt_words_def)
  also have "Suc (length pre + length ?ws - 1) = length (pre @ ?ws)" by (simp add: opt_words_def)
  also have "tgetopt_from (pre @ ?ws @ ?post) (length (pre @ ?ws)) ?os = Ok (fold (\<lambda>(k, v). opt_apply k v) xs ?os)"
    using Cons.IH [of ?os "pre @ ?ws"] Cons.prems opt_shape_eq(1,2) [OF s] by (simp add: w)
  finally show ?case by (simp add: x)
qed

section \<open>Properties\<close>


text \<open>The port that the help of the RADIUS tool calls a default is not one: without it the tool reads a null
  pointer as soon as all the options that it asks for are there.\<close>

theorem radtool_needs_port:
  assumes "tgetopt argv radtool_opts = Ok os" and "\<forall>c \<in> set must_set. toptset c os" and "\<not> toptset (CHR ''h'') os"
    and "toptargs (CHR ''q'') os = None"
  shows "radtool_main resolve rs argv = Undef"
  using assms by (simp add: radtool_main_def)

section \<open>Witnesses\<close>


definition radtool_line :: "string list" where
  "radtool_line = [''radtool'', ''-nnas'', ''-s1'', ''-utommy'', ''-c10.0.0.1'', ''-t60'', ''-o0'', ''-p0'', ''-b9'', ''-a1'', ''-rradius'', ''-kkey'']"

theorem radtool_needs_port_witness:
  "radtool_main (\<lambda>_. Some 1) sure_radius radtool_line = Undef"
proof -
  have "(case tgetopt radtool_line radtool_opts of
      Ok os \<Rightarrow> (\<forall>c \<in> set must_set. toptset c os) \<and> \<not> toptset (CHR ''h'') os \<and> toptargs (CHR ''q'') os = None | _ \<Rightarrow> False)" by code_simp
  then obtain os where os: "tgetopt radtool_line radtool_opts = Ok os" "\<forall>c \<in> set must_set. toptset c os" "\<not> toptset (CHR ''h'') os"
      "toptargs (CHR ''q'') os = None" by (auto split: outcome.splits)
  then show ?thesis by (rule radtool_needs_port)
qed

end
