(* ===== verification/Startup.thy ===== *)
theory Startup
  imports Daemon Options
begin

text \<open>
  The main programs of \<open>daemon.c\<close> and \<open>updategroups.c\<close>, and what the parts of the daemon give together: the
  files that the start reads, one by one, leave tables that fit together, and the sessions keep them so. A
  reload need not.
\<close>

section \<open>The program\<close>

text \<open>The options, the start, and unless it was a test the events; the process is not in it.\<close>

definition daemon_main :: "string list \<Rightarrow> surroundings \<Rightarrow> event list \<Rightarrow> unit io" where
  "daemon_main argv sr es =
     bnd (lift_o (init_options argv)) (\<lambda>(config_file, opt_stay, test_only).
     thn (run_daemon (sr\<lparr>sr_config := config_file\<rparr>))
     (if test_only then ret () else daemon_select_loop es))"

text \<open>The program that writes the active file, from its options to the two files.\<close>

definition updategroups_opts :: "option_t list" where
  "updategroups_opts = [opt_row ''config'' 1 (CHR ''c''), opt_row ''help'' 0 (CHR ''h'')]"

definition updategroups_options :: "string list \<Rightarrow> string option outcome" where
  "updategroups_options argv =
     obind (tgetopt argv updategroups_opts) (\<lambda>os.
     if toptset (CHR ''h'') os then Die ''usage''
     else Ok (if toptset (CHR ''c'') os then toptargs (CHR ''c'') os else None))"

definition updategroups_main :: "string list \<Rightarrow> surroundings \<Rightarrow> (string list \<times> string list) io" where
  "updategroups_main argv sr =
     bnd (lift_o (updategroups_options argv)) (\<lambda>config_file.
     thn (loadconfig (sr\<lparr>sr_config := config_file\<rparr>))
     (bnd (asks (\<lambda>w. (w_env w, w_m w))) (\<lambda>(env, m).
      bnd (lift_po (load_servers (e_fs env) (e_cfg env) (\<lambda>_. zero_server) (sr_servers_time sr) m)) (\<lambda>m.
      thn (upd (\<lambda>w. w\<lparr>w_m := m\<rparr>)) update_main))))"

section \<open>Tables that fit together\<close>

text \<open>The servers have distinct names, the balancer's list holds all but the default one by falling level, and
  every group names a server that there is.\<close>

definition router_ok :: "master_t \<Rightarrow> bool" where
  "router_ok m \<longleftrightarrow> distinct (map s_Name (m_servers m)) \<and> length (m_servers m) \<le> MAX_SERVERS
     \<and> (\<exists>d. getserver ''default'' m = Some d \<and> set (m_lservers m) = {..<length (m_servers m)} - {d})
     \<and> distinct (m_lservers m) \<and> sorted_wrt (\<ge>) (map (level_of m) (m_lservers m))
     \<and> (\<forall>a \<in> set (m_active m). getserver (a_server a) m \<noteq> None)"

text \<open>The profiles, authenticators and access entries refer to rows and modules that there are.\<close>

definition access_ok :: "env \<Rightarrow> master_t \<Rightarrow> bool" where
  "access_ok env m \<longleftrightarrow> acs_wf m \<and> getprofile ''default'' m \<noteq> None
     \<and> (\<forall>a \<in> set (m_auths m). e_auth env (al_lib (m_aliases m ! au_auth a)) \<noteq> None)
     \<and> (\<forall>p \<in> set (m_profiles m). \<exists>a. p_Accounting p = Some a \<and> a < length (m_aliases m) \<and> e_acct env (al_lib (m_aliases m ! a)))"

section \<open>Servers\<close>

lemma server_tables_only [simp]:
  "level_of (m\<lparr>m_active := gs\<rparr>) = level_of m" "level_of (m\<lparr>m_laststatactive := t\<rparr>) = level_of m" "level_of (m\<lparr>m_profiles := ps\<rparr>) = level_of m"
  "getserver n (m\<lparr>m_active := gs\<rparr>) = getserver n m" "getserver n (m\<lparr>m_laststatactive := t\<rparr>) = getserver n m"
  "getserver n (m\<lparr>m_profiles := ps\<rparr>) = getserver n m"
  "level_of (m\<lparr>m_serverstart := x, m_nrforks := y, m_numcores := z\<rparr>) = level_of m"
  "getserver n (m\<lparr>m_serverstart := x, m_nrforks := y, m_numcores := z\<rparr>) = getserver n m"
  by (simp_all add: level_of_def getserver_def fun_eq_iff)

lemma server_conf_tables:
  assumes "map server_conf (m_servers m') = map server_conf (m_servers m)"
  shows "length (m_servers m') = length (m_servers m)" "map s_Name (m_servers m') = map s_Name (m_servers m)"
    "getserver n m' = getserver n m" "i < length (m_servers m) \<Longrightarrow> level_of m' i = level_of m i"
proof -
  show l: "length (m_servers m') = length (m_servers m)" using arg_cong [OF assms, of length] by simp
  have c: "server_conf (m_servers m' ! i) = server_conf (m_servers m ! i)" if "i < length (m_servers m)" for i
    using that l arg_cong [OF assms, of "\<lambda>x. x ! i"] by simp
  have n: "s_Name (server_conf s) = s_Name s" "s_Level (server_conf s) = s_Level s" for s by (simp_all add: server_conf_def)
  show "i < length (m_servers m) \<Longrightarrow> level_of m' i = level_of m i" using c [of i] unfolding level_of_def by (metis n(2))
  have "map (s_Name \<circ> server_conf) (m_servers m') = map (s_Name \<circ> server_conf) (m_servers m)"
    using assms by (metis map_map)
  then show names: "map s_Name (m_servers m') = map s_Name (m_servers m)" by (simp add: comp_def n)
  have "getserver n m = find_index (\<lambda>x. strcmp x n = 0) (map s_Name (m_servers m))" for m
    by (simp add: getserver_def find_index_map comp_def)
  with names show "getserver n m' = getserver n m" by simp
qed

lemma router_ok_cong:
  assumes "map server_conf (m_servers m') = map server_conf (m_servers m)" and "m_lservers m' = m_lservers m" and "m_active m' = m_active m"
    and "router_ok m"
  shows "router_ok m'"
proof -
  note t = server_conf_tables [OF assms(1)]
  have "\<forall>i \<in> set (m_lservers m). i < length (m_servers m)" using assms(4) by (auto simp: router_ok_def)
  then have "map (level_of m') (m_lservers m) = map (level_of m) (m_lservers m)" by (simp add: t)
  with assms show ?thesis unfolding router_ok_def t(1-3) by (simp only:) simp
qed

lemma server_file_frame: "server_file old ls x m = Ok m' \<Longrightarrow> \<exists>ss. m' = m\<lparr>m_servers := ss\<rparr>"
proof (induction old ls x m rule: server_file.induct)
  case (2 old l ls x m)
  from "2.prems" obtain buf where buf: "chop l = Ok buf" by (cases "chop l") auto
  show ?case
  proof (cases "is_comment buf")
    case False
    with "2.prems" buf obtain x' m1 rest where p: "strncaseeq buf ''server'' 6"
        "parsecfg_server old buf ls x m = Ok (x', m1, rest)" "server_file old rest x' m1 = Ok m'" "length rest \<le> length ls"
      by (auto split: if_splits outcome.splits)
    from parsecfg_server_row [OF p(2)] obtain s where "m1 = m\<lparr>m_servers := m_servers m @ [s]\<rparr>" by blast
    moreover obtain ss where "m' = m1\<lparr>m_servers := ss\<rparr>" using "2.IH"(2) [OF buf False p(1,2) refl refl p(4,3)] by blast
    ultimately have "m' = m\<lparr>m_servers := ss\<rparr>" by simp
    then show ?thesis by blast
  qed (use 2 buf in simp)
next
  case (1 old x m)
  then show ?case by (intro exI [of _ "m_servers m'"]) simp
qed

text \<open>Loading the servers touches their tables only.\<close>

definition servers_only :: "master_t \<Rightarrow> master_t \<Rightarrow> bool" where
  "servers_only m m' \<longleftrightarrow> (\<exists>ss ls t p. m' = m\<lparr>m_servers := ss, m_lservers := ls, m_laststatserver := t, m_balance_pos := p\<rparr>)"

lemma load_servers_frame:
  assumes "load_servers fs cf old mtime m = Some (Ok m')"
  shows "servers_only m m'"
proof -
  from assms obtain ls m1 l where f: "server_file old ls \<lparr>x_lastgroups = [], x_lastlevel = 0\<rparr> m = Ok m1"
      and c: "check_server_redundancy (m1\<lparr>m_lservers := l, m_laststatserver := mtime, m_balance_pos := \<lambda>_. 0\<rparr>) = Some (Ok m')"
    by (auto simp: load_servers_def Let_def split: option.splits outcome.splits)
  from check_loop_same [OF c [unfolded check_server_redundancy_def]]
  have "m' = m1\<lparr>m_lservers := l, m_laststatserver := mtime, m_balance_pos := m_balance_pos m'\<rparr>"
    by (simp add: same_servers_def)
  moreover obtain ss where "m1 = m\<lparr>m_servers := ss\<rparr>" using server_file_frame [OF f] by blast
  ultimately have "m' = m\<lparr>m_servers := ss, m_lservers := l, m_laststatserver := mtime, m_balance_pos := m_balance_pos m'\<rparr>" by simp
  then show ?thesis unfolding servers_only_def by blast
qed

lemma acs_wf_servers: "servers_only m m' \<Longrightarrow> acs_wf m \<Longrightarrow> acs_wf m'"
  by (auto simp: servers_only_def acs_wf_def profile_ok_def auth_ok_def acl_ok_def)

lemma acs_wf_active: "acs_wf (m\<lparr>m_active := gs, m_laststatactive := t\<rparr>) = acs_wf m"
  by (simp add: acs_wf_def profile_ok_def auth_ok_def acl_ok_def)

section \<open>Groups and counters\<close>

lemma active_loop_servers:
  "active_loop m s gs = Ok gs' \<Longrightarrow> \<forall>a \<in> set gs. getserver (a_server a) m \<noteq> None \<Longrightarrow> \<forall>a \<in> set gs'. getserver (a_server a) m \<noteq> None"
proof (induction m s gs rule: active_loop.induct)
  case (1 m s gs)
  have a: "(case read_entry s of At_end \<Rightarrow> Ok gs | Broken_entry r \<Rightarrow> active_loop m r gs
      | Entry a r \<Rightarrow> if getserver (a_server a) m = None then Die ''Inconsistency detected''
          else if MAX_GROUPS \<le> length gs + 1 then Die ''Too many newsgroups''
          else active_loop m r (gs @ [a\<lparr>a_id := length gs\<rparr>])) = Ok gs'"
    using "1.prems"(1) by (subst (asm) active_loop.simps)
  show ?case
  proof (cases "read_entry s")
    case At_end
    with a "1.prems"(2) show ?thesis by simp
  next
    case (Broken_entry r)
    with a "1.IH"(1) [OF Broken_entry] "1.prems"(2) show ?thesis by simp
  next
    case (Entry x r)
    with a have x: "getserver (a_server x) m \<noteq> None" "\<not> MAX_GROUPS \<le> length gs + 1"
        "active_loop m r (gs @ [x\<lparr>a_id := length gs\<rparr>]) = Ok gs'"
      by (simp_all split: if_split_asm)
    with "1.prems"(2) show ?thesis by (intro "1.IH"(2) [OF Entry x(1,2) x(3)]) simp
  qed
qed

text \<open>The saved counters go to the profiles, and change nothing else of them.\<close>

definition stat_free :: "profile_t \<Rightarrow> profile_t" where
  "stat_free p = p\<lparr>p_bytes := 0, p_articles := 0\<rparr>"

definition counters_only :: "master_t \<Rightarrow> master_t \<Rightarrow> bool" where
  "counters_only m m' \<longleftrightarrow> (\<exists>ps. m' = m\<lparr>m_profiles := ps\<rparr> \<and> map stat_free ps = map stat_free (m_profiles m))"

lemma counters_trans: "counters_only a b \<Longrightarrow> counters_only b c \<Longrightarrow> counters_only a c"
  by (auto simp: counters_only_def)

lemma stats_lines_counters: "stats_lines bs m = Ok m' \<Longrightarrow> counters_only m m'"
proof (induction bs arbitrary: m)
  case Nil
  then show ?case unfolding counters_only_def by (intro exI [of _ "m_profiles m'"]) simp
next
  case (Cons b bs)
  from Cons.prems obtain m1 where b: "stats_line b m = Ok m1" and r: "stats_lines bs m1 = Ok m'" by auto
  have "counters_only m (update_profile p (\<lambda>q. q\<lparr>p_bytes := x, p_articles := y\<rparr>) m)" for p x y
    unfolding counters_only_def update_profile_def
    by (intro exI [of _ "(m_profiles m)[p := (m_profiles m ! p)\<lparr>p_bytes := x, p_articles := y\<rparr>]"])
      (cases "p < length (m_profiles m)"; auto simp: map_update stat_free_def list_update_beyond intro!: nth_equalityI simp: nth_list_update)
  moreover have "counters_only m m" unfolding counters_only_def by (intro exI [of _ "m_profiles m"]) simp
  ultimately have "counters_only m m1" using b by (auto simp: stats_line_def Let_def split: if_splits option.splits)
  with Cons.IH [OF r] show ?case using counters_trans by blast
qed

lemma load_statsfile_counters: "load_statsfile fs cf mt t m = Ok m' \<Longrightarrow> counters_only m m'"
proof -
  have "counters_only m m" unfolding counters_only_def by (intro exI [of _ "m_profiles m"]) simp
  then show "load_statsfile fs cf mt t m = Ok m' \<Longrightarrow> ?thesis"
    by (auto simp: load_statsfile_def cmdstatistics_loadfile_def dest: stats_lines_counters split: option.splits if_splits)
qed

lemma counters_tables:
  assumes "counters_only m m'"
  shows "router_ok m' = router_ok m" "access_ok env m' = access_ok env m"
proof -
  from assms obtain ps where m': "m' = m\<lparr>m_profiles := ps\<rparr>" and ps: "map stat_free ps = map stat_free (m_profiles m)"
    unfolding counters_only_def by blast
  have l: "length ps = length (m_profiles m)" using arg_cong [OF ps, of length] by simp
  have all: "(\<forall>p \<in> set ps. P (stat_free p)) = (\<forall>p \<in> set (m_profiles m). P (stat_free p))" for P
    using arg_cong [OF ps, of "\<lambda>x. \<forall>p \<in> set x. P p"] by simp
  have f: "p_Name (stat_free p) = p_Name p" "p_Accounting (stat_free p) = p_Accounting p" "profile_ok k (stat_free p) = profile_ok k p" for p k
    by (simp_all add: stat_free_def profile_ok_def)
  have "getprofile n m' = find_index (\<lambda>x. strcmp (p_Name x) n = 0) (map stat_free ps)" for n
    by (simp add: m' getprofile_def find_index_map comp_def f)
  then have g: "getprofile n m' = getprofile n m" for n by (simp add: ps getprofile_def find_index_map comp_def f)
  have o: "profile_ok m' p = profile_ok m p" "acl_ok m' a = acl_ok m a" "auth_ok m' b = auth_ok m b" for p a b
    by (simp_all add: m' l profile_ok_def acl_ok_def auth_ok_def)
  have "(\<forall>p \<in> set ps. profile_ok m p) = (\<forall>p \<in> set (m_profiles m). profile_ok m p)" using all [of "profile_ok m"] by (simp only: f)
  then have w: "acs_wf m' = acs_wf m" unfolding acs_wf_def o by (simp add: m' l)
  show "access_ok env m' = access_ok env m"
    using all [of "\<lambda>p. \<exists>a. p_Accounting p = Some a \<and> a < length (m_aliases m) \<and> e_acct env (al_lib (m_aliases m ! a))"]
    unfolding access_ok_def w g by (simp add: m' f)
  show "router_ok m' = router_ok m" by (simp add: m' router_ok_def)
qed

section \<open>Start and reload\<close>

lemma lift_po_Ok [run_Ok]: "lift_po x w = Some (Ok (a, w')) \<longleftrightarrow> x = Some (Ok a) \<and> w' = w"
  by (auto simp: lift_po_def run_Ok split: option.split)

lemma start_result:
  assumes "run_daemon sr w = Some (Ok (u, w'))" and "m_servers (w_m w) = []" and "acs_wf (w_m w)" and "\<not> cf_RemoteConfig (cfg w')"
  shows "router_ok (w_m w') \<and> access_ok (w_env w') (w_m w') \<and> m_clients (w_m w') = m_clients (w_m w)"
proof -
  from assms(1) obtain w0 m1 m2 m3 m4 t where c: "loadconfig sr w = Some (Ok ((), w0))"
    and s: "load_servers (e_fs (w_env w0)) (cfg w0) (\<lambda>_. zero_server) (sr_servers_time sr) (w_m w0) = Some (Ok m1)"
    and a: "loadactive (e_fs (w_env w0)) (cfg w0) (sr_active_time sr) m1 = Ok m2"
    and l: "access_conf sr (w_env w0) m2 = Some (Ok m3)"
    and f: "load_statsfile (e_fs (w_env w0)) (cfg w0) (sr_stats_time sr) t m3 = Ok m4"
    and w': "w_m w' = m4\<lparr>m_serverstart := u32 (now w0), m_nrforks := 0, m_numcores := sr_cores sr\<rparr>" "w_env w' = w_env w0"
    unfolding run_daemon_def load_tables_def Let_def by (auto simp: run_Ok now_def)
  from c have m0: "w_m w0 = w_m w" by (auto simp: loadconfig_def run_Ok)
  with assms(2) have sv: "router_ok (m1\<lparr>m_active := []\<rparr>)" using load_servers_result [OF _ s]
    by (simp add: router_ok_def)
  have wf1: "acs_wf m1" using acs_wf_servers [OF load_servers_frame [OF s]] assms(3) m0 by simp
  from a obtain s' gs where gs: "active_loop m1 s' [] = Ok gs" and m2: "m2 = m1\<lparr>m_active := gs, m_laststatactive := sr_active_time sr\<rparr>"
    by (auto simp: loadactive_def split: option.splits)
  have r2: "router_ok m2" using sv active_loop_servers [OF gs]
    by (simp add: m2 router_ok_def)
  have "acs_wf m2" using wf1 by (simp add: m2 acs_wf_active)
  moreover have "\<not> cf_RemoteConfig (cfg w0)" using assms(4) w'(2) by simp
  ultimately have r3: "acs_wf m3 \<and> outside_access m2 m3 \<and> access_ok (w_env w0) m3"
    using load_access_conf_result [OF _ _ l [unfolded access_conf_def]] by (auto simp: access_ok_def)
  then have "router_ok m3" using router_ok_cong [of m3 m2] r2 by (simp add: outside_access_def)
  have "m_clients m1 = m_clients (w_m w)" using load_servers_frame [OF s] m0 by (auto simp: servers_only_def)
  moreover have "m_clients m4 = m_clients m3" using load_statsfile_counters [OF f] by (auto simp: counters_only_def)
  ultimately have c: "m_clients m4 = m_clients (w_m w)" using r3 by (simp add: outside_access_def m2)
  from r3 \<open>router_ok m3\<close> have "router_ok m4 \<and> access_ok (w_env w0) m4" using counters_tables [OF load_statsfile_counters [OF f]] by simp
  with c show ?thesis
    by (simp add: w' router_ok_def access_ok_def acs_wf_def profile_ok_def acl_ok_def auth_ok_def getserver_def getprofile_def level_of_def)
qed

definition fresh :: "world \<Rightarrow> bool" where
  \<comment> \<open>the memory of a new process: all zero, whatever the number of slots\<close>
  "fresh w \<longleftrightarrow> w_m w = zero_master\<lparr>m_clients := replicate (length (m_clients (w_m w))) zero_client, m_users := replicate (length (m_users (w_m w))) zero_user\<rparr>"

lemma fresh_tables: "fresh w \<Longrightarrow> m_servers (w_m w) = [] \<and> acs_wf (w_m w) \<and> slots_typed (m_clients (w_m w))"
proof -
  assume f: "fresh w"
  have "acs_wf (zero_master\<lparr>m_clients := replicate i zero_client, m_users := b\<rparr>) \<and> m_servers (zero_master\<lparr>m_clients := replicate i zero_client, m_users := b\<rparr>) = []
      \<and> slots_typed (m_clients (zero_master\<lparr>m_clients := replicate i zero_client, m_users := b\<rparr>))" for i b
    by (simp add: acs_wf_def zero_master_def slots_typed_def zero_client_def)
  then show ?thesis using f unfolding fresh_def by metis
qed

section \<open>Reachable states\<close>

text \<open>The states of the daemon between its events: after the start, and after every event that is not a reload.\<close>

inductive daemon_reaches :: "world \<Rightarrow> world \<Rightarrow> bool" where
  started: "run_daemon sr w0 = Some (Ok (u, w)) \<Longrightarrow> daemon_reaches w0 w"
| stepped: "daemon_reaches w0 v \<Longrightarrow> \<not> reloads e \<Longrightarrow> daemon_step e v = Some (Ok (go, w)) \<Longrightarrow> daemon_reaches w0 w"

text \<open>What the start gives and no event takes away.\<close>

locale daemon_invariant =
  fixes before :: "world \<Rightarrow> bool" and holds :: "world \<Rightarrow> bool"
  assumes start_holds: "before w0 \<Longrightarrow> run_daemon sr w0 = Some (Ok (u, w)) \<Longrightarrow> holds w"
    and accept_holds: "holds v \<Longrightarrow> daemon_accept fd ip ssl f v = Some (Ok (x, w)) \<Longrightarrow> holds w"
begin

lemma step_holds: "holds v \<Longrightarrow> \<not> reloads e \<Longrightarrow> daemon_step e v = Some (Ok (go, w)) \<Longrightarrow> holds w"
  by (cases e) (auto simp: run_Ok dest: accept_holds)

lemma reaches_holds: "daemon_reaches w0 w \<Longrightarrow> before w0 \<Longrightarrow> holds w"
  by (induction rule: daemon_reaches.induct) (auto dest: start_holds step_holds)

end

text \<open>The program stays within them.\<close>

lemma loop_reaches:
  "daemon_select_loop es v = Some (Ok (u, w)) \<Longrightarrow> \<not> list_ex reloads es \<Longrightarrow> daemon_reaches w0 v \<Longrightarrow> daemon_reaches w0 w"
proof (induction es arbitrary: v)
  case (Cons e es)
  then obtain go x where e: "daemon_step e v = Some (Ok (go, x))" and r: "(if go then daemon_select_loop es else ret ()) x = Some (Ok (u, w))"
    by (auto simp: run_Ok)
  have "daemon_reaches w0 x" using Cons.prems(2,3) e by (auto intro: stepped)
  then show ?case using Cons.IH r Cons.prems(2) by (cases go) (auto simp: run_Ok)
qed (simp add: run_Ok)

lemma main_reaches:
  assumes "daemon_main argv sr es w0 = Some (Ok (u, w))" and "\<not> list_ex reloads es"
  shows "daemon_reaches w0 w"
proof -
  from assms(1) obtain c t x v where s: "run_daemon (sr\<lparr>sr_config := c\<rparr>) w0 = Some (Ok (x, v))"
    and l: "(if t then ret () else daemon_select_loop es) v = Some (Ok (u, w))"
    by (auto simp: daemon_main_def run_Ok)
  from s have "daemon_reaches w0 v" by (rule started)
  with l assms(2) show ?thesis by (cases t) (auto simp: run_Ok intro: loop_reaches)
qed

text \<open>The two invariants: how groups find their servers, and how the slots are numbered.\<close>

definition routed :: "world \<Rightarrow> bool" where
  "routed w \<longleftrightarrow> cf_RemoteConfig (cfg w) \<or> router_ok (w_m w)"

interpretation routing: daemon_invariant fresh routed
proof
  show "routed w" if "fresh w0" "run_daemon sr w0 = Some (Ok (u, w))" for w0 sr u w
    using start_result [OF that(2)] fresh_tables [OF that(1)] by (auto simp: routed_def)
  show "routed w" if "routed v" "daemon_accept fd ip ssl f v = Some (Ok (x, w))" for v fd ip ssl f x w
    using accept_routes [OF that(2)] that(1) router_ok_cong [of "w_m w" "w_m v"] by (auto simp: routed_def routes_def)
qed

definition numbered :: "world \<Rightarrow> bool" where
  "numbered w \<longleftrightarrow> cf_RemoteConfig (cfg w) \<or> slots_typed (m_clients (w_m w))"

interpretation numbering: daemon_invariant fresh numbered
proof
  show "numbered w" if "fresh w0" "run_daemon sr w0 = Some (Ok (u, w))" for w0 sr u w
    using start_result [OF that(2)] fresh_tables [OF that(1)] unfolding numbered_def by metis
  show "numbered w" if "numbered v" "daemon_accept fd ip ssl f v = Some (Ok (x, w))" for v fd ip ssl f x w
    using accept_typed [OF that(2)] accept_routes [OF that(2)] that(1) by (auto simp: numbered_def routes_def)
qed

section \<open>Properties\<close>

text \<open>C2: 
  Started on fresh memory, the program has read its servers and groups so that they fit together, and every
  session leaves them so, whoever connects and however it ends: as long as nothing is reloaded, every group of
  the active file has a server to be selected by, the balancer a list in the order of the levels, and every slot
  in use its own number.
\<close>

theorem every_group_has_its_server:
  assumes "daemon_main argv sr es w = Some (Ok (u, w'))" and "\<not> list_ex reloads es" and "fresh w" and "\<not> cf_RemoteConfig (cfg w')"
  shows "router_ok (w_m w') \<and> slots_typed (m_clients (w_m w')) \<and> (\<forall>a \<in> set (m_active (w_m w')). selectserver_primary (a_server a) (w_m w') \<noteq> Some Undef)"
proof -
  from routing.reaches_holds [OF main_reaches [OF assms(1,2)] assms(3)] assms(4)
  have ok: "router_ok (w_m w')" by (simp add: routed_def)
  have slots: "slots_typed (m_clients (w_m w'))"
    using numbering.reaches_holds [OF main_reaches [OF assms(1,2)] assms(3)] assms(4) by (simp add: numbered_def)
  have "selectserver_primary (a_server a) (w_m w') \<noteq> Some Undef" if a: "a \<in> set (m_active (w_m w'))" for a
  proof -
    from ok a obtain i where "getserver (a_server a) (w_m w') = Some i" unfolding router_ok_def by blast
    then show ?thesis by (simp add: selectserver_primary_def Let_def)
  qed
  with ok slots show ?thesis by blast
qed

text \<open>
  The start alone: what the access list refers to is there, and all the modules it names exist.
\<close>

theorem start_checks_access:
  assumes "daemon_main argv sr [] w = Some (Ok (u, w'))" and "fresh w" and "\<not> cf_RemoteConfig (cfg w')"
  shows "access_ok (w_env w') (w_m w')"
proof -
  from assms(1) obtain c where "run_daemon (sr\<lparr>sr_config := c\<rparr>) w = Some (Ok (u, w'))"
    by (auto simp: daemon_main_def run_Ok split: if_splits)
  from start_result [OF this] fresh_tables [OF assms(2)] assms(3) show ?thesis by blast
qed

text \<open>C37: 
  A reload reads the servers again when their file is newer, and the groups only when theirs is: a group stays
  whose server is gone, and the session that selects it crashes.
\<close>

theorem reload_leaves_group_behind:
  assumes "daemon_reload sr w = Some (Ok (u, w'))" and "acs_wf (w_m w)" and "\<not> cf_RemoteConfig (cfg w)"
    and "reload_servers (e_fs (w_env w)) (cfg w) (sr_servers_time sr) (w_m w) = Some (Ok m1)"
    and "sr_active_time sr \<le> m_laststatactive (w_m w)" and "a \<in> set (m_active (w_m w))" and "a_server a \<notin> s_Name ` set (m_servers m1)"
  shows "a \<in> set (m_active (w_m w')) \<and> selectserver_primary (a_server a) (w_m w') = Some Undef"
proof -
  have f: "servers_only (w_m w) m1"
  proof (cases "m_laststatserver (w_m w) < sr_servers_time sr")
    case True
    with assms(4) have "servers_only (clear_servers (w_m w)) m1" by (auto simp: reload_servers_def intro: load_servers_frame)
    then show ?thesis by (auto simp: servers_only_def clear_servers_def)
  next
    case False
    with assms(4) show ?thesis unfolding servers_only_def reload_servers_def
      by (intro exI [of _ "m_servers m1"] exI [of _ "m_lservers m1"] exI [of _ "m_laststatserver m1"] exI [of _ "m_balance_pos m1"]) simp
  qed
  then have t: "m_laststatactive m1 = m_laststatactive (w_m w)" "m_active m1 = m_active (w_m w)" by (auto simp: servers_only_def)
  from assms(1,4,5) t(1) obtain m2 where l: "access_conf sr (w_env w) m1 = Some (Ok m2)" and w': "w_m w' = m2"
    by (auto simp: daemon_reload_def loadconfig_def reloadactive_def run_Ok)
  have "outside_access m1 m2"
    using load_access_conf_result [OF acs_wf_servers [OF f assms(2)] assms(3) l [unfolded access_conf_def]] by blast
  then have "m_servers (w_m w') = m_servers m1" "m_active (w_m w') = m_active (w_m w)" by (simp_all add: outside_access_def t w')
  moreover from this assms(7) have "getserver (a_server a) (w_m w') = None" by (auto simp: getserver_def find_index_None image_iff dest: sym)
  ultimately show ?thesis using assms(6) by (simp add: selectserver_primary_def)
qed

section \<open>Witnesses\<close>

text \<open>A host with the files of a small switch: two groups, one on each server.\<close>

definition host_files :: files where
  "host_files =
     [''/etc/s.conf'' \<mapsto> [''BasePath /news'' @ [LF], ''ServerFile servers'' @ [LF], ''ActiveFile active'' @ [LF], ''OverviewFmtFile overview.fmt'' @ [LF],
        ''AccessFile access'' @ [LF], ''ListenPorts 119'' @ [LF], ''MaxConnections 9'' @ [LF], ''BufSize 256'' @ [LF]],
      ''/news/servers'' \<mapsto> [''server default'', '' type spool'', '' groups *'', ''end'', ''server a'', '' groups alt.*'', ''end''],
      ''/news/active'' \<mapsto> [''alt.test 9 1 y a 0'' @ [LF], ''comp.test 5 1 y default 0'' @ [LF]],
      ''/news/overview.fmt'' \<mapsto> [''Subject:'' @ [LF]],
      ''/news/access'' \<mapsto> sample_access @ [''acl 0.0.0.0/0 read,post default'']]"

definition host_world :: world where
  "host_world = sample_world\<lparr>w_env := sample_env\<lparr>e_cfg := zero_cfg, e_fs := host_files, e_auth := (\<lambda>_. Some (\<lambda>a _. a))\<rparr>,
     w_m := zero_master\<lparr>m_clients := replicate 2 zero_client, m_users := replicate 2 zero_user\<rparr>, w_me := 0\<rparr>"

definition host_start :: surroundings where
  "host_start = \<lparr>sr_config = None, sr_active_time = 5, sr_servers_time = 5, sr_stats_time = None, sr_ssl = (\<lambda>_ _ _. None), sr_wildmats = None,
     sr_behind = (\<lambda>_. \<lparr>w_pattern = [], w_name = []\<rparr>), sr_cores = 1\<rparr>"

lemma host_fresh: "fresh host_world"
  by (simp add: fresh_def host_world_def)

theorem every_group_has_its_server_witness:
  "\<exists>w'. daemon_main [''nntpswitchd'', ''-c'', ''/etc/s.conf''] host_start [Connection 5 1 False Child] host_world = Some (Ok ((), w'))
     \<and> length (m_active (w_m w')) = 2 \<and> router_ok (w_m w')"
proof -
  have "runs (daemon_main [''nntpswitchd'', ''-c'', ''/etc/s.conf''] host_start [Connection 5 1 False Child]) host_world
      (\<lambda>_ w'. length (m_active (w_m w')) = 2 \<and> \<not> cf_RemoteConfig (cfg w'))" by code_simp
  then obtain u w' where r: "daemon_main [''nntpswitchd'', ''-c'', ''/etc/s.conf''] host_start [Connection 5 1 False Child] host_world = Some (Ok (u, w'))"
      "length (m_active (w_m w')) = 2" "\<not> cf_RemoteConfig (cfg w')" unfolding runs_iff by blast
  from every_group_has_its_server [OF r(1) _ host_fresh r(3)] r show ?thesis by auto
qed

theorem start_checks_access_witness:
  "\<exists>w'. daemon_main [''nntpswitchd'', ''--config'', ''/etc/s.conf'', ''--test''] host_start [] host_world = Some (Ok ((), w'))
     \<and> access_ok (w_env w') (w_m w')"
proof -
  have "runs (daemon_main [''nntpswitchd'', ''--config'', ''/etc/s.conf'', ''--test''] host_start []) host_world
      (\<lambda>_ w'. \<not> cf_RemoteConfig (cfg w'))" by code_simp
  then obtain u w' where r: "daemon_main [''nntpswitchd'', ''--config'', ''/etc/s.conf'', ''--test''] host_start [] host_world = Some (Ok (u, w'))"
      "\<not> cf_RemoteConfig (cfg w')" unfolding runs_iff by blast
  from start_checks_access [OF r(1) host_fresh r(2)] r show ?thesis by auto
qed

text \<open>A daemon that runs, whose servers file has lost the server of its only group.\<close>

definition left_group :: active_t where
  "left_group = \<lparr>a_hi = 1, a_lo = 1, a_times = 0, a_id = 0, a_mode = CHR ''y'', a_newsgroup = ''alt.test'', a_server = ''gone''\<rparr>"

definition running_host :: world where
  "running_host = host_world\<lparr>w_env := (w_env host_world)\<lparr>e_cfg := zero_cfg\<lparr>cf_ServerFile := ''/news/servers'', cf_AccessFile := ''/news/access''\<rparr>\<rparr>,
     w_m := zero_master\<lparr>m_active := [left_group], m_laststatactive := 5, m_servers := [zero_server\<lparr>s_Name := ''gone''\<rparr>]\<rparr>\<rparr>"

theorem reload_leaves_group_behind_witness:
  "\<exists>w'. daemon_reload (host_start\<lparr>sr_config := Some ''/etc/s.conf''\<rparr>) running_host = Some (Ok ((), w'))
     \<and> selectserver_primary ''gone'' (w_m w') = Some Undef"
proof -
  let ?sr = "host_start\<lparr>sr_config := Some ''/etc/s.conf''\<rparr>"
  have "runs (daemon_reload ?sr) running_host (\<lambda>_ _. True)" by code_simp
  then obtain u w' where r: "daemon_reload ?sr running_host = Some (Ok (u, w'))" unfolding runs_iff by blast
  let ?l = "reload_servers (e_fs (w_env running_host)) (cfg running_host) (sr_servers_time ?sr) (w_m running_host)"
  have "(case ?l of Some (Ok m) \<Rightarrow> ''gone'' \<notin> s_Name ` set (m_servers m) | _ \<Rightarrow> False)" by code_simp
  then obtain m1 where m1: "?l = Some (Ok m1)" "''gone'' \<notin> s_Name ` set (m_servers m1)"
    by (auto split: option.split_asm outcome.split_asm)
  have c: "acs_wf (w_m running_host)" "\<not> cf_RemoteConfig (cfg running_host)" "sr_active_time ?sr \<le> m_laststatactive (w_m running_host)"
      "left_group \<in> set (m_active (w_m running_host))" "a_server left_group = ''gone''"
    by (simp_all add: running_host_def acs_wf_def zero_master_def zero_cfg_def host_start_def left_group_def)
  from reload_leaves_group_behind [OF r c(1,2) m1(1) c(3,4)] m1(2) c(5) r show ?thesis by auto
qed

end
