(* ===== verification/Boot.thy ===== *)
theory Boot
  imports Startup
begin

text \<open>
  The process of the daemon (\<open>daemon.c\<close>, with \<open>semaphore.c\<close>, \<open>memory.c\<close> and \<open>timerproc.c\<close>): its user,
  its working directory, its descriptors, the files with its process id, and the order in which the start
  changes them around the tables that \<open>run_daemon\<close> reads. What the system answers is a parameter.
\<close>

section \<open>The system and the process\<close>

text \<open>
  A socket gets a descriptor that depends on those in use. An address is bound after those the process has
  bound. A file is created, and a directory entered, by a user. The rest are the answers to the one
  call of its kind: the shared memory, the semaphore of a key, the process ids of the two forks.
\<close>

record system =
  sy_memmap :: bool
  sy_socket :: "int list \<Rightarrow> int option"
  sy_reuse :: "int \<Rightarrow> bool"
  sy_bind :: "(int \<times> string \<times> nat) list \<Rightarrow> string \<Rightarrow> nat \<Rightarrow> bool"
  sy_listen :: "int \<Rightarrow> bool"
  sy_curl :: bool
  sy_create :: "nat \<Rightarrow> string \<Rightarrow> bool"
  sy_passwd :: "string \<Rightarrow> (nat \<times> nat) option"
  sy_setuid :: "nat \<Rightarrow> bool"
  sy_chdir :: "nat \<Rightarrow> string \<Rightarrow> bool"
  sy_semget :: "int \<Rightarrow> int option"
  sy_fork :: "int option"
  sy_setsid :: bool
  sy_timer :: "int option"

text \<open>
  The listening sockets with the address each is bound to; the two sets of descriptors and the greatest in
  them; the process id files written, the last one first, with the user and group each was given to.
\<close>

record process =
  pc_pid :: int
  pc_session :: int
  pc_uid :: nat
  pc_gid :: nat
  pc_cwd :: string
  pc_fds :: "int list"
  pc_bound :: "(int \<times> string \<times> nat) list"
  pc_serverfds :: "int list"
  pc_sslfds :: "int list"
  pc_maxfd :: int
  pc_pidfiles :: "(string \<times> int \<times> nat \<times> nat) list"
  pc_semid :: "int option"
  pc_timerpid :: int
  pc_kills :: "(int \<times> signal) list"

definition resolve :: "string \<Rightarrow> string \<Rightarrow> string" where
  \<comment> \<open>a path as the system reads it\<close>
  "resolve cwd path = (if chr_at path 0 = CHR ''/'' then path else cwd @ ''/'' @ path)"

definition FD_SETSIZE :: int where "FD_SETSIZE = 1024"

definition MASTER_SEMKEY :: int where "MASTER_SEMKEY = 3333"

section \<open>Sockets\<close>

text \<open>A test makes the socket and does not bind it.\<close>

definition init_socket :: "system \<Rightarrow> cfg_t \<Rightarrow> bool \<Rightarrow> nat \<Rightarrow> process \<Rightarrow> (int \<times> process) outcome" where
  "init_socket sy cf test_only port p =
     (case sy_socket sy (pc_fds p) of
        None \<Rightarrow> Die ''Can't create socket''
      | Some sock \<Rightarrow>
          let p = p\<lparr>pc_fds := pc_fds p @ [sock]\<rparr> in
          if \<not> sy_reuse sy sock then Die ''Can't set socket options''
          else if test_only then Ok (sock, p)
          else if \<not> sy_bind sy (pc_bound p) (cf_BindAddress cf) port then Die ''Bind failed''
          else if \<not> sy_listen sy sock then Die ''Listen failed''
          else Ok (sock, p\<lparr>pc_bound := pc_bound p @ [(sock, cf_BindAddress cf, port)]\<rparr>))"

text \<open>A descriptor that is no member of a set of the system has no place in it.\<close>

definition fd_set :: "bool \<Rightarrow> int \<Rightarrow> process \<Rightarrow> process outcome" where
  "fd_set ssl sock p =
     (if sock < 0 \<or> FD_SETSIZE \<le> sock then Undef
      else Ok (p\<lparr>pc_serverfds := pc_serverfds p @ [sock], pc_sslfds := pc_sslfds p @ (if ssl then [sock] else []),
                pc_maxfd := max (pc_maxfd p) sock\<rparr>))"

function (sequential) init_sockets_from_port_list ::
  "system \<Rightarrow> cfg_t \<Rightarrow> bool \<Rightarrow> bool \<Rightarrow> string \<Rightarrow> process \<Rightarrow> process outcome" where
  "init_sockets_from_port_list sy cf test_only ssl [] p = Ok p"
| "init_sockets_from_port_list sy cf test_only ssl s p =
     (case strtoul s of
        None \<Rightarrow> Die ''not a port''
      | Some (n, r) \<Rightarrow>
          if n = 0 then Die ''port is negative''
          else if 65536 < n then Die ''port is too high''
          else obind (init_socket sy cf test_only (n mod 2 ^ 16) p) (\<lambda>(sock, p).
               obind (fd_set ssl sock p) (\<lambda>p.
               init_sockets_from_port_list sy cf test_only ssl (dropWhile (\<lambda>c. c \<in> set separators) r) p)))"
  by pat_completeness auto
termination
proof (relation "measure (\<lambda>(sy, cf, t, ssl, s, p). length s)", simp)
  fix sy cf t ssl and c :: char and s :: string and p q :: process and x n r y z w
  assume "strtoul (c # s) = Some x" and "(n, r) = x"
  then have "length r < length (c # s)" by (auto dest: strtoul_shorter)
  moreover have "length (dropWhile (\<lambda>c. c \<in> set separators) r) \<le> length r" by (rule length_dropWhile_le)
  ultimately show "((sy, cf, t, ssl, dropWhile (\<lambda>c. c \<in> set separators) r, q), sy, cf, t, ssl, c # s, p)
      \<in> measure (\<lambda>(sy, cf, t, ssl, s, p). length s)" by simp
qed

definition listen_sockets :: "system \<Rightarrow> cfg_t \<Rightarrow> bool \<Rightarrow> process \<Rightarrow> process outcome" where
  "listen_sockets sy cf test_only p =
     obind (init_sockets_from_port_list sy cf test_only False (cf_ListenPorts cf) (p\<lparr>pc_serverfds := [], pc_sslfds := [], pc_maxfd := -1\<rparr>)) (\<lambda>p.
     if cf_EnableSSL cf then init_sockets_from_port_list sy cf test_only True (cf_ListenSSLPorts cf) p else Ok p)"

section \<open>The steps of the start\<close>

definition writepidfile :: "system \<Rightarrow> cfg_t \<Rightarrow> process \<Rightarrow> process outcome" where
  "writepidfile sy cf p =
     (let path = resolve (pc_cwd p) (cf_PidFile cf) in
      if \<not> sy_create sy (pc_uid p) path then Die ''Can't write pidfile''
      else (case sy_passwd sy (cf_RunAsUser cf) of
              None \<Rightarrow> Die ''unknown user''
            | Some (u, g) \<Rightarrow> Ok (p\<lparr>pc_pidfiles := (path, pc_pid p, u, g) # pc_pidfiles p\<rparr>)))"

text \<open>Root becomes the user of the configuration; its group is not changed.\<close>

definition become_user :: "system \<Rightarrow> cfg_t \<Rightarrow> process \<Rightarrow> process outcome" where
  "become_user sy cf p =
     (if pc_uid p \<noteq> 0 then Ok p
      else (case sy_passwd sy (cf_RunAsUser cf) of
              None \<Rightarrow> Die ''Unknown user''
            | Some (u, g) \<Rightarrow> if sy_setuid sy u then Ok (p\<lparr>pc_uid := u\<rparr>) else Die ''Cant setuid''))"

text \<open>The directory of the command line, or else of the configuration.\<close>

definition daemon_chdir :: "system \<Rightarrow> string option \<Rightarrow> cfg_t \<Rightarrow> process \<Rightarrow> process outcome" where
  "daemon_chdir sy basedir cf p =
     (case (case basedir of Some b \<Rightarrow> Some b | None \<Rightarrow> if cf_BasePath cf = [] then None else Some (cf_BasePath cf)) of
        None \<Rightarrow> Ok p
      | Some wd \<Rightarrow>
          if wd = [] \<or> \<not> sy_chdir sy (pc_uid p) (resolve (pc_cwd p) wd) then Die ''chdir failed''
          else Ok (p\<lparr>pc_cwd := resolve (pc_cwd p) wd\<rparr>))"

definition semlock_init :: "system \<Rightarrow> process \<Rightarrow> process outcome" where
  "semlock_init sy p =
     (case sy_semget sy MASTER_SEMKEY of None \<Rightarrow> Die ''semlock_init: semget failed'' | Some i \<Rightarrow> Ok (p\<lparr>pc_semid := Some i\<rparr>))"

definition closeall :: "int list \<Rightarrow> process \<Rightarrow> process" where
  "closeall keepfds p = p\<lparr>pc_fds := filter (\<lambda>fd. fd < 0 \<or> FD_SETSIZE \<le> fd \<or> fd \<in> set keepfds) (pc_fds p)\<rparr>"

text \<open>The process that goes on is the child, in a session of its own.\<close>

definition init_daemon :: "system \<Rightarrow> process \<Rightarrow> process outcome" where
  "init_daemon sy p =
     (case sy_fork sy of
        None \<Rightarrow> Die ''Can't fork''
      | Some pid \<Rightarrow>
          let p = closeall (pc_serverfds p) (p\<lparr>pc_pid := pid\<rparr>) in
          if sy_setsid sy then Ok (p\<lparr>pc_session := pid\<rparr>) else Die ''Can't fork'')"

definition run_timer_loop :: "system \<Rightarrow> process \<Rightarrow> process outcome" where
  "run_timer_loop sy p =
     (case sy_timer sy of None \<Rightarrow> Die ''couldnt fork timer child'' | Some pid \<Rightarrow> Ok (p\<lparr>pc_timerpid := pid\<rparr>))"

section \<open>The start\<close>

datatype launched = No_curl | Tested | Serving

text \<open>All of \<open>run_daemon\<close> before its loop, with the process beside the world.\<close>

definition launch :: "system \<Rightarrow> surroundings \<Rightarrow> string option \<Rightarrow> bool \<Rightarrow> bool \<Rightarrow> process \<Rightarrow> (launched \<times> process) io" where
  "launch sy sr basedir opt_stay test_only p =
     thn (loadconfig sr)
     (bnd (asks cfg) (\<lambda>cf.
      bnd (lift_o (listen_sockets sy cf test_only p)) (\<lambda>p.
      if \<not> sy_curl sy then ret (No_curl, p)
      else
      bnd (lift_o (if test_only then Ok p else obind (writepidfile sy cf p) (become_user sy cf))) (\<lambda>p.
      bnd (lift_o (daemon_chdir sy basedir cf p)) (\<lambda>p.
      thn (load_tables sr)
      (bnd (lift_o (semlock_init sy p)) (\<lambda>p.
      if test_only then ret (Tested, p)
      else
      bnd (lift_o (if opt_stay then Ok p else obind (init_daemon sy p) (writepidfile sy cf))) (\<lambda>p.
      bnd (lift_o (if 0 < cf_StatsFilePeriod cf then run_timer_loop sy p else Ok p)) (\<lambda>p.
      ret (Serving, p))))))))))"

definition daemon_terminate :: "process \<Rightarrow> process" where
  \<comment> \<open>the timer process is told, and the semaphore removed\<close>
  "daemon_terminate p =
     p\<lparr>pc_kills := (if 0 < pc_timerpid p then [(pc_timerpid p, SIGTERM)] else []) @ pc_kills p, pc_semid := None\<rparr>"

definition basedir_option :: "string list \<Rightarrow> string option outcome" where
  "basedir_option argv = obind (tgetopt argv daemon_opts) (\<lambda>os. Ok (if toptset (CHR ''b'') os then toptargs (CHR ''b'') os else None))"

definition terminates :: "event \<Rightarrow> bool" where
  "terminates e = (case e of Terminate \<Rightarrow> True | _ \<Rightarrow> False)"

text \<open>The program with its process; a start without the web library ends it.\<close>

definition nntpswitchd :: "system \<Rightarrow> string list \<Rightarrow> surroundings \<Rightarrow> event list \<Rightarrow> process \<Rightarrow> (launched \<times> process) io" where
  "nntpswitchd sy argv sr es p =
     bnd (lift_o (init_options argv)) (\<lambda>(config_file, opt_stay, test_only).
     bnd (lift_o (basedir_option argv)) (\<lambda>basedir.
     if \<not> sy_memmap sy then lift_o (Die ''Can't allocate master memory'')
     else bnd (launch sy (sr\<lparr>sr_config := config_file\<rparr>) basedir opt_stay test_only p) (\<lambda>(l, p).
       if l = Serving then thn (daemon_select_loop es) (ret (l, if list_ex terminates es then daemon_terminate p else p))
       else ret (l, p))))"


section \<open>Lemmas on the sockets\<close>

text \<open>What opening sockets adds to the process: for each port a descriptor, bound to it unless it is a test.\<close>

definition opened :: "cfg_t \<Rightarrow> bool \<Rightarrow> bool \<Rightarrow> int list \<Rightarrow> nat list \<Rightarrow> process \<Rightarrow> process" where
  "opened cf test_only ssl fds ps p =
     p\<lparr>pc_fds := pc_fds p @ fds, pc_serverfds := pc_serverfds p @ fds, pc_sslfds := pc_sslfds p @ (if ssl then fds else []),
       pc_maxfd := fold max fds (pc_maxfd p),
       pc_bound := pc_bound p @ (if test_only then [] else map (\<lambda>(fd, port). (fd, cf_BindAddress cf, port)) (zip fds ps))\<rparr>"

lemma opened_Nil: "opened cf t ssl [] [] p = p"
  by (simp add: opened_def)

lemma opened_Cons:
  "opened cf t ssl fds ps (opened cf t ssl [fd] [q] p) = opened cf t ssl (fd # fds) (q # ps) p"
  by (simp add: opened_def max.commute)

lemma init_socket_opens:
  "init_socket sy cf t port p = Ok (fd, q) \<Longrightarrow> fd_set ssl fd q = Ok r
   \<Longrightarrow> r = opened cf t ssl [fd] [port] p \<and> 0 \<le> fd \<and> fd < FD_SETSIZE \<and> sy_socket sy (pc_fds p) = Some fd"
  by (auto simp: init_socket_def fd_set_def opened_def Let_def max.commute split: option.splits if_splits)

lemma port_list_opens:
  "init_sockets_from_port_list sy cf t ssl s p = Ok q \<Longrightarrow>
   \<exists>ps fds. port_list s = Ok ps \<and> length fds = length ps \<and> (\<forall>fd \<in> set fds. 0 \<le> fd \<and> fd < FD_SETSIZE) \<and> q = opened cf t ssl fds ps p"
proof (induction sy cf t ssl s p rule: init_sockets_from_port_list.induct)
  case (1 sy cf t ssl p)
  then have "q = p" by simp
  moreover have "port_list [] = Ok []" by simp
  ultimately show ?case using opened_Nil by (intro exI [of _ "[]"]) simp
next
  case (2 sy cf t ssl c s p)
  from "2.prems" obtain n r where n: "strtoul (c # s) = Some (n, r)" "n \<noteq> 0" "\<not> 65536 < n"
    by (auto split: option.splits if_splits)
  with "2.prems" obtain fd q1 q2 where i: "init_socket sy cf t (n mod 2 ^ 16) p = Ok (fd, q1)" and f: "fd_set ssl fd q1 = Ok q2"
    and l: "init_sockets_from_port_list sy cf t ssl (dropWhile (\<lambda>c. c \<in> set separators) r) q2 = Ok q" by auto
  from "2.IH" [OF n(1) refl n(2,3) l] obtain ps fds where
      ps: "port_list (dropWhile (\<lambda>c. c \<in> set separators) r) = Ok ps" "length fds = length ps"
        "\<forall>fd \<in> set fds. 0 \<le> fd \<and> fd < FD_SETSIZE" "q = opened cf t ssl fds ps q2" by blast
  have "q = opened cf t ssl (fd # fds) (n mod 2 ^ 16 # ps) p"
    using ps(4) init_socket_opens [OF i f] by (simp only: opened_Cons)
  moreover have "port_list (c # s) = Ok (n mod 2 ^ 16 # ps)" using n ps(1) by simp
  ultimately show ?case using ps init_socket_opens [OF i f] by (intro exI [of _ "n mod 2 ^ 16 # ps"] exI [of _ "fd # fds"]) simp
qed

lemma fold_max_ge: "(k :: int) \<le> fold max fds k \<and> (\<forall>fd \<in> set fds. fd \<le> fold max fds k)"
proof (induction fds arbitrary: k)
  case (Cons a fds)
  from Cons.IH [of "max a k"] show ?case by auto
qed simp

text \<open>All the sockets of the daemon.\<close>

definition served :: "cfg_t \<Rightarrow> bool \<Rightarrow> process \<Rightarrow> process \<Rightarrow> bool" where
  "served cf test_only p q \<longleftrightarrow> (\<exists>ps ss fds. init_sockets cf = Ok (ps, ss) \<and> length fds = length (ps @ ss)
     \<and> (\<forall>fd \<in> set fds. 0 \<le> fd \<and> fd < FD_SETSIZE \<and> fd \<le> pc_maxfd q)
     \<and> pc_serverfds q = fds \<and> pc_sslfds q = drop (length ps) fds \<and> set fds \<subseteq> set (pc_fds q)
     \<and> pc_bound q = pc_bound p @ (if test_only then [] else map (\<lambda>(fd, port). (fd, cf_BindAddress cf, port)) (zip fds (ps @ ss))))"

text \<open>What opening the sockets leaves of the process.\<close>

definition same_process :: "process \<Rightarrow> process \<Rightarrow> bool" where
  "same_process p q \<longleftrightarrow> (pc_pid q, pc_session q, pc_uid q, pc_gid q, pc_cwd q, pc_pidfiles q, pc_semid q, pc_timerpid q, pc_kills q)
     = (pc_pid p, pc_session p, pc_uid p, pc_gid p, pc_cwd p, pc_pidfiles p, pc_semid p, pc_timerpid p, pc_kills p)"

lemma listen_sockets_served:
  assumes "listen_sockets sy cf t p = Ok q"
  shows "served cf t p q \<and> same_process p q"
proof -
  let ?p = "p\<lparr>pc_serverfds := [], pc_sslfds := [], pc_maxfd := -1\<rparr>"
  from assms obtain q1 where l: "init_sockets_from_port_list sy cf t False (cf_ListenPorts cf) ?p = Ok q1"
    and r: "(if cf_EnableSSL cf then init_sockets_from_port_list sy cf t True (cf_ListenSSLPorts cf) q1 else Ok q1) = Ok q"
    by (auto simp: listen_sockets_def)
  from port_list_opens [OF l] obtain ps fds where
      ps: "port_list (cf_ListenPorts cf) = Ok ps" "length fds = length ps" "\<forall>fd \<in> set fds. 0 \<le> fd \<and> fd < FD_SETSIZE"
        "q1 = opened cf t False fds ps ?p" by blast
  obtain ss gs where
      ss: "(if cf_EnableSSL cf then port_list (cf_ListenSSLPorts cf) else Ok []) = Ok ss" "length gs = length ss"
        "\<forall>fd \<in> set gs. 0 \<le> fd \<and> fd < FD_SETSIZE" "q = opened cf t True gs ss q1"
  proof (cases "cf_EnableSSL cf")
    case True
    with r have "init_sockets_from_port_list sy cf t True (cf_ListenSSLPorts cf) q1 = Ok q" by simp
    from port_list_opens [OF this] True that show ?thesis by auto
  next
    case False
    with r that [of "[]" "[]"] show ?thesis by (simp add: opened_Nil)
  qed
  have "\<forall>fd \<in> set (fds @ gs). fd \<le> fold max gs (fold max fds (-1))"
    using fold_max_ge [of "-1" fds] fold_max_ge [of "fold max fds (-1)" gs] by auto
  moreover have "init_sockets cf = Ok (ps, ss)" using ps(1) ss(1) by (simp add: init_sockets_def)
  ultimately have "served cf t p q" unfolding served_def using ps(2,3) ss(2,3)
    by (intro exI [of _ ps] exI [of _ ss] exI [of _ "fds @ gs"]) (auto simp: ss(4) ps(4) opened_def)
  then show ?thesis by (simp add: same_process_def ss(4) ps(4) opened_def)
qed

section \<open>Lemmas on the start\<close>

lemma load_tables_env: "load_tables sr w = Some (Ok (u, w')) \<Longrightarrow> w_env w' = w_env w"
  by (auto simp: load_tables_def run_Ok Let_def)

text \<open>The start reads its tables as \<open>run_daemon\<close> says, whatever is done to the process in between.\<close>

lemma launch_steps:
  assumes "launch sy sr bd stay t p w = Some (Ok ((l, p'), w'))" and "l \<noteq> No_curl"
  obtains q1 q2 q3 q4 q5 where "run_daemon sr w = Some (Ok ((), w'))" "served (cfg w') t p q1" "same_process p q1"
    "(if t then Ok q1 else obind (writepidfile sy (cfg w') q1) (become_user sy (cfg w'))) = Ok q2"
    "daemon_chdir sy bd (cfg w') q2 = Ok q3" "semlock_init sy q3 = Ok q4"
    "if t then l = Tested \<and> p' = q4 else l = Serving \<and> (if stay then Ok q4 else obind (init_daemon sy q4) (writepidfile sy (cfg w'))) = Ok q5
       \<and> (if 0 < cf_StatsFilePeriod (cfg w') then run_timer_loop sy q5 else Ok q5) = Ok p'"
proof -
  from assms obtain v q1 q2 q3 q4 q5 where c: "loadconfig sr w = Some (Ok ((), v))" and s: "listen_sockets sy (cfg v) t p = Ok q1"
    and q: "(if t then Ok q1 else obind (writepidfile sy (cfg v) q1) (become_user sy (cfg v))) = Ok q2"
      "daemon_chdir sy bd (cfg v) q2 = Ok q3" "semlock_init sy q3 = Ok q4"
      "if t then l = Tested \<and> p' = q4 else l = Serving \<and> (if stay then Ok q4 else obind (init_daemon sy q4) (writepidfile sy (cfg v))) = Ok q5
       \<and> (if 0 < cf_StatsFilePeriod (cfg v) then run_timer_loop sy q5 else Ok q5) = Ok p'"
    and l: "load_tables sr v = Some (Ok ((), w'))"
    unfolding launch_def by (cases t; cases "sy_curl sy") (force simp: run_Ok)+
  from load_tables_env [OF l] have e: "cfg v = cfg w'" by simp
  from listen_sockets_served [OF s] obtain x where x: "init_sockets (cfg v) = Ok x" by (auto simp: served_def)
  have "run_daemon sr w = Some (Ok ((), w'))" using c x l by (simp add: run_daemon_def run_Ok)
  with that listen_sockets_served [OF s] q show ?thesis unfolding e by blast
qed

lemmas step_defs = writepidfile_def become_user_def daemon_chdir_def semlock_init_def closeall_def init_daemon_def run_timer_loop_def Let_def

lemma step_frames:
  "writepidfile sy cf p = Ok q \<Longrightarrow> pc_uid q = pc_uid p \<and> pc_gid q = pc_gid p \<and> pc_cwd q = pc_cwd p \<and> pc_pid q = pc_pid p
     \<and> (\<exists>o'. pc_pidfiles q = (resolve (pc_cwd p) (cf_PidFile cf), pc_pid p, o') # pc_pidfiles p)"
  "become_user sy cf p = Ok q \<Longrightarrow> pc_gid q = pc_gid p \<and> pc_cwd q = pc_cwd p \<and> pc_pid q = pc_pid p \<and> pc_pidfiles q = pc_pidfiles p
     \<and> (if pc_uid p = 0 then \<exists>g. sy_passwd sy (cf_RunAsUser cf) = Some (pc_uid q, g) else pc_uid q = pc_uid p)"
  "daemon_chdir sy bd cf p = Ok q \<Longrightarrow> pc_uid q = pc_uid p \<and> pc_gid q = pc_gid p \<and> pc_pid q = pc_pid p \<and> pc_pidfiles q = pc_pidfiles p"
  "semlock_init sy p = Ok q \<Longrightarrow> pc_uid q = pc_uid p \<and> pc_gid q = pc_gid p \<and> pc_cwd q = pc_cwd p \<and> pc_pid q = pc_pid p
     \<and> pc_pidfiles q = pc_pidfiles p"
  "init_daemon sy p = Ok q \<Longrightarrow> pc_uid q = pc_uid p \<and> pc_gid q = pc_gid p \<and> pc_cwd q = pc_cwd p"
  "run_timer_loop sy p = Ok q \<Longrightarrow> pc_uid q = pc_uid p \<and> pc_gid q = pc_gid p \<and> pc_cwd q = pc_cwd p \<and> pc_pid q = pc_pid p
     \<and> pc_pidfiles q = pc_pidfiles p"
  by (auto simp: step_defs split: option.splits if_splits)

lemma step_sockets:
  "writepidfile sy cf p = Ok q \<Longrightarrow> (pc_fds q, pc_bound q, pc_serverfds q, pc_sslfds q, pc_maxfd q) = (pc_fds p, pc_bound p, pc_serverfds p, pc_sslfds p, pc_maxfd p)"
  "become_user sy cf p = Ok q \<Longrightarrow> (pc_fds q, pc_bound q, pc_serverfds q, pc_sslfds q, pc_maxfd q) = (pc_fds p, pc_bound p, pc_serverfds p, pc_sslfds p, pc_maxfd p)"
  "daemon_chdir sy bd cf p = Ok q \<Longrightarrow> (pc_fds q, pc_bound q, pc_serverfds q, pc_sslfds q, pc_maxfd q) = (pc_fds p, pc_bound p, pc_serverfds p, pc_sslfds p, pc_maxfd p)"
  "semlock_init sy p = Ok q \<Longrightarrow> (pc_fds q, pc_bound q, pc_serverfds q, pc_sslfds q, pc_maxfd q) = (pc_fds p, pc_bound p, pc_serverfds p, pc_sslfds p, pc_maxfd p)"
  "run_timer_loop sy p = Ok q \<Longrightarrow> (pc_fds q, pc_bound q, pc_serverfds q, pc_sslfds q, pc_maxfd q) = (pc_fds p, pc_bound p, pc_serverfds p, pc_sslfds p, pc_maxfd p)"
  "init_daemon sy p = Ok q \<Longrightarrow> (pc_bound q, pc_serverfds q, pc_sslfds q, pc_maxfd q) = (pc_bound p, pc_serverfds p, pc_sslfds p, pc_maxfd p)
     \<and> pc_fds q = filter (\<lambda>fd. fd < 0 \<or> FD_SETSIZE \<le> fd \<or> fd \<in> set (pc_serverfds p)) (pc_fds p) \<and> pc_session q = pc_pid q"
  by (auto simp: step_defs split: option.splits if_splits)

text \<open>The steps of a start that serves.\<close>

lemma serving_steps:
  assumes "launch sy sr bd stay t p w = Some (Ok ((Serving, p'), w'))"
  obtains q1 r q2 q3 q4 q5 where "served (cfg w') False p q1" "same_process p q1"
    "writepidfile sy (cfg w') q1 = Ok r" "become_user sy (cfg w') r = Ok q2" "daemon_chdir sy bd (cfg w') q2 = Ok q3" "semlock_init sy q3 = Ok q4"
    "if stay then q5 = q4 else \<exists>s. init_daemon sy q4 = Ok s \<and> writepidfile sy (cfg w') s = Ok q5"
    "if 0 < cf_StatsFilePeriod (cfg w') then run_timer_loop sy q5 = Ok p' else p' = q5"
  by (rule launch_steps [OF assms]) (auto split: if_splits intro: that)

lemma serving_user:
  assumes "launch sy sr bd stay t p w = Some (Ok ((Serving, p'), w'))"
  shows "(if pc_uid p = 0 then \<exists>g. sy_passwd sy (cf_RunAsUser (cfg w')) = Some (pc_uid p', g) else pc_uid p' = pc_uid p)"
    and "pc_gid p' = pc_gid p"
    and "\<exists>o' rest. pc_pidfiles p' = (resolve (if stay then pc_cwd p else pc_cwd p') (cf_PidFile (cfg w')), pc_pid p', o') # rest"
proof -
  obtain q1 r q2 q3 q4 q5 where q1: "same_process p q1"
    and q: "writepidfile sy (cfg w') q1 = Ok r" "become_user sy (cfg w') r = Ok q2" "daemon_chdir sy bd (cfg w') q2 = Ok q3" "semlock_init sy q3 = Ok q4"
      "if stay then q5 = q4 else \<exists>s. init_daemon sy q4 = Ok s \<and> writepidfile sy (cfg w') s = Ok q5"
      "if 0 < cf_StatsFilePeriod (cfg w') then run_timer_loop sy q5 = Ok p' else p' = q5"
    using serving_steps [OF assms] .
  note start = q1 [unfolded same_process_def] step_frames(1) [OF q(1)] step_frames(2) [OF q(2)] step_frames(3) [OF q(3)] step_frames(4) [OF q(4)]
  have "pc_uid p' = pc_uid q5 \<and> pc_gid p' = pc_gid q5 \<and> pc_cwd p' = pc_cwd q5 \<and> pc_pid p' = pc_pid q5 \<and> pc_pidfiles p' = pc_pidfiles q5"
    using q(6) step_frames(6) by (auto split: if_splits)
  moreover have "pc_uid q5 = pc_uid q4 \<and> pc_gid q5 = pc_gid q4"
      "if stay then q5 = q4 else \<exists>o' rest. pc_pidfiles q5 = (resolve (pc_cwd q5) (cf_PidFile (cfg w')), pc_pid q5, o') # rest"
    using q(5) step_frames(5) step_frames(1) by (cases stay; fastforce)+
  ultimately show "(if pc_uid p = 0 then \<exists>g. sy_passwd sy (cf_RunAsUser (cfg w')) = Some (pc_uid p', g) else pc_uid p' = pc_uid p)"
      "pc_gid p' = pc_gid p"
      "\<exists>o' rest. pc_pidfiles p' = (resolve (if stay then pc_cwd p else pc_cwd p') (cf_PidFile (cfg w')), pc_pid p', o') # rest"
    using start by (auto split: if_splits)
qed

section \<open>Properties\<close>

text \<open>C9: 
  A daemon that serves and was started by root runs as the user of its configuration, one started by another
  user as that user; and the file with a process id that was written last, which is the one at the path of
  the configuration, holds the id of the process that serves and not the one of the process that was started.
\<close>

theorem serving_process:
  assumes "launch sy sr bd stay t p w = Some (Ok ((Serving, p'), w'))"
  shows "(if pc_uid p = 0 then \<exists>g. sy_passwd sy (cf_RunAsUser (cfg w')) = Some (pc_uid p', g) else pc_uid p' = pc_uid p)
    \<and> (\<exists>o' rest. pc_pidfiles p' = (resolve (if stay then pc_cwd p else pc_cwd p') (cf_PidFile (cfg w')), pc_pid p', o') # rest)"
  using serving_user [OF assms] by blast

text \<open>C15: 
  A daemon that serves listens on exactly the ports of its configuration, the SSL ones marked as such, all of
  them among the descriptors its loop looks at; and one that has detached itself keeps no other descriptor
  that a set can hold, and leads its session.
\<close>

theorem serving_sockets:
  assumes "launch sy sr bd stay t p w = Some (Ok ((Serving, p'), w'))"
  shows "served (cfg w') False p p'
    \<and> (stay \<or> (\<forall>fd \<in> set (pc_fds p'). 0 \<le> fd \<and> fd < FD_SETSIZE \<longrightarrow> fd \<in> set (pc_serverfds p')) \<and> pc_session p' = pc_pid p')"
proof -
  obtain q1 r q2 q3 q4 q5 where q1: "served (cfg w') False p q1"
    and q: "writepidfile sy (cfg w') q1 = Ok r" "become_user sy (cfg w') r = Ok q2" "daemon_chdir sy bd (cfg w') q2 = Ok q3" "semlock_init sy q3 = Ok q4"
      "if stay then q5 = q4 else \<exists>s. init_daemon sy q4 = Ok s \<and> writepidfile sy (cfg w') s = Ok q5"
      "if 0 < cf_StatsFilePeriod (cfg w') then run_timer_loop sy q5 = Ok p' else p' = q5"
    using serving_steps [OF assms] .
  note q4 = step_sockets(1) [OF q(1)] step_sockets(2) [OF q(2)] step_sockets(3) [OF q(3)] step_sockets(4) [OF q(4)]
  have p': "(pc_fds p', pc_bound p', pc_serverfds p', pc_sslfds p', pc_maxfd p', pc_session p', pc_pid p')
      = (pc_fds q5, pc_bound q5, pc_serverfds q5, pc_sslfds q5, pc_maxfd q5, pc_session q5, pc_pid q5)"
    using q(6) by (auto simp: run_timer_loop_def split: if_splits option.splits)
  show ?thesis
  proof (cases stay)
    case True
    with q(5) q4 p' q1 show ?thesis by (auto simp: served_def)
  next
    case False
    with q(5) obtain s where s: "init_daemon sy q4 = Ok s" "writepidfile sy (cfg w') s = Ok q5" by auto
    have "pc_session q5 = pc_session s \<and> pc_pid q5 = pc_pid s"
      using s(2) by (auto simp: writepidfile_def Let_def split: if_splits option.splits)
    with step_sockets(6) [OF s(1)] step_sockets(1) [OF s(2)] q4 p' have
        "pc_fds p' = filter (\<lambda>fd. fd < 0 \<or> FD_SETSIZE \<le> fd \<or> fd \<in> set (pc_serverfds q1)) (pc_fds q1)"
        "pc_bound p' = pc_bound q1" "pc_serverfds p' = pc_serverfds q1" "pc_sslfds p' = pc_sslfds q1" "pc_maxfd p' = pc_maxfd q1"
        "pc_session p' = pc_pid p'" by simp_all
    with q1 show ?thesis unfolding served_def by auto
  qed
qed


text \<open>C38: 
  The daemon of root takes the user of its configuration and not the group of that user: it serves with the
  group it was started with.
\<close>

theorem root_group_kept:
  assumes "launch sy sr bd stay t p w = Some (Ok ((Serving, p'), w'))" and "pc_uid p = 0"
    and "sy_passwd sy (cf_RunAsUser (cfg w')) = Some (u, g)" and "g \<noteq> pc_gid p"
  shows "pc_uid p' = u \<and> pc_gid p' \<noteq> g \<and> pc_gid p' = pc_gid p"
  using serving_user(1,2) [OF assms(1)] assms(2-4) by simp


section \<open>Witnesses\<close>

text \<open>The host of \<open>Startup\<close>, with a user for the daemon, and a system that answers well.\<close>

definition boot_world :: world where
  "boot_world = host_world\<lparr>w_env := (w_env host_world)\<lparr>e_fs := host_files(''/etc/b.conf'' \<mapsto>
     [''BasePath /news'' @ [LF], ''ServerFile servers'' @ [LF], ''ActiveFile active'' @ [LF], ''OverviewFmtFile overview.fmt'' @ [LF],
      ''AccessFile access'' @ [LF], ''ListenPorts 119, 433'' @ [LF], ''EnableSSL 1'' @ [LF], ''ListenSSLPorts 563'' @ [LF],
      ''BindAddress 0.0.0.0'' @ [LF], ''RunAsUser news'' @ [LF], ''PidFile run/pid'' @ [LF], ''StatsFilePeriod 60'' @ [LF],
      ''MaxConnections 9'' @ [LF], ''BufSize 256'' @ [LF]])\<rparr>\<rparr>"

definition boot_system :: system where
  "boot_system = \<lparr>sy_memmap = True, sy_socket = (\<lambda>fds. Some (fold max fds 2 + 1)), sy_reuse = (\<lambda>_. True), sy_bind = (\<lambda>_ _ _. True),
     sy_listen = (\<lambda>_. True), sy_curl = True, sy_create = (\<lambda>_ _. True), sy_passwd = [''news'' \<mapsto> (9, 13)], sy_setuid = (\<lambda>_. True),
     sy_chdir = (\<lambda>_ _. True), sy_semget = (\<lambda>_. Some 1), sy_fork = Some 501, sy_setsid = True, sy_timer = Some 502\<rparr>"

definition boot_process :: process where
  "boot_process = \<lparr>pc_pid = 500, pc_session = 1, pc_uid = 0, pc_gid = 0, pc_cwd = ''/root'', pc_fds = [0, 1, 2], pc_bound = [],
     pc_serverfds = [], pc_sslfds = [], pc_maxfd = 0, pc_pidfiles = [], pc_semid = None, pc_timerpid = 0, pc_kills = []\<rparr>"

abbreviation boot_start :: surroundings where
  "boot_start \<equiv> host_start\<lparr>sr_config := Some ''/etc/b.conf''\<rparr>"

lemma boot_serves:
  "\<exists>p' w'. launch boot_system boot_start None False False boot_process boot_world = Some (Ok ((Serving, p'), w'))
     \<and> cf_RunAsUser (cfg w') = ''news'' \<and> pc_pidfiles p' = [(''/news/run/pid'', 501, 9, 13), (''/news/run/pid'', 500, 9, 13)]
     \<and> pc_bound p' = [(3, ''0.0.0.0'', 119), (4, ''0.0.0.0'', 433), (5, ''0.0.0.0'', 563)] \<and> pc_fds p' = [3, 4, 5] \<and> pc_sslfds p' = [5]"
proof -
  have "runs (launch boot_system boot_start None False False boot_process) boot_world
      (\<lambda>(l, p') w'. l = Serving \<and> cf_RunAsUser (cfg w') = ''news'' \<and> pc_pidfiles p' = [(''/news/run/pid'', 501, 9, 13), (''/news/run/pid'', 500, 9, 13)]
     \<and> pc_bound p' = [(3, ''0.0.0.0'', 119), (4, ''0.0.0.0'', 433), (5, ''0.0.0.0'', 563)] \<and> pc_fds p' = [3, 4, 5] \<and> pc_sslfds p' = [5])"
    by code_simp
  then show ?thesis unfolding runs_iff by auto
qed

theorem serving_process_witness:
  "\<exists>p' w'. launch boot_system boot_start None False False boot_process boot_world = Some (Ok ((Serving, p'), w'))
     \<and> pc_uid p' = 9 \<and> fst (snd (hd (pc_pidfiles p'))) = pc_pid p'"
proof -
  from boot_serves obtain p' w' where r: "launch boot_system boot_start None False False boot_process boot_world = Some (Ok ((Serving, p'), w'))"
    and u: "cf_RunAsUser (cfg w') = ''news''" by blast
  from serving_process [OF r] u have "pc_uid p' = 9 \<and> fst (snd (hd (pc_pidfiles p'))) = pc_pid p'"
    by (auto simp: boot_process_def boot_system_def)
  with r show ?thesis by blast
qed

theorem serving_sockets_witness:
  "\<exists>p' w'. launch boot_system boot_start None False False boot_process boot_world = Some (Ok ((Serving, p'), w'))
     \<and> served (cfg w') False boot_process p' \<and> pc_sslfds p' = [5]"
proof -
  from boot_serves obtain p' w' where r: "launch boot_system boot_start None False False boot_process boot_world = Some (Ok ((Serving, p'), w'))"
    and u: "pc_sslfds p' = [5]" by blast
  from serving_sockets [OF r] u r show ?thesis by blast
qed


theorem root_group_kept_witness:
  "\<exists>p' w'. launch boot_system boot_start None False False boot_process boot_world = Some (Ok ((Serving, p'), w')) \<and> pc_uid p' = 9 \<and> pc_gid p' = 0"
proof -
  from boot_serves obtain p' w' where r: "launch boot_system boot_start None False False boot_process boot_world = Some (Ok ((Serving, p'), w'))"
    and u: "cf_RunAsUser (cfg w') = ''news''" by blast
  from root_group_kept [OF r, of 9 13] u r show ?thesis by (auto simp: boot_process_def boot_system_def)
qed


end
