(* ===== verification/Transport.thy ===== *)
theory Transport
  imports World
begin

text \<open>
  What is around the calls of two libraries: the handshake, the contexts and the repeated calls of
  \<open>auth/ssl_socket.c\<close>, and the collection of an answer in \<open>curl.c\<close>. What the library says to the
  \<open>k\<close>-th call is a parameter. The sockets of \<open>Socket\<close> and the web services of \<open>Auth\<close> and
  \<open>Authenticators\<close> take their results as given. Memory is there when it is asked for.
\<close>

section \<open>Contexts\<close>

text \<open>What OpenSSL finds in the files: a certificate chain, a key that the password opens, a list of
  authorities. The key file is read with the password that the callback copies to a buffer of 1024 bytes.\<close>

record ssl_library =
  sl_certificate :: "string \<Rightarrow> bool"
  sl_key :: "string \<Rightarrow> string \<Rightarrow> bool"
  sl_authorities :: "string \<Rightarrow> bool"

definition password_callback :: "string \<Rightarrow> nat \<Rightarrow> string option" where
  "password_callback ssl_password num = (if num < length ssl_password + 1 then None else Some ssl_password)"

definition PASSWORD_BUF :: nat where "PASSWORD_BUF = 1024"

text \<open>Whether there is a context, and the password that the process keeps: 127 bytes of it.\<close>

definition ssl_init_ctx :: "ssl_library \<Rightarrow> string \<Rightarrow> string \<Rightarrow> string \<Rightarrow> string \<Rightarrow> bool \<times> string" where
  "ssl_init_ctx lib keyfile password ca_list ssl_password =
     (if \<not> sl_certificate lib keyfile then (False, ssl_password)
      else let pw = take 127 password in
           if \<not> sl_key lib keyfile (case password_callback pw PASSWORD_BUF of None \<Rightarrow> [] | Some s \<Rightarrow> s) then (False, pw)
           else (sl_authorities lib ca_list, pw))"

section \<open>The handshake\<close>

datatype accept_ret = Accept_ok | Want_read | Want_write | Accept_error | Accept_closed
datatype select_ret = Sel_ready | Sel_timeout | Sel_error

text \<open>The number of calls made, and whether the last one ended the handshake well. Between two calls the
  process waits until the socket can be read, also when the library wants to write.\<close>

partial_function (option) accept_loop :: "(nat \<Rightarrow> accept_ret) \<Rightarrow> (nat \<Rightarrow> select_ret) \<Rightarrow> nat \<Rightarrow> (bool \<times> nat) option" where
  "accept_loop acc wt k =
     (case acc k of
        Accept_ok \<Rightarrow> Some (True, k)
      | Accept_error \<Rightarrow> Some (False, k)
      | Accept_closed \<Rightarrow> Some (False, k)
      | Want_read \<Rightarrow> (if wt k = Sel_ready then accept_loop acc wt (Suc k) else Some (False, k))
      | Want_write \<Rightarrow> (if wt k = Sel_ready then accept_loop acc wt (Suc k) else Some (False, k)))"

text \<open>Whether there is a connection, and whether the socket is left in its non-blocking mode.\<close>

definition ssl_init_accept ::
  "bool \<Rightarrow> bool \<Rightarrow> (nat \<Rightarrow> accept_ret) \<Rightarrow> (nat \<Rightarrow> select_ret) \<Rightarrow> bool \<Rightarrow> (bool \<times> bool) option" where
  "ssl_init_accept ssl_new set_fd acc wt nonblock =
     (if \<not> ssl_new then Some (False, nonblock)
      else if \<not> set_fd then Some (False, True)
      else map_option (\<lambda>(ok, k). (ok, False)) (accept_loop acc wt 0))"

section \<open>Repeated calls\<close>

text \<open>A read whose error is that the library wants to read, a write whose error is that it wants to write, is
  made again at once, and so on.\<close>

record ssl_ret =
  sr_ret :: int
  sr_again :: bool

partial_function (option) call_again :: "(nat \<Rightarrow> ssl_ret) \<Rightarrow> nat \<Rightarrow> int option" where
  "call_again rets k = (if sr_again (rets k) then call_again rets (Suc k) else Some (sr_ret (rets k)))"

definition ssl_read :: "(nat \<Rightarrow> ssl_ret) \<Rightarrow> int option" where
  "ssl_read rets = call_again rets 0"

definition ssl_write :: "(nat \<Rightarrow> ssl_ret) \<Rightarrow> int option" where
  "ssl_write rets = call_again rets 0"

section \<open>Answers of a web service\<close>

record curlMemStruct =
  cm_mem :: "string option"
  cm_size :: nat

text \<open>The null behind what has come so far is not in \<open>cm_mem\<close>.\<close>

definition curlWriteCallback :: "string \<Rightarrow> curlMemStruct \<Rightarrow> curlMemStruct" where
  "curlWriteCallback ptr m =
     m\<lparr>cm_mem := Some (take (cm_size m) (case cm_mem m of None \<Rightarrow> [] | Some s \<Rightarrow> s) @ ptr), cm_size := cm_size m + length ptr\<rparr>"

text \<open>The library delivers the answer in pieces, and says whether it was an answer.\<close>

definition curlGetCurlURL :: "(string \<Rightarrow> string list \<times> bool) \<Rightarrow> string \<Rightarrow> string option \<times> curlMemStruct" where
  "curlGetCurlURL perform url =
     (let (pieces, ok) = perform url; m = fold curlWriteCallback pieces \<lparr>cm_mem = None, cm_size = 0\<rparr> in
      (if ok then cm_mem m else None, m))"

text \<open>The text that the callers read ends at its first null.\<close>

definition curlGetURL :: "bool \<Rightarrow> (string \<Rightarrow> string list \<times> bool) \<Rightarrow> string \<Rightarrow> string option" where
  "curlGetURL init perform url = (if \<not> init then None else map_option (takeWhile (\<lambda>c. c \<noteq> NUL)) (fst (curlGetCurlURL perform url)))"

section \<open>Calls until one decides\<close>

text \<open>A loop that makes its calls from \<open>k\<close> on until one is the last, and has nothing to say when none is.\<close>

locale retried =
  fixes call :: "nat \<Rightarrow> 'r option" and last_call :: "nat \<Rightarrow> bool" and result :: "nat \<Rightarrow> 'r"
  assumes step: "call k = (if last_call k then Some (result k) else call (Suc k))"
    and ends: "call k = Some r \<Longrightarrow> \<exists>i \<ge> k. last_call i"
begin

lemma skips: "\<forall>i. k \<le> i \<and> i < k + n \<longrightarrow> \<not> last_call i \<Longrightarrow> call k = call (k + n)"
proof (induction n arbitrary: k)
  case (Suc n)
  from Suc.prems have "call k = call (Suc k)" by (subst step) simp
  with Suc.IH [of "Suc k"] Suc.prems show ?case by simp
qed simp

lemma first_decides:
  assumes "last_call n" and "\<forall>i < n. \<not> last_call i"
  shows "call 0 = Some (result n)"
proof -
  have "\<forall>i. 0 \<le> i \<and> i < 0 + n \<longrightarrow> \<not> last_call i" using assms(2) by simp
  from skips [OF this] have "call 0 = call n" unfolding add_0 .
  also have "call n = Some (result n)" using assms(1) by (subst step) simp
  finally show ?thesis .
qed

lemma returns: "(\<exists>r. call 0 = Some r) \<longleftrightarrow> (\<exists>n. last_call n)"
proof
  assume "\<exists>n. last_call n"
  then have "last_call (LEAST n. last_call n)" by (rule LeastI_ex)
  moreover have "\<forall>i < (LEAST n. last_call n). \<not> last_call i" by (blast dest: not_less_Least)
  ultimately show "\<exists>r. call 0 = Some r" using first_decides by blast
qed (auto dest: ends)

end

definition decides :: "(nat \<Rightarrow> accept_ret) \<Rightarrow> (nat \<Rightarrow> select_ret) \<Rightarrow> nat \<Rightarrow> bool" where
  \<comment> \<open>the \<open>k\<close>-th call ends the handshake\<close>
  "decides acc wt k \<longleftrightarrow> acc k \<in> {Accept_ok, Accept_error, Accept_closed} \<or> wt k \<noteq> Sel_ready"

interpretation handshake: retried "accept_loop acc wt" "decides acc wt" "\<lambda>k. (acc k = Accept_ok, k)" for acc wt
proof
  show "accept_loop acc wt k = (if decides acc wt k then Some (acc k = Accept_ok, k) else accept_loop acc wt (Suc k))" for k
    by (subst accept_loop.simps) (cases "acc k"; simp add: decides_def)
  show "\<exists>i \<ge> k. decides acc wt i" if "accept_loop acc wt k = Some r" for k r
  proof (rule accept_loop.raw_induct [OF _ that, where P = "\<lambda>acc wt k r. \<exists>i \<ge> k. decides acc wt i"])
    fix f :: "(nat \<Rightarrow> accept_ret) \<Rightarrow> (nat \<Rightarrow> select_ret) \<Rightarrow> nat \<Rightarrow> (bool \<times> nat) option" and acc wt k r
    assume f: "\<And>acc wt k r. f acc wt k = Some r \<Longrightarrow> \<exists>i \<ge> k. decides acc wt i"
      and r: "(case acc k of Accept_ok \<Rightarrow> Some (True, k) | Accept_error \<Rightarrow> Some (False, k) | Accept_closed \<Rightarrow> Some (False, k)
        | Want_read \<Rightarrow> if wt k = Sel_ready then f acc wt (Suc k) else Some (False, k)
        | Want_write \<Rightarrow> if wt k = Sel_ready then f acc wt (Suc k) else Some (False, k)) = Some r"
    show "\<exists>i \<ge> k. decides acc wt i"
    proof (cases "decides acc wt k")
      case False
      with r have "f acc wt (Suc k) = Some r" by (cases "acc k") (auto simp: decides_def split: if_splits)
      from f [OF this] show ?thesis by (meson Suc_leD)
    qed blast
  qed
qed

interpretation calls_again: retried "call_again rets" "\<lambda>k. \<not> sr_again (rets k)" "\<lambda>k. sr_ret (rets k)" for rets
proof
  show "call_again rets k = (if \<not> sr_again (rets k) then Some (sr_ret (rets k)) else call_again rets (Suc k))" for k
    by (subst call_again.simps) simp
  show "\<exists>i \<ge> k. \<not> sr_again (rets i)" if "call_again rets k = Some r" for k r
  proof (rule call_again.raw_induct [OF _ that, where P = "\<lambda>rets k r. \<exists>i \<ge> k. \<not> sr_again (rets i)"])
    fix f :: "(nat \<Rightarrow> ssl_ret) \<Rightarrow> nat \<Rightarrow> int option" and rets k r
    assume "\<And>rets k r. f rets k = Some r \<Longrightarrow> \<exists>i \<ge> k. \<not> sr_again (rets i)"
      and "(if sr_again (rets k) then f rets (Suc k) else Some (sr_ret (rets k))) = Some r"
    then show "\<exists>i \<ge> k. \<not> sr_again (rets i)" by (cases "sr_again (rets k)") (auto, meson Suc_leD)
  qed
qed

lemma curl_pieces:
  "fold curlWriteCallback ps \<lparr>cm_mem = Some s, cm_size = length s\<rparr> = \<lparr>cm_mem = Some (s @ concat ps), cm_size = length (s @ concat ps)\<rparr>"
proof (induction ps arbitrary: s)
  case (Cons p ps)
  have "curlWriteCallback p \<lparr>cm_mem = Some s, cm_size = length s\<rparr> = \<lparr>cm_mem = Some (s @ p), cm_size = length (s @ p)\<rparr>"
    by (simp add: curlWriteCallback_def)
  with Cons.IH [of "s @ p"] show ?case by simp
qed simp

section \<open>Properties\<close>

text \<open>C35: 
  The handshake returns exactly when some call decides it: success, an error, or a wait that ends without
  anything to read. It has succeeded when the first such call has, and the socket then blocks again.
\<close>

theorem ssl_handshake_decided:
  assumes "decides acc wt n" and "\<forall>i < n. \<not> decides acc wt i"
  shows "ssl_init_accept True True acc wt nonblock = Some (acc n = Accept_ok, False)
    \<and> ((\<exists>r. ssl_init_accept True True acc' wt' nonblock = Some r) \<longleftrightarrow> (\<exists>k. decides acc' wt' k))"
  using handshake.first_decides [OF assms] handshake.returns [of acc' wt'] by (auto simp: ssl_init_accept_def)

text \<open>A connection that the library could not attach to its socket leaves the socket in the non-blocking mode
  that no one has asked for.\<close>

theorem ssl_attach_failure_leaves_nonblocking:
  "ssl_init_accept True False acc wt False = Some (False, True)"
  by (simp add: ssl_init_accept_def)

text \<open>Reading goes on until the library wants nothing more, and for ever if that never is.\<close>

theorem ssl_read_first_answer:
  assumes "\<not> sr_again (rets n)" and "\<forall>i < n. sr_again (rets i)"
  shows "ssl_read rets = Some (sr_ret (rets n)) \<and> ssl_write rets = Some (sr_ret (rets n))"
  using calls_again.first_decides [of rets n] assms by (simp add: ssl_read_def ssl_write_def)

text \<open>The answer of a web service is the pieces that were delivered, one behind the other, and nothing when
  there was no piece.\<close>

theorem curl_answer_whole:
  "curlGetCurlURL perform url = (let (ps, ok) = perform url in
     (if ok \<and> ps \<noteq> [] then Some (concat ps) else None, \<lparr>cm_mem = (if ps = [] then None else Some (concat ps)), cm_size = length (concat ps)\<rparr>))"
proof (cases "perform url")
  case (Pair ps ok)
  have "fold curlWriteCallback ps \<lparr>cm_mem = None, cm_size = 0\<rparr>
      = \<lparr>cm_mem = (if ps = [] then None else Some (concat ps)), cm_size = length (concat ps)\<rparr>"
  proof (cases ps)
    case (Cons p qs)
    then show ?thesis using curl_pieces [of qs p] by (simp add: curlWriteCallback_def)
  qed simp
  with Pair show ?thesis by (simp add: curlGetCurlURL_def Let_def)
qed

section \<open>Witnesses\<close>

definition slow_peer :: "nat \<Rightarrow> accept_ret" where
  "slow_peer k = (if k = 2 then Accept_ok else if k = 1 then Want_write else Want_read)"

theorem ssl_handshake_decided_witness:
  "ssl_init_accept True True slow_peer (\<lambda>_. Sel_ready) False = Some (True, False)"
proof -
  have "decides slow_peer (\<lambda>_. Sel_ready) 2" "\<forall>i < 2. \<not> decides slow_peer (\<lambda>_. Sel_ready) i"
    by (auto simp: decides_def slow_peer_def)
  from ssl_handshake_decided [OF this] show ?thesis by (simp add: slow_peer_def)
qed

theorem ssl_read_first_answer_witness:
  "ssl_read (\<lambda>k. \<lparr>sr_ret = int k, sr_again = k < 3\<rparr>) = Some 3"
  using ssl_read_first_answer [of "\<lambda>k. \<lparr>sr_ret = int k, sr_again = k < 3\<rparr>" 3] by simp

end
